(* ===== verification/Comet_Prelude.thy ===== *)
theory Comet_Prelude
  imports Main "HOL-Library.Word" "HOL-Library.AList"
begin

text \<open>
  Shared vocabulary of the development: bytes and machine integers, the faults a C++
  handler can run into (each is undefined behaviour, a failed assertion or an uncaught
  exception in the code), the sequencing of fallible steps, bounded writes into a fixed
  buffer, big-endian integers, and the generic lemmas on lists and association lists
  that the component theories use.
\<close>

unbundle bit_operations_syntax

named_theorems fault_simps \<open>sequencing of fallible steps\<close>
named_theorems endian_simps \<open>big-endian coding\<close>
named_theorems alist_simps \<open>association lists with distinct keys\<close>

section \<open>Machine values\<close>

type_synonym byte = "8 word"
type_synonym bytes = "8 word list"
type_synonym u16 = "16 word"
type_synonym u32 = "32 word"
type_synonym u64 = "64 word"

text \<open>The value a C \<open>int\<close> receives from a \<open>size_t\<close> or a \<open>uint32_t\<close>: reduced modulo \<open>2^32\<close>
  and read as two's complement.\<close>

definition c_int :: "int \<Rightarrow> int" where
  "c_int x = sint (word_of_int x :: 32 word)"

text \<open>The value a \<open>size_t\<close> receives from an \<open>int\<close>.\<close>

definition c_size :: "int \<Rightarrow> nat" where
  "c_size x = nat (x mod 2 ^ 64)"

definition int_fits :: "int \<Rightarrow> bool" where
  "int_fits x \<longleftrightarrow> - (2 ^ 31) \<le> x \<and> x < 2 ^ 31"

section \<open>Faults and sequencing\<close>

datatype fault =
    OutOfBoundsRead
  | BufferOverflow
  | SignedOverflow
  | NegativeSize
  | BadAlloc
  | NullDeref
  | UninitialisedRead
  | UseAfterFree
  | FreedMessage
  | EndIterator
  | AssertFailed
  | UncaughtException
  | DivideByZero
  | Diverged

type_synonym 'a res = "fault + 'a"

definition bind_res :: "'a res \<Rightarrow> ('a \<Rightarrow> 'b res) \<Rightarrow> 'b res" where
  "bind_res r f = (case r of Inl e \<Rightarrow> Inl e | Inr x \<Rightarrow> f x)"

text \<open>A sequence of steps that each return the next state, stopped by the first fault.\<close>

fun fold_res :: "('a \<Rightarrow> 's \<Rightarrow> 's res) \<Rightarrow> 'a list \<Rightarrow> 's \<Rightarrow> 's res" where
  "fold_res f [] s = Inr s"
| "fold_res f (x # xs) s = bind_res (f x s) (fold_res f xs)"

text \<open>Reading and writing through a pointer into an object of known size.\<close>

definition read_at :: "'a list \<Rightarrow> nat \<Rightarrow> 'a res" where
  "read_at xs i = (if i < length xs then Inr (xs ! i) else Inl OutOfBoundsRead)"

definition read_range :: "'a list \<Rightarrow> nat \<Rightarrow> nat \<Rightarrow> 'a list res" where
  "read_range xs i n =
     (if i + n \<le> length xs then Inr (take n (drop i xs)) else Inl OutOfBoundsRead)"

definition memcpy_at :: "nat \<Rightarrow> 'a list \<Rightarrow> 'a list \<Rightarrow> 'a list res" where
  "memcpy_at i src des =
     (if i + length src \<le> length des
      then Inr (take i des @ src @ drop (i + length src) des)
      else Inl BufferOverflow)"

definition write_all :: "(nat \<times> 'a list) list \<Rightarrow> 'a list \<Rightarrow> 'a list res" where
  "write_all ws des = fold_res (\<lambda>(i, src). memcpy_at i src) ws des"

section \<open>Big-endian integers\<close>

text \<open>\<open>be_bytes k n\<close> is the \<open>k\<close>-byte network representation of \<open>n\<close>, as \<open>htons\<close> and
  \<open>htonl\<close> store it on any host; \<open>be_nat\<close> reads one back, as \<open>ntohs\<close> and \<open>ntohl\<close> do.\<close>

fun be_bytes :: "nat \<Rightarrow> nat \<Rightarrow> bytes" where
  "be_bytes 0 n = []"
| "be_bytes (Suc k) n = be_bytes k (n div 256) @ [of_nat (n mod 256)]"

definition be_nat :: "bytes \<Rightarrow> nat" where
  "be_nat bs = foldl (\<lambda>a b. a * 256 + unat b) 0 bs"

section \<open>Lemmas\<close>

lemma bind_res_Inl [simp, fault_simps]: "bind_res (Inl e) f = Inl e"
  by (simp add: bind_res_def)

lemma bind_res_Inr [simp, fault_simps]: "bind_res (Inr x) f = f x"
  by (simp add: bind_res_def)

lemma bind_res_eq_Inr [fault_simps]:
  "bind_res r f = Inr y \<longleftrightarrow> (\<exists>x. r = Inr x \<and> f x = Inr y)"
  by (cases r) auto

lemma bind_res_eq_InrE [elim]:
  assumes "bind_res r f = Inr y"
  obtains x where "r = Inr x" and "f x = Inr y"
  using assms by (auto simp: bind_res_eq_Inr)

lemma fold_res_append [fault_simps]:
  "fold_res f (xs @ ys) s = bind_res (fold_res f xs s) (fold_res f ys)"
proof (induction xs arbitrary: s)
  case (Cons x xs)
  then show ?case by (cases "f x s") auto
qed simp

text \<open>An invariant of every step is an invariant of the whole sequence.\<close>

lemma fold_res_invariant:
  assumes "fold_res f xs s = Inr t" and "I s"
    and "\<And>x s t. x \<in> set xs \<Longrightarrow> I s \<Longrightarrow> f x s = Inr t \<Longrightarrow> I t"
  shows "I t"
  using assms
proof (induction xs arbitrary: s)
  case (Cons x xs)
  from Cons.prems(1) obtain u where u: "f x s = Inr u" and rest: "fold_res f xs u = Inr t"
    by (auto simp: bind_res_eq_Inr)
  from Cons.prems(3) [OF _ Cons.prems(2) u] have "I u" by simp
  with rest show ?case by (rule Cons.IH) (meson Cons.prems(3) list.set_intros(2))
qed simp

text \<open>Steps that cannot fault under an invariant run to the end.\<close>

lemma fold_res_total:
  assumes "I s" and "\<And>x s. x \<in> set xs \<Longrightarrow> I s \<Longrightarrow> \<exists>t. f x s = Inr t \<and> I t"
  shows "\<exists>t. fold_res f xs s = Inr t \<and> I t"
  using assms
proof (induction xs arbitrary: s)
  case (Cons x xs)
  from Cons.prems(2) [of x s] Cons.prems(1) obtain t where "f x s = Inr t" and "I t" by auto
  moreover from \<open>I t\<close> have "\<exists>u. fold_res f xs t = Inr u \<and> I u"
    by (rule Cons.IH) (meson Cons.prems(2) list.set_intros(2))
  ultimately show ?case by simp
qed simp

text \<open>\<open>res_ok bad Q r\<close>: the outcome \<open>r\<close> is not one of the faults \<open>bad\<close>, and satisfies \<open>Q\<close> when it is
  no fault.\<close>

definition res_ok :: "fault set \<Rightarrow> ('a \<Rightarrow> bool) \<Rightarrow> 'a res \<Rightarrow> bool" where
  "res_ok bad Q r \<longleftrightarrow> (case r of Inl e \<Rightarrow> e \<notin> bad | Inr x \<Rightarrow> Q x)"

lemma res_ok_simps [simp]:
  "res_ok bad Q (Inl e) \<longleftrightarrow> e \<notin> bad" "res_ok bad Q (Inr x) \<longleftrightarrow> Q x"
  by (simp_all add: res_ok_def)

lemma res_ok_bind: "res_ok bad Q (bind_res r f) \<longleftrightarrow> res_ok bad (\<lambda>x. res_ok bad Q (f x)) r"
  by (cases r) auto

lemma res_ok_mono:
  assumes "res_ok bad P r" and "\<And>x. P x \<Longrightarrow> Q x"
  shows "res_ok bad Q r"
  using assms by (auto simp: res_ok_def split: sum.splits)

lemma res_ok_bindI:
  assumes "res_ok bad P r" and "\<And>x. P x \<Longrightarrow> res_ok bad Q (f x)"
  shows "res_ok bad Q (bind_res r f)"
  using assms(1) unfolding res_ok_bind by (rule res_ok_mono) (rule assms(2))

lemma res_ok_Inr: "res_ok bad Q r \<Longrightarrow> r = Inr x \<Longrightarrow> Q x"
  by simp

lemma res_ok_Inl: "res_ok bad Q r \<Longrightarrow> r = Inl e \<Longrightarrow> e \<notin> bad"
  by simp

lemma fold_res_ok:
  assumes "I s" and "\<And>x s. x \<in> set xs \<Longrightarrow> I s \<Longrightarrow> res_ok bad I (f x s)"
  shows "res_ok bad I (fold_res f xs s)"
  using assms
proof (induction xs arbitrary: s)
  case (Cons x xs)
  have "res_ok bad I (f x s)" using Cons.prems by simp
  then show ?case
    unfolding fold_res.simps by (rule res_ok_bindI) (rule Cons.IH, use Cons.prems in auto)
qed simp

lemma read_at_ok [simp]: "i < length xs \<Longrightarrow> read_at xs i = Inr (xs ! i)"
  by (simp add: read_at_def)

lemma read_range_ok [simp]: "i + n \<le> length xs \<Longrightarrow> read_range xs i n = Inr (take n (drop i xs))"
  by (simp add: read_range_def)

lemma read_range_eq_Inr:
  "read_range xs i n = Inr ys \<longleftrightarrow> i + n \<le> length xs \<and> ys = take n (drop i xs)"
  by (auto simp: read_range_def)

lemma memcpy_at_length: "memcpy_at i src des = Inr des' \<Longrightarrow> length des' = length des"
  by (auto simp: memcpy_at_def split: if_splits)

lemma write_all_Nil [simp]: "write_all [] des = Inr des"
  by (simp add: write_all_def)

lemma write_all_Cons [simp]:
  "write_all ((i, src) # ws) des = bind_res (memcpy_at i src des) (write_all ws)"
  by (cases "memcpy_at i src des") (simp_all add: write_all_def)

lemma write_all_length: "write_all ws des = Inr des' \<Longrightarrow> length des' = length des"
  unfolding write_all_def
  by (rule fold_res_invariant [where I = "\<lambda>d. length d = length des"])
     (auto dest: memcpy_at_length)

lemma write_all_total:
  assumes "\<And>i src. (i, src) \<in> set ws \<Longrightarrow> i + length src \<le> length des"
  shows "\<exists>des'. write_all ws des = Inr des' \<and> length des' = length des"
  unfolding write_all_def
  by (rule fold_res_total [where I = "\<lambda>d. length d = length des"])
     (use assms in \<open>force simp: memcpy_at_def\<close>)+

lemma write_all_fault: "write_all ws des = Inl e \<Longrightarrow> e = BufferOverflow"
proof (induction ws arbitrary: des)
  case (Cons w ws)
  then show ?case by (cases w) (auto simp: memcpy_at_def split: if_splits)
qed simp

lemma write_all_overflow:
  assumes "(i, src) \<in> set ws" and "length des < i + length src"
  shows "write_all ws des = Inl BufferOverflow"
proof (rule ccontr)
  assume "\<not> ?thesis"
  then obtain d where "write_all ws des = Inr d"
    by (cases "write_all ws des") (auto dest: write_all_fault)
  with assms show False
  proof (induction ws arbitrary: des)
    case (Cons w ws)
    obtain j s where w: "w = (j, s)" by (cases w)
    with Cons.prems(3) obtain des1 where d1: "memcpy_at j s des = Inr des1"
      and rest: "write_all ws des1 = Inr d" by auto
    from d1 have len: "length des1 = length des" by (rule memcpy_at_length)
    show False
    proof (cases "(i, src) = w")
      case True
      with w d1 Cons.prems(2) show False by (auto simp: memcpy_at_def)
    next
      case False
      with Cons.prems(1) have "(i, src) \<in> set ws" by auto
      with Cons.IH [OF _ _ rest] len Cons.prems(2) show False by simp
    qed
  qed simp
qed

subsection \<open>Integers\<close>

lemma c_int_id [simp]: "int_fits x \<Longrightarrow> c_int x = x"
  unfolding c_int_def int_fits_def
  by (simp add: sint_sbintrunc' signed_take_bit_int_eq_self)

lemma c_size_nonneg [simp]: "0 \<le> x \<Longrightarrow> x < 2 ^ 64 \<Longrightarrow> c_size x = nat x"
  by (simp add: c_size_def)

lemma c_size_neg: "- (2 ^ 31) \<le> x \<Longrightarrow> x < 0 \<Longrightarrow> 2 ^ 63 < c_size x"
proof -
  assume a: "- (2 ^ 31) \<le> x" "x < 0"
  then have "x mod 2 ^ 64 = x + 2 ^ 64"
    by (intro int_mod_pos_eq [where q = "-1"]) auto
  with a show ?thesis by (simp add: c_size_def nat_less_iff zless_nat_eq_int_zless)
qed

subsection \<open>Big-endian coding\<close>

lemma length_be_bytes [simp, endian_simps]: "length (be_bytes k n) = k"
  by (induction k arbitrary: n) auto

lemma be_nat_append [endian_simps]: "be_nat (xs @ [b]) = be_nat xs * 256 + unat b"
  by (simp add: be_nat_def)

lemma be_nat_be_bytes [endian_simps]: "be_nat (be_bytes k n) = n mod 256 ^ k"
proof (induction k arbitrary: n)
  case (Suc k)
  have "unat (of_nat (n mod 256) :: byte) = n mod 256"
    by (simp add: unat_of_nat)
  with Suc show ?case
    by (simp add: be_nat_append mod_mult2_eq [of n 256 "256 ^ k"] ac_simps)
qed (simp add: be_nat_def)

lemma be_nat_bound: "be_nat bs < 256 ^ length bs"
proof (induction bs rule: rev_induct)
  case (snoc b bs)
  have "unat b < 256" using unsigned_less [of b] by simp
  moreover from snoc have "be_nat bs * 256 + 256 \<le> 256 ^ length bs * 256"
    using mult_le_mono1 [of "Suc (be_nat bs)" "256 ^ length bs" 256] by simp
  ultimately show ?case by (simp add: be_nat_append)
qed (simp add: be_nat_def)

lemma be_bytes_be_nat [endian_simps]: "be_bytes (length bs) (be_nat bs) = bs"
proof (induction bs rule: rev_induct)
  case (snoc b bs)
  have "unat b < 256" using unsigned_less [of b] by simp
  then have "(be_nat bs * 256 + unat b) div 256 = be_nat bs"
    and "(be_nat bs * 256 + unat b) mod 256 = unat b"
    by simp_all
  with snoc show ?case by (simp add: be_nat_append)
qed simp

subsection \<open>Association lists with distinct keys\<close>

lemma map_of_delete_distinct [alist_simps]:
  "map_of (AList.delete k xs) k' = (if k' = k then None else map_of xs k')"
  by (simp add: AList.delete_conv)

lemma map_of_update_distinct [alist_simps]:
  "map_of (AList.update k v xs) k' = (if k' = k then Some v else map_of xs k')"
  by (simp add: AList.update_conv)

lemma length_delete_distinct:
  "distinct (map fst xs) \<Longrightarrow> k \<in> fst ` set xs \<Longrightarrow> Suc (length (AList.delete k xs)) = length xs"
proof (induction xs)
  case (Cons x xs)
  show ?case
  proof (cases "fst x = k")
    case True
    with Cons.prems(1) have "k \<notin> fst ` set xs" by auto
    then have "AList.delete k xs = xs" by (rule AList.delete_id)
    with True show ?thesis by (cases x) (simp add: AList.delete_eq)
  next
    case False
    with Cons have "Suc (length (AList.delete k xs)) = length xs" by auto
    with False show ?thesis by (cases x) (simp add: AList.delete_eq)
  qed
qed simp

end
