(* ===== verification/Evbuffer.thy ===== *)
theory Evbuffer
  imports Comet_Prelude
begin

text \<open>
  The event buffer of the bundled libevent (\<open>deps/libevent-2.0.21-stable/buffer.c\<close>), which
  carries every byte the server reads and writes. An \<open>evbuffer\<close> is a linked list of chains;
  the model keeps the list, the index that \<open>last_with_datap\<close> designates, \<open>total_len\<close> and the
  two freeze flags. A chain keeps its capacity, its \<open>misalign\<close> and the window of bytes
  \<open>[misalign, misalign + off)\<close>; no operation reads a chain outside that window.
  \<open>mm_malloc\<close> of the buffer says for which sizes the allocator answers.

  Pinned, immutable, mmapped and reference chains (made only by the Windows IOCP backend and
  by \<open>evbuffer_add_file\<close>/\<open>evbuffer_add_reference\<close>, which the server never calls), locks and
  the change callbacks are left out. Sizes are naturals below \<open>2^64\<close>.
\<close>

named_theorems evbuffer_simps \<open>evbuffer operations on well-formed buffers\<close>

section \<open>Chains\<close>

record chain =
  buffer_len :: nat
  misalign :: nat
  ch_data :: bytes

abbreviation off :: "chain \<Rightarrow> nat" where
  "off c \<equiv> length (ch_data c)"

abbreviation has_data :: "chain \<Rightarrow> bool" where
  "has_data c \<equiv> ch_data c \<noteq> []"

record evbuffer =
  chains :: "chain list"
  last_with_datap :: nat
  total_len :: nat
  freeze_start :: bool
  freeze_end :: bool
  mm_malloc :: "nat \<Rightarrow> bool"

definition EVBUFFER_CHAIN_SIZE :: nat where
  "EVBUFFER_CHAIN_SIZE = 48"

definition MIN_BUFFER_SIZE :: nat where
  "MIN_BUFFER_SIZE = 1024"

definition EVBUFFER_CHAIN_MAX_AUTO_SIZE :: nat where
  "EVBUFFER_CHAIN_MAX_AUTO_SIZE = 4096"

definition MAX_TO_REALIGN_IN_EXPAND :: nat where
  "MAX_TO_REALIGN_IN_EXPAND = 2048"

text \<open>The loop \<open>while (to_alloc < size) to_alloc <<= 1\<close>; it is entered with a positive value.\<close>

function alloc_size :: "nat \<Rightarrow> nat \<Rightarrow> nat" where
  "alloc_size sz to_alloc =
     (if to_alloc < sz \<and> 0 < to_alloc then alloc_size sz (2 * to_alloc) else to_alloc)"
  by pat_completeness auto
termination
  by (relation "measure (\<lambda>(sz, to_alloc). sz - to_alloc)") auto

declare alloc_size.simps [simp del]

definition evbuffer_chain_new :: "(nat \<Rightarrow> bool) \<Rightarrow> nat \<Rightarrow> chain option" where
  "evbuffer_chain_new mm sz =
     (let to_alloc = alloc_size (sz + EVBUFFER_CHAIN_SIZE) MIN_BUFFER_SIZE
      in if mm to_alloc
         then Some \<lparr>buffer_len = to_alloc - EVBUFFER_CHAIN_SIZE, misalign = 0, ch_data = []\<rparr>
         else None)"

definition evbuffer_new :: "(nat \<Rightarrow> bool) \<Rightarrow> evbuffer" where
  "evbuffer_new mm =
     \<lparr>chains = [], last_with_datap = 0, total_len = 0,
      freeze_start = False, freeze_end = False, mm_malloc = mm\<rparr>"

definition evbuffer_freeze :: "bool \<Rightarrow> evbuffer \<Rightarrow> evbuffer" where
  "evbuffer_freeze start b =
     (if start then b\<lparr>freeze_start := True\<rparr> else b\<lparr>freeze_end := True\<rparr>)"

definition evbuffer_get_length :: "evbuffer \<Rightarrow> nat" where
  "evbuffer_get_length b = total_len b"

text \<open>Index of the first chain, from \<open>last_with_datap\<close> on, that holds no data.\<close>

definition first_victim :: "evbuffer \<Rightarrow> nat" where
  "first_victim b =
     last_with_datap b + length (takeWhile has_data (drop (last_with_datap b) (chains b)))"

definition evbuffer_chains_all_empty :: "chain list \<Rightarrow> bool" where
  "evbuffer_chains_all_empty cs = list_all (\<lambda>c. off c = 0) cs"

definition evbuffer_free_trailing_empty_chains :: "evbuffer \<Rightarrow> evbuffer res" where
  "evbuffer_free_trailing_empty_chains b =
     (if first_victim b < length (chains b)
      then if evbuffer_chains_all_empty (drop (first_victim b) (chains b))
           then Inr (b\<lparr>chains := take (first_victim b) (chains b)\<rparr>)
           else Inl AssertFailed
      else Inr b)"

definition evbuffer_chain_insert :: "chain \<Rightarrow> evbuffer \<Rightarrow> evbuffer res" where
  "evbuffer_chain_insert c b =
     (if length (chains b) \<le> last_with_datap b
      then if last_with_datap b = 0 \<and> chains b = []
           then Inr (b\<lparr>chains := [c], total_len := total_len b + off c\<rparr>)
           else Inl AssertFailed
      else if length (chains b) \<le> first_victim b
           then Inr (b\<lparr>chains := chains b @ [c],
                       last_with_datap := (if has_data c then length (chains b)
                                           else last_with_datap b),
                       total_len := total_len b + off c\<rparr>)
           else if evbuffer_chains_all_empty (drop (first_victim b) (chains b))
                then Inr (b\<lparr>chains := take (first_victim b) (chains b) @ [c],
                            total_len := total_len b + off c\<rparr>)
                else Inl AssertFailed)"

definition advance_last_with_data :: "evbuffer \<Rightarrow> evbuffer" where
  "advance_last_with_data b =
     (if last_with_datap b < length (chains b)
      then b\<lparr>last_with_datap := last_with_datap b
               + length (takeWhile has_data (drop (Suc (last_with_datap b)) (chains b)))\<rparr>
      else b)"

definition evbuffer_chain_align :: "chain \<Rightarrow> chain" where
  "evbuffer_chain_align c = c\<lparr>misalign := 0\<rparr>"

definition evbuffer_chain_should_realign :: "chain \<Rightarrow> nat \<Rightarrow> bool" where
  "evbuffer_chain_should_realign c datlen \<longleftrightarrow>
     datlen \<le> buffer_len c - off c \<and> off c < buffer_len c div 2
     \<and> off c \<le> MAX_TO_REALIGN_IN_EXPAND"

section \<open>Operations\<close>

text \<open>Writing into the last chain, as both fast paths of \<open>evbuffer_add\<close> do.\<close>

definition append_last :: "bytes \<Rightarrow> chain \<Rightarrow> evbuffer \<Rightarrow> evbuffer" where
  "append_last d c b =
     b\<lparr>chains := butlast (chains b) @ [c\<lparr>ch_data := ch_data c @ d\<rparr>],
       total_len := total_len b + length d\<rparr>"

text \<open>The part of \<open>evbuffer_add\<close> that runs once a last chain exists. The first component is
  true for the return value 0 and false for -1.\<close>

definition evbuffer_add_last :: "bytes \<Rightarrow> evbuffer \<Rightarrow> (bool \<times> evbuffer) res" where
  "evbuffer_add_last d b =
     (let c = last (chains b);
          datlen = length d;
          remain = buffer_len c - misalign c - off c
      in if datlen \<le> remain then Inr (True, append_last d c b)
         else if evbuffer_chain_should_realign c datlen
         then Inr (True, append_last d (evbuffer_chain_align c) b)
         else let doubled = (if buffer_len c \<le> EVBUFFER_CHAIN_MAX_AUTO_SIZE div 2
                             then 2 * buffer_len c else buffer_len c);
                  to_alloc = max doubled datlen
              in case evbuffer_chain_new (mm_malloc b) to_alloc of
                   None \<Rightarrow> Inr (False, b)
                 | Some tmp \<Rightarrow>
                     bind_res
                       (evbuffer_chain_insert (tmp\<lparr>ch_data := drop remain d\<rparr>)
                          (if 0 < remain then append_last (take remain d) c b else b))
                       (\<lambda>b'. Inr (True, b')))"

definition evbuffer_add :: "bytes \<Rightarrow> evbuffer \<Rightarrow> (bool \<times> evbuffer) res" where
  "evbuffer_add d b =
     (if freeze_end b then Inr (False, b)
      else if chains b = [] then
        (case evbuffer_chain_new (mm_malloc b) (length d) of
           None \<Rightarrow> Inr (False, b)
         | Some c \<Rightarrow> bind_res (evbuffer_chain_insert c b) (evbuffer_add_last d))
      else evbuffer_add_last d b)"

text \<open>The loop of \<open>evbuffer_drain\<close> over chains that are used up. Each freed chain moves
  \<open>last_with_datap\<close> one chain forward, except that it never moves past the first one.\<close>

fun drain_chains :: "nat \<Rightarrow> chain list \<Rightarrow> nat \<Rightarrow> (chain list \<times> nat) res" where
  "drain_chains remaining [] l = Inl NullDeref"
| "drain_chains remaining (c # cs) l =
     (if off c \<le> remaining then drain_chains (remaining - off c) cs (l - 1)
      else Inr (c\<lparr>misalign := misalign c + remaining,
                  ch_data := drop remaining (ch_data c)\<rparr> # cs, l))"

definition evbuffer_drain :: "nat \<Rightarrow> evbuffer \<Rightarrow> (bool \<times> evbuffer) res" where
  "evbuffer_drain len b =
     (if total_len b = 0 then Inr (True, b)
      else if freeze_start b then Inr (False, b)
      else if total_len b \<le> len
      then Inr (True, b\<lparr>chains := [], last_with_datap := 0, total_len := 0\<rparr>)
      else bind_res (drain_chains len (chains b) (last_with_datap b))
             (\<lambda>(cs, l). Inr (True, b\<lparr>chains := cs, last_with_datap := l,
                                     total_len := total_len b - len\<rparr>)))"

text \<open>The copy loop of \<open>evbuffer_copyout\<close>.\<close>

fun copy_chains :: "nat \<Rightarrow> chain list \<Rightarrow> bytes res" where
  "copy_chains datlen [] = (if datlen = 0 then Inr [] else Inl NullDeref)"
| "copy_chains datlen (c # cs) =
     (if datlen = 0 then Inr []
      else if off c \<le> datlen
      then bind_res (copy_chains (datlen - off c) cs) (\<lambda>d. Inr (ch_data c @ d))
      else Inr (take datlen (ch_data c)))"

text \<open>\<open>None\<close> is the return value -1; otherwise the bytes copied out, whose number is returned.\<close>

definition evbuffer_copyout :: "nat \<Rightarrow> evbuffer \<Rightarrow> bytes option res" where
  "evbuffer_copyout datlen b =
     (let n = min datlen (total_len b)
      in if n = 0 then Inr (Some [])
         else if freeze_start b then Inr None
         else bind_res (copy_chains n (chains b)) (\<lambda>d. Inr (Some d)))"

definition evbuffer_remove :: "nat \<Rightarrow> evbuffer \<Rightarrow> (bytes option \<times> evbuffer) res" where
  "evbuffer_remove datlen b =
     bind_res (evbuffer_copyout datlen b) (\<lambda>r.
       case r of
         None \<Rightarrow> Inr (None, b)
       | Some d \<Rightarrow>
           if 0 < length d
           then bind_res (evbuffer_drain (length d) b)
                  (\<lambda>(ok, b'). Inr (if ok then Some d else None, b'))
           else Inr (Some d, b))"

text \<open>The loop of \<open>evbuffer_pullup\<close> that copies whole chains into the target and frees them,
  then takes the rest from the next one: the bytes copied, the chains left, the number freed.\<close>

fun pull_chains :: "nat \<Rightarrow> chain list \<Rightarrow> bytes \<times> chain list \<times> nat" where
  "pull_chains sz [] = ([], [], 0)"
| "pull_chains sz (c # cs) =
     (if off c \<le> sz
      then (case pull_chains (sz - off c) cs of
              (d, cs', k) \<Rightarrow> (ch_data c @ d, cs', Suc k))
      else (take sz (ch_data c),
            c\<lparr>misalign := misalign c + sz, ch_data := drop sz (ch_data c)\<rparr> # cs, 0))"

text \<open>Where \<open>last_with_datap\<close> points after \<open>k\<close> chains from index \<open>base\<close> on were freed and
  replaced by the pulled-up chain at index 0.\<close>

definition pullup_last :: "nat \<Rightarrow> nat \<Rightarrow> nat \<Rightarrow> chain list \<Rightarrow> nat" where
  "pullup_last base k l cs =
     (let removed_last_with_data = (base \<le> l \<and> l < base + k);
          removed_last_with_datap = (1 \<le> l \<and> base \<le> l - 1 \<and> l - 1 < base + k)
      in if l = 0 \<or> removed_last_with_data then 0
         else if removed_last_with_datap
              then (if 1 < length cs \<and> has_data (cs ! 1) then 1 else 0)
         else Suc (l - (base + k)))"

text \<open>\<open>evbuffer_pullup\<close> returns a pointer to the bytes of the first chain; \<open>None\<close> is NULL.\<close>

definition evbuffer_pullup :: "int \<Rightarrow> evbuffer \<Rightarrow> (bytes option \<times> evbuffer) res" where
  "evbuffer_pullup sz b =
     (let size = (if sz < 0 then total_len b else nat sz)
      in if size = 0 \<or> total_len b < size then Inr (None, b)
         else case chains b of
           [] \<Rightarrow> Inl NullDeref
         | c # cs \<Rightarrow>
             if size \<le> off c then Inr (Some (ch_data c), b)
             else if size \<le> buffer_len c - misalign c
             then (case pull_chains (size - off c) cs of
                     (d, rest, k) \<Rightarrow>
                       let tmp = c\<lparr>ch_data := ch_data c @ d\<rparr>
                       in Inr (Some (ch_data tmp),
                               b\<lparr>chains := tmp # rest,
                                 last_with_datap :=
                                   pullup_last 1 k (last_with_datap b) (tmp # rest)\<rparr>))
             else (case evbuffer_chain_new (mm_malloc b) size of
                     None \<Rightarrow> Inr (None, b)
                   | Some new \<Rightarrow>
                       (case pull_chains size (c # cs) of
                          (d, rest, k) \<Rightarrow>
                            let tmp = new\<lparr>ch_data := d\<rparr>
                            in Inr (Some (ch_data tmp),
                                    b\<lparr>chains := tmp # rest,
                                      last_with_datap :=
                                        pullup_last 0 k (last_with_datap b) (tmp # rest)\<rparr>))))"

text \<open>\<open>evbuffer_add_buffer outbuf inbuf\<close> without pinned chains: \<open>COPY_CHAIN\<close> into an empty
  buffer, \<open>APPEND_CHAIN\<close> behind a non-empty one, \<open>ZERO_CHAIN\<close> of the source.\<close>

definition APPEND_CHAIN :: "evbuffer \<Rightarrow> evbuffer \<Rightarrow> evbuffer" where
  "APPEND_CHAIN dst src =
     dst\<lparr>chains := chains dst @ chains src,
         last_with_datap := length (chains dst) + last_with_datap src,
         total_len := total_len dst + total_len src\<rparr>"

definition COPY_CHAIN :: "evbuffer \<Rightarrow> evbuffer \<Rightarrow> evbuffer" where
  "COPY_CHAIN dst src =
     dst\<lparr>chains := chains src, last_with_datap := last_with_datap src,
         total_len := total_len src\<rparr>"

definition ZERO_CHAIN :: "evbuffer \<Rightarrow> evbuffer" where
  "ZERO_CHAIN b = b\<lparr>chains := [], last_with_datap := 0, total_len := 0\<rparr>"

definition evbuffer_add_buffer :: "evbuffer \<Rightarrow> evbuffer \<Rightarrow> bool \<times> evbuffer \<times> evbuffer" where
  "evbuffer_add_buffer outbuf inbuf =
     (if total_len inbuf = 0 then (True, outbuf, inbuf)
      else if freeze_end outbuf \<or> freeze_start inbuf then (False, outbuf, inbuf)
      else (True,
            if total_len outbuf = 0 then COPY_CHAIN outbuf inbuf else APPEND_CHAIN outbuf inbuf,
            ZERO_CHAIN inbuf))"

text \<open>The loop of \<open>evbuffer_remove_buffer\<close> that splits off the chains to be moved whole. Index
  \<open>i\<close> is the position of the current chain; moving the chain \<open>last_with_datap\<close> designates is
  ruled out by the assertion.\<close>

fun split_chains :: "nat \<Rightarrow> nat \<Rightarrow> nat \<Rightarrow> chain list \<Rightarrow> (chain list \<times> chain list \<times> nat) res" where
  "split_chains l i datlen [] = Inl NullDeref"
| "split_chains l i datlen (c # cs) =
     (if off c \<le> datlen
      then if i = l then Inl AssertFailed
           else bind_res (split_chains l (Suc i) (datlen - off c) cs)
                  (\<lambda>(moved, rest, left). Inr (c # moved, rest, left))
      else Inr ([], c # cs, datlen))"

definition evbuffer_remove_buffer ::
  "nat \<Rightarrow> evbuffer \<Rightarrow> evbuffer \<Rightarrow> (int \<times> evbuffer \<times> evbuffer) res" where
  "evbuffer_remove_buffer datlen src dst =
     (if datlen = 0 then Inr (0, src, dst)
      else if freeze_end dst \<or> freeze_start src then Inr (-1, src, dst)
      else if total_len src \<le> datlen
      then (case evbuffer_add_buffer dst src of
              (_, dst', src') \<Rightarrow> Inr (int (total_len src), src', dst'))
      else
        bind_res (split_chains (last_with_datap src) 0 datlen (chains src)) (\<lambda>(moved, rest, left).
        let nread = sum_list (map off moved);
            l = last_with_datap src;
            l' = (if 1 \<le> l \<and> l \<le> length moved then 0 else l)
        in bind_res
             (if nread = 0 then Inr dst
              else bind_res (evbuffer_free_trailing_empty_chains dst) (\<lambda>dst'.
                Inr (advance_last_with_data
                       (dst'\<lparr>chains := chains dst' @ moved,
                             total_len := total_len dst' + nread\<rparr>))))
             (\<lambda>dst'.
           bind_res (evbuffer_add (take left (ch_data (hd rest))) dst') (\<lambda>(_, dst'').
           let c = hd rest;
               c' = c\<lparr>misalign := misalign c + left, ch_data := drop left (ch_data c)\<rparr>
           in Inr (int (nread + left),
                   src\<lparr>chains := (if nread = 0 then moved else []) @ c' # tl rest,
                       last_with_datap := (if nread = 0 then l' else l - length moved),
                       total_len := total_len src - (nread + left)\<rparr>,
                   dst'')))))"

section \<open>Abstraction and invariants\<close>

text \<open>The contents of a buffer.\<close>

definition ev_bytes :: "evbuffer \<Rightarrow> bytes" where
  "ev_bytes b = concat (map ch_data (chains b))"

definition chain_wf :: "chain \<Rightarrow> bool" where
  "chain_wf c \<longleftrightarrow> misalign c + off c \<le> buffer_len c \<and> 0 < buffer_len c"

text \<open>Every chain holds data, but for a buffer of a single chain, which may be empty;
  \<open>last_with_datap\<close> designates the last chain, \<open>total_len\<close> counts the bytes, and every window
  lies inside its chain. A buffer that is written with \<open>evbuffer_add\<close> and
  \<open>evbuffer_remove_buffer\<close> and read with the operations above stays of this form. (Only
  \<open>evbuffer_read\<close> and \<open>evbuffer_reserve_space\<close>, which preallocate, leave empty chains at the
  end.)\<close>

definition evbuffer_wf :: "evbuffer \<Rightarrow> bool" where
  "evbuffer_wf b \<longleftrightarrow>
     ((\<forall>c \<in> set (chains b). has_data c) \<or> length (chains b) = 1)
     \<and> last_with_datap b = length (chains b) - 1
     \<and> total_len b = length (ev_bytes b)
     \<and> (\<forall>c \<in> set (chains b). chain_wf c)"

text \<open>The fields that no data operation changes.\<close>

definition ev_frame :: "evbuffer \<Rightarrow> bool \<times> bool \<times> (nat \<Rightarrow> bool)" where
  "ev_frame b = (freeze_start b, freeze_end b, mm_malloc b)"

section \<open>Chain lemmas\<close>

lemma alloc_size_ge: "0 < a \<Longrightarrow> sz \<le> alloc_size sz a"
proof (induction sz a rule: alloc_size.induct)
  case (1 sz a)
  then show ?case by (cases "a < sz") (simp_all add: alloc_size.simps [of sz a])
qed

lemma alloc_size_start: "a \<le> alloc_size sz a"
proof (induction sz a rule: alloc_size.induct)
  case (1 sz a)
  then show ?case by (cases "a < sz \<and> 0 < a") (auto simp: alloc_size.simps [of sz a])
qed

lemma evbuffer_chain_new_Some:
  assumes "evbuffer_chain_new mm sz = Some c"
  shows "sz \<le> buffer_len c" and "misalign c = 0" and "ch_data c = []" and "0 < buffer_len c"
proof -
  have "sz + EVBUFFER_CHAIN_SIZE \<le> alloc_size (sz + EVBUFFER_CHAIN_SIZE) MIN_BUFFER_SIZE"
    by (rule alloc_size_ge) (simp add: MIN_BUFFER_SIZE_def)
  moreover have "MIN_BUFFER_SIZE \<le> alloc_size (sz + EVBUFFER_CHAIN_SIZE) MIN_BUFFER_SIZE"
    by (rule alloc_size_start)
  ultimately show "sz \<le> buffer_len c" and "misalign c = 0" and "ch_data c = []" and "0 < buffer_len c"
    using assms by (auto simp: evbuffer_chain_new_def MIN_BUFFER_SIZE_def EVBUFFER_CHAIN_SIZE_def Let_def split: if_splits)
qed

lemma evbuffer_chain_new_ok: "\<forall>n. mm n \<Longrightarrow> \<exists>c. evbuffer_chain_new mm sz = Some c"
  by (simp add: evbuffer_chain_new_def Let_def)

lemma drain_chains_ok:
  assumes "n < length (concat (map ch_data cs))" and "\<forall>c \<in> set cs. chain_wf c"
  shows "\<exists>cs' l'. drain_chains n cs l = Inr (cs', l') \<and> cs' \<noteq> [] \<and> length cs' \<le> length cs
     \<and> l' = l - (length cs - length cs')
     \<and> concat (map ch_data cs') = drop n (concat (map ch_data cs))
     \<and> (\<forall>c \<in> set cs'. chain_wf c)
     \<and> ((\<forall>c \<in> set cs. has_data c) \<or> length cs = 1 \<longrightarrow> (\<forall>c \<in> set cs'. has_data c))"
  using assms
proof (induction cs arbitrary: n l)
  case (Cons c cs)
  show ?case
  proof (cases "off c \<le> n")
    case True
    with Cons.prems have lt: "n - off c < length (concat (map ch_data cs))" by auto
    have wf: "\<forall>c \<in> set cs. chain_wf c" using Cons.prems(2) by simp
    from Cons.IH [OF lt wf, of "l - 1"] obtain cs' l'
      where ih: "drain_chains (n - off c) cs (l - 1) = Inr (cs', l')" "cs' \<noteq> []"
        "length cs' \<le> length cs" "l' = l - 1 - (length cs - length cs')"
        "concat (map ch_data cs') = drop (n - off c) (concat (map ch_data cs))"
        "\<forall>c \<in> set cs'. chain_wf c"
        "(\<forall>c \<in> set cs. has_data c) \<or> length cs = 1 \<longrightarrow> (\<forall>c \<in> set cs'. has_data c)"
      by blast
    moreover from ih(2,3) have "cs \<noteq> []" by auto
    ultimately show ?thesis using True by auto
  next
    case False
    then show ?thesis using Cons.prems by (auto simp: chain_wf_def)
  qed
qed simp

lemma copy_chains_ok:
  "n \<le> length (concat (map ch_data cs)) \<Longrightarrow>
     copy_chains n cs = Inr (take n (concat (map ch_data cs)))"
  by (induction cs arbitrary: n) auto

lemma pull_chains_ok:
  assumes "n \<le> length (concat (map ch_data cs))"
    and "\<forall>c \<in> set cs. has_data c" and "\<forall>c \<in> set cs. chain_wf c"
  shows "\<exists>cs'. pull_chains n cs
       = (take n (concat (map ch_data cs)), cs', length cs - length cs')
     \<and> length cs' \<le> length cs \<and> concat (map ch_data cs') = drop n (concat (map ch_data cs))
     \<and> (\<forall>c \<in> set cs'. has_data c) \<and> (\<forall>c \<in> set cs'. chain_wf c)"
  using assms
proof (induction cs arbitrary: n)
  case (Cons c cs)
  show ?case
  proof (cases "off c \<le> n")
    case True
    with Cons.prems have "n - off c \<le> length (concat (map ch_data cs))" by auto
    from Cons.IH [OF this] Cons.prems(2,3) obtain cs'
      where ih: "pull_chains (n - off c) cs
          = (take (n - off c) (concat (map ch_data cs)), cs', length cs - length cs')"
        "length cs' \<le> length cs"
        "concat (map ch_data cs') = drop (n - off c) (concat (map ch_data cs))"
        "\<forall>c \<in> set cs'. has_data c" "\<forall>c \<in> set cs'. chain_wf c"
      by auto
    with True show ?thesis by (auto simp: Suc_diff_le)
  next
    case False
    then show ?thesis using Cons.prems by (auto simp: chain_wf_def)
  qed
qed simp

section \<open>The operations implement a byte queue\<close>

lemma evbuffer_wfD:
  assumes "evbuffer_wf b"
  shows "total_len b = length (ev_bytes b)" and "last_with_datap b = length (chains b) - 1"
    and "\<forall>c \<in> set (chains b). chain_wf c"
    and "(\<forall>c \<in> set (chains b). has_data c) \<or> length (chains b) = 1"
  using assms by (auto simp: evbuffer_wf_def)

lemma evbuffer_new_wf: "evbuffer_wf (evbuffer_new mm)" "ev_bytes (evbuffer_new mm) = []"
  by (simp_all add: evbuffer_wf_def evbuffer_new_def ev_bytes_def)

lemma evbuffer_get_length_ok: "evbuffer_wf b \<Longrightarrow> evbuffer_get_length b = length (ev_bytes b)"
  by (simp add: evbuffer_get_length_def evbuffer_wf_def)

lemma evbuffer_drain_ok:
  assumes wf: "evbuffer_wf b" and fr: "\<not> freeze_start b"
  shows "\<exists>b'. evbuffer_drain n b = Inr (True, b') \<and> evbuffer_wf b'
     \<and> ev_bytes b' = drop n (ev_bytes b) \<and> ev_frame b' = ev_frame b"
proof (cases "total_len b \<le> n")
  case True
  then show ?thesis
    using wf fr by (auto simp: evbuffer_drain_def evbuffer_wf_def ev_bytes_def ev_frame_def)
next
  case False
  with wf have n: "n < length (concat (map ch_data (chains b)))"
    by (simp add: evbuffer_wf_def ev_bytes_def)
  from drain_chains_ok [OF n evbuffer_wfD(3) [OF wf], of "last_with_datap b"] evbuffer_wfD(4) [OF wf]
  obtain cs' where "drain_chains n (chains b) (last_with_datap b)
        = Inr (cs', last_with_datap b - (length (chains b) - length cs'))"
      and "cs' \<noteq> []" "length cs' \<le> length (chains b)"
      and "concat (map ch_data cs') = drop n (concat (map ch_data (chains b)))"
      and "\<forall>c \<in> set cs'. chain_wf c" and "\<forall>c \<in> set cs'. has_data c"
    by blast
  moreover from n have "\<exists>c \<in> set (chains b). has_data c"
    by (cases "concat (map ch_data (chains b)) = []") auto
  ultimately show ?thesis using n fr evbuffer_wfD(1,2) [OF wf]
    by (auto simp: evbuffer_drain_def evbuffer_wf_def ev_bytes_def ev_frame_def)
qed

lemma evbuffer_copyout_ok:
  assumes "evbuffer_wf b" and "\<not> freeze_start b"
  shows "evbuffer_copyout n b = Inr (Some (take n (ev_bytes b)))"
proof (cases "min n (total_len b) = 0")
  case True
  then show ?thesis using assms
    by (cases "n = 0") (auto simp: evbuffer_copyout_def evbuffer_wf_def min_def split: if_splits)
next
  case False
  have "copy_chains (min n (total_len b)) (chains b)
      = Inr (take (min n (total_len b)) (concat (map ch_data (chains b))))"
    by (rule copy_chains_ok) (use assms(1) in \<open>simp add: evbuffer_wf_def ev_bytes_def\<close>)
  with False assms show ?thesis
    by (auto simp: evbuffer_copyout_def evbuffer_wf_def ev_bytes_def min_def)
qed

lemma evbuffer_remove_ok:
  assumes "evbuffer_wf b" and "\<not> freeze_start b"
  shows "\<exists>b'. evbuffer_remove n b = Inr (Some (take n (ev_bytes b)), b') \<and> evbuffer_wf b'
     \<and> ev_bytes b' = drop n (ev_bytes b) \<and> ev_frame b' = ev_frame b"
proof (cases "take n (ev_bytes b) = []")
  case True
  then have "n = 0 \<or> ev_bytes b = []" by simp
  with True assms show ?thesis by (auto simp: evbuffer_remove_def evbuffer_copyout_ok)
next
  case False
  from evbuffer_drain_ok [OF assms, of "length (take n (ev_bytes b))"] obtain b'
    where "evbuffer_drain (length (take n (ev_bytes b))) b = Inr (True, b')"
      and "evbuffer_wf b'" "ev_bytes b' = drop (length (take n (ev_bytes b))) (ev_bytes b)"
      and "ev_frame b' = ev_frame b" by blast
  with False assms show ?thesis
    by (auto simp: evbuffer_remove_def evbuffer_copyout_ok min_def split: if_splits)
qed

lemma evbuffer_pullup_short:
  "evbuffer_wf b \<Longrightarrow> int (length (ev_bytes b)) < sz \<Longrightarrow> evbuffer_pullup sz b = Inr (None, b)"
  by (auto simp: evbuffer_pullup_def evbuffer_wf_def Let_def)

lemma evbuffer_pullup_neg:
  "sz < 0 \<Longrightarrow> evbuffer_pullup sz b = evbuffer_pullup (int (total_len b)) b"
  by (simp add: evbuffer_pullup_def)

lemma pullup_last_eq:
  assumes "l + 1 = base + k + length rest" and "base \<le> 1" and "1 \<le> base + k"
    and "\<forall>c \<in> set rest. has_data c"
  shows "pullup_last base k l (tmp # rest) = length rest"
proof -
  consider "rest = []" | r where "rest = [r]" | r r' rs where "rest = r # r' # rs"
    by (metis neq_Nil_conv)
  then show ?thesis
  proof cases
    case 1
    with assms have "l = 0 \<or> base \<le> l \<and> l < base + k" by auto
    with 1 show ?thesis by (auto simp: pullup_last_def)
  next
    case 2
    with assms have l: "l = base + k" and "l \<noteq> 0" by auto
    show ?thesis
    proof (cases k)
      case 0
      with l assms 2 show ?thesis by (simp add: pullup_last_def)
    next
      case (Suc j)
      with l assms 2 show ?thesis by (simp add: pullup_last_def)
    qed
  next
    case 3
    with assms have "base + k \<le> l - 1" "base + k < l" "l \<noteq> 0" "l - (base + k) = Suc (length rs)" by auto
    with 3 show ?thesis by (simp add: pullup_last_def)
  qed
qed

lemma evbuffer_pullup_ok:
  assumes wf: "evbuffer_wf b" and mm: "\<forall>k. mm_malloc b k"
    and n: "0 < n" "n \<le> length (ev_bytes b)"
  shows "\<exists>p b'. evbuffer_pullup (int n) b = Inr (Some p, b') \<and> evbuffer_wf b'
     \<and> ev_bytes b' = ev_bytes b \<and> ev_frame b' = ev_frame b
     \<and> n \<le> length p \<and> p = take (length p) (ev_bytes b)"
proof -
  from n obtain c cs where cs: "chains b = c # cs" by (cases "chains b") (auto simp: ev_bytes_def)
  let ?rest = "concat (map ch_data cs)"
  have bytes: "ev_bytes b = ch_data c @ ?rest" by (simp add: cs ev_bytes_def)
  have tot: "total_len b = length (ev_bytes b)" by (rule evbuffer_wfD(1) [OF wf])
  show ?thesis
  proof (cases "n \<le> off c")
    case True
    with n tot cs bytes wf show ?thesis by (auto simp: evbuffer_pullup_def)
  next
    case False
    with n bytes have "cs \<noteq> []" by auto
    with wf cs have data: "\<forall>d \<in> set (chains b). has_data d" by (auto simp: evbuffer_wf_def)
    have wfc: "\<forall>d \<in> set (chains b). chain_wf d" by (rule evbuffer_wfD(3) [OF wf])
    have l: "last_with_datap b = length cs" using wf cs by (simp add: evbuffer_wf_def)
    show ?thesis
    proof (cases "n \<le> buffer_len c - misalign c")
      case True
      have "n - off c \<le> length ?rest" and "\<forall>d \<in> set cs. has_data d" "\<forall>d \<in> set cs. chain_wf d"
        using n bytes data wfc cs by auto
      from pull_chains_ok [OF this] obtain rest
        where p: "pull_chains (n - off c) cs
            = (take (n - off c) ?rest, rest, length cs - length rest)"
          and r: "length rest \<le> length cs" "concat (map ch_data rest) = drop (n - off c) ?rest"
            "\<forall>d \<in> set rest. has_data d" "\<forall>d \<in> set rest. chain_wf d"
        by blast
      have "pullup_last 1 (length cs - length rest) (length cs) (t # rest) = length rest" for t
        by (rule pullup_last_eq) (use r in auto)
      with p r False True n tot cs bytes data wfc l show ?thesis
        by (auto simp: evbuffer_pullup_def evbuffer_wf_def ev_bytes_def ev_frame_def chain_wf_def)
    next
      case small: False
      from evbuffer_chain_new_ok [OF mm] obtain new
        where new: "evbuffer_chain_new (mm_malloc b) n = Some new" by blast
      note new_facts = evbuffer_chain_new_Some [OF new]
      from pull_chains_ok [of n "c # cs"] n bytes data wfc cs obtain rest
        where p: "pull_chains n (c # cs)
            = (take n (ev_bytes b), rest, length (c # cs) - length rest)"
          and r: "length rest \<le> length (c # cs)"
            "concat (map ch_data rest) = drop n (ev_bytes b)"
            "\<forall>d \<in> set rest. has_data d" "\<forall>d \<in> set rest. chain_wf d"
        by auto
      from p False have "length rest \<le> length cs"
        by (auto split: prod.splits)
      then have "pullup_last 0 (length (c # cs) - length rest) (length cs) (t # rest) = length rest" for t
        by (intro pullup_last_eq) (use r in auto)
      with p r False small n tot cs data wfc l new new_facts show ?thesis
        by (auto simp: evbuffer_pullup_def evbuffer_wf_def ev_bytes_def ev_frame_def chain_wf_def)
    qed
  qed
qed

lemma last_chain_split:
  assumes "chains b \<noteq> []"
  shows "chains b = butlast (chains b) @ [last (chains b)]"
  using assms by simp

lemma append_last_ok:
  assumes wf: "evbuffer_wf b" and ne: "chains b \<noteq> []"
    and c: "ch_data c = ch_data (last (chains b))" "buffer_len c = buffer_len (last (chains b))"
      "misalign c + off c + length d \<le> buffer_len c"
  shows "evbuffer_wf (append_last d c b)" and "ev_bytes (append_last d c b) = ev_bytes b @ d"
    and "ev_frame (append_last d c b) = ev_frame b"
    and "chains (append_last d c b) \<noteq> []"
proof -
  obtain xs y where xs: "chains b = xs @ [y]" using ne by (metis append_butlast_last_id)
  show "evbuffer_wf (append_last d c b)" and "ev_bytes (append_last d c b) = ev_bytes b @ d"
    using wf c by (auto simp: append_last_def evbuffer_wf_def ev_bytes_def xs chain_wf_def)
  show "ev_frame (append_last d c b) = ev_frame b" "chains (append_last d c b) \<noteq> []"
    by (simp_all add: append_last_def ev_frame_def)
qed

lemma evbuffer_chain_insert_ok:
  assumes wf: "evbuffer_wf b" and ne: "chains b \<noteq> []" and c: "has_data c" "chain_wf c"
  shows "\<exists>b'. evbuffer_chain_insert c b = Inr b' \<and> evbuffer_wf b'
     \<and> ev_bytes b' = ev_bytes b @ ch_data c \<and> ev_frame b' = ev_frame b"
proof -
  obtain xs y where xs: "chains b = xs @ [y]" using ne by (metis append_butlast_last_id)
  have l: "last_with_datap b = length xs" using wf by (simp add: evbuffer_wf_def xs)
  show ?thesis
  proof (cases "has_data y")
    case True
    then have "first_victim b = length (chains b)" by (simp add: first_victim_def l xs)
    with wf c l True show ?thesis
      by (auto simp: evbuffer_chain_insert_def evbuffer_wf_def ev_bytes_def ev_frame_def xs)
  next
    case False
    then have "first_victim b = length xs" by (simp add: first_victim_def l xs)
    moreover from wf False have "xs = []" by (auto simp: evbuffer_wf_def xs)
    ultimately show ?thesis using wf c l False
      by (auto simp: evbuffer_chain_insert_def evbuffer_wf_def ev_bytes_def ev_frame_def xs
          evbuffer_chains_all_empty_def)
  qed
qed

lemma evbuffer_chain_insert_first:
  assumes "evbuffer_wf b" and "chains b = []" and "chain_wf c"
  shows "\<exists>b'. evbuffer_chain_insert c b = Inr b' \<and> evbuffer_wf b' \<and> chains b' \<noteq> []
     \<and> ev_bytes b' = ch_data c \<and> ev_frame b' = ev_frame b"
  using assms by (auto simp: evbuffer_chain_insert_def evbuffer_wf_def ev_bytes_def ev_frame_def)

lemma evbuffer_add_last_ok:
  assumes wf: "evbuffer_wf b" and ne: "chains b \<noteq> []"
  shows "\<exists>ok b'. evbuffer_add_last d b = Inr (ok, b') \<and> evbuffer_wf b'
     \<and> ev_bytes b' = ev_bytes b @ (if ok then d else []) \<and> ev_frame b' = ev_frame b
     \<and> ((\<forall>k. mm_malloc b k) \<longrightarrow> ok)"
proof -
  let ?c = "last (chains b)"
  let ?remain = "buffer_len ?c - misalign ?c - off ?c"
  have cwf: "misalign ?c + off ?c \<le> buffer_len ?c"
    using wf ne by (simp add: evbuffer_wf_def chain_wf_def)
  consider (fits) "length d \<le> ?remain"
    | (realign) "\<not> length d \<le> ?remain" "evbuffer_chain_should_realign ?c (length d)"
    | (grow) "\<not> length d \<le> ?remain" "\<not> evbuffer_chain_should_realign ?c (length d)"
    by blast
  then show ?thesis
  proof cases
    case fits
    then have r: "evbuffer_add_last d b = Inr (True, append_last d ?c b)"
      by (simp add: evbuffer_add_last_def)
    from fits cwf have "misalign ?c + off ?c + length d \<le> buffer_len ?c" by linarith
    note append_last_ok [OF wf ne refl refl this]
    with r show ?thesis by (intro exI [of _ True]) simp
  next
    case realign
    let ?a = "evbuffer_chain_align ?c"
    from realign have r: "evbuffer_add_last d b = Inr (True, append_last d ?a b)"
      by (simp add: evbuffer_add_last_def)
    from realign cwf have "misalign ?a + off ?a + length d \<le> buffer_len ?a"
      unfolding evbuffer_chain_align_def evbuffer_chain_should_realign_def by simp linarith
    note append_last_ok [OF wf ne _ _ this]
    with r show ?thesis by (intro exI [of _ True]) (simp add: evbuffer_chain_align_def)
  next
    case grow
    let ?sz = "max (if buffer_len ?c \<le> EVBUFFER_CHAIN_MAX_AUTO_SIZE div 2
                    then 2 * buffer_len ?c else buffer_len ?c) (length d)"
    let ?b1 = "if 0 < ?remain then append_last (take ?remain d) ?c b else b"
    show ?thesis
    proof (cases "evbuffer_chain_new (mm_malloc b) ?sz")
      case None
      then have "\<not> (\<forall>k. mm_malloc b k)"
        using evbuffer_chain_new_ok [of "mm_malloc b" ?sz] by auto
      with None grow wf show ?thesis
        by (intro exI [of _ False]) (simp add: evbuffer_add_last_def)
    next
      case (Some tmp)
      have fit: "misalign ?c + off ?c + length (take ?remain d) \<le> buffer_len ?c"
        using cwf by simp
      have b1: "evbuffer_wf ?b1" "chains ?b1 \<noteq> []" "ev_bytes ?b1 = ev_bytes b @ take ?remain d"
        "ev_frame ?b1 = ev_frame b"
        using append_last_ok [OF wf ne refl refl fit] wf ne by (simp_all split: if_split)
      let ?t = "tmp\<lparr>ch_data := drop ?remain d\<rparr>"
      have "has_data ?t" "chain_wf ?t"
        using grow evbuffer_chain_new_Some [OF Some] by (auto simp: chain_wf_def)
      from evbuffer_chain_insert_ok [OF b1(1,2) this] obtain b'
        where "evbuffer_chain_insert ?t ?b1 = Inr b'" "evbuffer_wf b'"
          "ev_bytes b' = ev_bytes ?b1 @ drop ?remain d" "ev_frame b' = ev_frame ?b1"
        by auto
      moreover from this(1) have "evbuffer_add_last d b = Inr (True, b')"
        unfolding evbuffer_add_last_def Let_def using grow Some
        by (simp only: if_False option.case bind_res_Inr)
      ultimately show ?thesis using b1(3,4) by (intro exI [of _ True]) simp
    qed
  qed
qed

lemma evbuffer_add_ok:
  assumes wf: "evbuffer_wf b" and fr: "\<not> freeze_end b"
  shows "\<exists>ok b'. evbuffer_add d b = Inr (ok, b') \<and> evbuffer_wf b'
     \<and> ev_bytes b' = ev_bytes b @ (if ok then d else []) \<and> ev_frame b' = ev_frame b
     \<and> ((\<forall>k. mm_malloc b k) \<longrightarrow> ok)"
proof (cases "chains b = []")
  case False
  with evbuffer_add_last_ok [OF wf False, of d] fr show ?thesis by (simp add: evbuffer_add_def)
next
  case True
  show ?thesis
  proof (cases "evbuffer_chain_new (mm_malloc b) (length d)")
    case None
    then have "\<not> (\<forall>k. mm_malloc b k)"
      using evbuffer_chain_new_ok [of "mm_malloc b" "length d"] by auto
    with None True fr wf show ?thesis
      by (intro exI [of _ False]) (simp add: evbuffer_add_def)
  next
    case (Some c)
    have "chain_wf c" using evbuffer_chain_new_Some [OF Some] by (simp add: chain_wf_def)
    from evbuffer_chain_insert_first [OF wf True this] obtain b1
      where b1: "evbuffer_chain_insert c b = Inr b1" "evbuffer_wf b1" "chains b1 \<noteq> []"
        "ev_bytes b1 = ch_data c" "ev_frame b1 = ev_frame b" by blast
    have "ev_bytes b = []" "ch_data c = []"
      using True evbuffer_chain_new_Some [OF Some] by (simp_all add: ev_bytes_def)
    moreover have "mm_malloc b1 = mm_malloc b" using b1(5) by (simp add: ev_frame_def)
    ultimately show ?thesis
      using evbuffer_add_last_ok [OF b1(2,3), of d] b1 True Some fr
      by (simp add: evbuffer_add_def)
  qed
qed

lemma split_chains_ok:
  assumes "n < length (concat (map ch_data cs))" and "l + 1 = i + length cs"
  shows "\<exists>moved c rest left. split_chains l i n cs = Inr (moved, c # rest, left)
     \<and> cs = moved @ c # rest \<and> left < off c
     \<and> length (concat (map ch_data moved)) + left = n"
  using assms
proof (induction cs arbitrary: i n)
  case (Cons c cs)
  show ?case
  proof (cases "off c \<le> n")
    case True
    with Cons.prems have lt: "n - off c < length (concat (map ch_data cs))" by simp
    then have "cs \<noteq> []" by auto
    with Cons.prems(2) have l: "l + 1 = Suc i + length cs" "i \<noteq> l" by auto
    from Cons.IH [OF lt l(1)] obtain moved c' rest left
      where "split_chains l (Suc i) (n - off c) cs = Inr (moved, c' # rest, left)"
        "cs = moved @ c' # rest" "left < off c'"
        "length (concat (map ch_data moved)) + left = n - off c" by blast
    with True l(2) show ?thesis by simp
  next
    case False
    then show ?thesis by simp
  qed
qed simp

lemma evbuffer_wf_nonempty:
  "evbuffer_wf b \<Longrightarrow> ev_bytes b \<noteq> [] \<Longrightarrow> \<forall>c \<in> set (chains b). has_data c"
  by (auto simp: evbuffer_wf_def ev_bytes_def length_Suc_conv)

lemma evbuffer_add_buffer_ok:
  assumes "evbuffer_wf src" "evbuffer_wf dst" "\<not> freeze_start src" "\<not> freeze_end dst"
  shows "\<exists>src' dst'. evbuffer_add_buffer dst src = (True, dst', src')
     \<and> evbuffer_wf src' \<and> evbuffer_wf dst' \<and> ev_bytes src' = []
     \<and> ev_bytes dst' = ev_bytes dst @ ev_bytes src
     \<and> ev_frame src' = ev_frame src \<and> ev_frame dst' = ev_frame dst"
proof (cases "ev_bytes src = []")
  case True
  with assms show ?thesis by (simp add: evbuffer_add_buffer_def evbuffer_wf_def)
next
  case False
  with assms(1) have s: "total_len src \<noteq> 0" "chains src \<noteq> []"
    by (auto simp: evbuffer_wf_def ev_bytes_def)
  have ds: "\<forall>c \<in> set (chains src). has_data c" by (rule evbuffer_wf_nonempty [OF assms(1) False])
  show ?thesis
  proof (cases "ev_bytes dst = []")
    case True
    with s ds assms show ?thesis
      by (simp add: evbuffer_add_buffer_def COPY_CHAIN_def ZERO_CHAIN_def evbuffer_wf_def
          ev_bytes_def ev_frame_def)
  next
    case ne: False
    have dd: "\<forall>c \<in> set (chains dst). has_data c" by (rule evbuffer_wf_nonempty [OF assms(2) ne])
    have "chains dst \<noteq> []" using ne by (auto simp: ev_bytes_def)
    moreover have "total_len dst \<noteq> 0" using ne assms(2) by (simp add: evbuffer_wf_def)
    ultimately show ?thesis using s ds dd assms
      by (auto simp: evbuffer_add_buffer_def APPEND_CHAIN_def ZERO_CHAIN_def evbuffer_wf_def
          ev_bytes_def ev_frame_def neq_Nil_conv)
  qed
qed

text \<open>Moving whole chains behind a destination, as \<open>evbuffer_remove_buffer\<close> does.\<close>

lemma move_chains_ok:
  assumes wf: "evbuffer_wf dst" and m: "moved \<noteq> []" "\<forall>c \<in> set moved. has_data c \<and> chain_wf c"
  shows "\<exists>d. evbuffer_free_trailing_empty_chains dst = Inr d
     \<and> (let d' = advance_last_with_data
                   (d\<lparr>chains := chains d @ moved,
                      total_len := total_len d + sum_list (map off moved)\<rparr>)
        in evbuffer_wf d' \<and> ev_bytes d' = ev_bytes dst @ concat (map ch_data moved)
           \<and> ev_frame d' = ev_frame dst)"
proof -
  obtain m0 ms where ms: "moved = m0 # ms" using m(1) by (auto simp: neq_Nil_conv)
  have "takeWhile has_data ms = ms" using m(2) ms by (simp add: takeWhile_eq_all_conv)
  then have tw: "length (takeWhile has_data ms) = length ms" by (rule arg_cong)
  have len: "length (concat (map ch_data moved)) = sum_list (map off moved)"
    by (simp add: length_concat comp_def)
  show ?thesis
  proof (cases "\<forall>c \<in> set (chains dst). has_data c")
    case True
    then have tk: "takeWhile has_data (drop (last_with_datap dst) (chains dst))
        = drop (last_with_datap dst) (chains dst)"
      by (meson in_set_dropD takeWhile_eq_all_conv)
    have "\<not> first_victim dst < length (chains dst)"
      unfolding first_victim_def tk by simp
    then have f: "evbuffer_free_trailing_empty_chains dst = Inr dst"
      by (simp add: evbuffer_free_trailing_empty_chains_def)
    have "chains dst \<noteq> [] \<Longrightarrow> Suc (length (chains dst) - 1) = length (chains dst)"
      by simp
    with f wf True m ms tw len show ?thesis
      by (cases "chains dst = []")
         (auto simp: advance_last_with_data_def evbuffer_wf_def ev_bytes_def ev_frame_def Let_def)
  next
    case False
    with wf obtain e where e: "chains dst = [e]" "ch_data e = []"
      by (auto simp: evbuffer_wf_def length_Suc_conv)
    with wf have v: "first_victim dst = 0" by (simp add: first_victim_def evbuffer_wf_def)
    with e have f: "evbuffer_free_trailing_empty_chains dst = Inr (dst\<lparr>chains := []\<rparr>)"
      by (simp add: evbuffer_free_trailing_empty_chains_def evbuffer_chains_all_empty_def)
    with wf e m ms tw len show ?thesis
      by (auto simp: advance_last_with_data_def evbuffer_wf_def ev_bytes_def ev_frame_def Let_def)
  qed
qed

lemma evbuffer_remove_buffer_ok:
  assumes src: "evbuffer_wf src" "\<not> freeze_start src"
    and dst: "evbuffer_wf dst" "\<not> freeze_end dst" "\<forall>k. mm_malloc dst k" and n: "0 < n"
  shows "\<exists>src' dst'. evbuffer_remove_buffer n src dst
       = Inr (int (min n (length (ev_bytes src))), src', dst')
     \<and> evbuffer_wf src' \<and> ev_bytes src' = drop n (ev_bytes src) \<and> ev_frame src' = ev_frame src
     \<and> evbuffer_wf dst' \<and> ev_bytes dst' = ev_bytes dst @ take n (ev_bytes src)
     \<and> ev_frame dst' = ev_frame dst"
proof (cases "total_len src \<le> n")
  case True
  with evbuffer_add_buffer_ok [OF src(1) dst(1) src(2) dst(2)] src dst n show ?thesis
    by (auto simp: evbuffer_remove_buffer_def evbuffer_wfD(1) min_def)
next
  case False
  have tot: "total_len src = length (ev_bytes src)" by (rule evbuffer_wfD(1) [OF src(1)])
  with False have lt: "n < length (concat (map ch_data (chains src)))" by (simp add: ev_bytes_def)
  then have ne: "chains src \<noteq> []" "ev_bytes src \<noteq> []"
    by (cases "concat (map ch_data (chains src)) = []", auto simp: ev_bytes_def)+
  have l: "last_with_datap src + 1 = 0 + length (chains src)"
    using ne by (simp add: evbuffer_wfD(2) [OF src(1)])
  from split_chains_ok [OF lt l] obtain moved c rest left
    where sp: "split_chains (last_with_datap src) 0 n (chains src) = Inr (moved, c # rest, left)"
      and cs: "chains src = moved @ c # rest" and left: "left < off c"
      and nn: "length (concat (map ch_data moved)) + left = n" by blast
  have data: "\<forall>d \<in> set (chains src). has_data d \<and> chain_wf d"
    using evbuffer_wf_nonempty [OF src(1) ne(2)] evbuffer_wfD(3) [OF src(1)] by blast
  let ?nread = "sum_list (map off moved)"
  have nread: "?nread = length (concat (map ch_data moved))" by (simp add: length_concat comp_def)
  have nz: "?nread = 0 \<longleftrightarrow> moved = []" using data cs by (auto simp: nread)
  have mid: "\<exists>d. (if ?nread = 0 then Inr dst
         else bind_res (evbuffer_free_trailing_empty_chains dst) (\<lambda>d.
            Inr (advance_last_with_data
              (d\<lparr>chains := chains d @ moved, total_len := total_len d + ?nread\<rparr>)))) = Inr d
      \<and> evbuffer_wf d \<and> ev_bytes d = ev_bytes dst @ concat (map ch_data moved)
      \<and> ev_frame d = ev_frame dst"
  proof (cases "moved = []")
    case False
    with move_chains_ok [OF dst(1) False] data cs nz show ?thesis by (auto simp: Let_def)
  qed (use dst nz in simp)
  then obtain d where d: "(if ?nread = 0 then Inr dst
         else bind_res (evbuffer_free_trailing_empty_chains dst) (\<lambda>d.
            Inr (advance_last_with_data
              (d\<lparr>chains := chains d @ moved, total_len := total_len d + ?nread\<rparr>)))) = Inr d"
      "evbuffer_wf d" "ev_bytes d = ev_bytes dst @ concat (map ch_data moved)"
      "ev_frame d = ev_frame dst" by blast
  have fd: "\<not> freeze_end d" "\<forall>k. mm_malloc d k" using d(4) dst by (simp_all add: ev_frame_def)
  from evbuffer_add_ok [OF d(2) fd(1), of "take left (ch_data c)"] fd(2) obtain d'
    where d': "evbuffer_add (take left (ch_data c)) d = Inr (True, d')" "evbuffer_wf d'"
      "ev_bytes d' = ev_bytes d @ take left (ch_data c)" "ev_frame d' = ev_frame d"
    by (metis (full_types))
  let ?c = "c\<lparr>misalign := misalign c + left, ch_data := drop left (ch_data c)\<rparr>"
  let ?src = "src\<lparr>chains := ?c # rest, last_with_datap := last_with_datap src - length moved,
                  total_len := total_len src - n\<rparr>"
  have "last_with_datap src = length moved + length rest" using l cs by simp
  then have eq: "evbuffer_remove_buffer n src dst = Inr (int n, ?src, d')"
    using False n src(2) dst(2) sp d(1) d'(1) nn nread nz
    by (auto simp: evbuffer_remove_buffer_def Let_def)
  have "evbuffer_wf ?src" "ev_bytes ?src = drop n (ev_bytes src)"
    using data left cs nn tot src(1)
    by (auto simp: evbuffer_wf_def ev_bytes_def chain_wf_def)
  moreover have "ev_bytes d' = ev_bytes dst @ take n (ev_bytes src)"
    using d(3) d'(3) left nn by (simp add: ev_bytes_def cs flip: nn)
  ultimately show ?thesis using eq d' d(4) lt
    by (auto simp: ev_frame_def ev_bytes_def)
qed

section \<open>The interface the server relies on\<close>

text \<open>A buffer the server reads from: bytes can be looked at through a pointer, dropped, or
  copied out. A buffer the server writes to: bytes can be appended, or moved from a source.\<close>

definition ev_source :: "evbuffer \<Rightarrow> bool" where
  "ev_source b \<longleftrightarrow> evbuffer_wf b \<and> \<not> freeze_start b \<and> (\<forall>k. mm_malloc b k)"

definition ev_sink :: "evbuffer \<Rightarrow> bool" where
  "ev_sink b \<longleftrightarrow> evbuffer_wf b \<and> \<not> freeze_end b \<and> (\<forall>k. mm_malloc b k)"

locale byte_source =
  fixes src :: "'q \<Rightarrow> bool"
    and contents :: "'q \<Rightarrow> bytes"
    and get_length :: "'q \<Rightarrow> nat"
    and pullup :: "int \<Rightarrow> 'q \<Rightarrow> (bytes option \<times> 'q) res"
    and drain :: "nat \<Rightarrow> 'q \<Rightarrow> (bool \<times> 'q) res"
    and remove :: "nat \<Rightarrow> 'q \<Rightarrow> (bytes option \<times> 'q) res"
  assumes get_length: "src q \<Longrightarrow> get_length q = length (contents q)"
    and pullup: "src q \<Longrightarrow> 0 < n \<Longrightarrow> n \<le> length (contents q) \<Longrightarrow>
      \<exists>p q'. pullup (int n) q = Inr (Some p, q') \<and> src q' \<and> contents q' = contents q
        \<and> n \<le> length p \<and> p = take (length p) (contents q)"
    and pullup_short: "src q \<Longrightarrow> int (length (contents q)) < sz \<Longrightarrow> pullup sz q = Inr (None, q)"
    and pullup_neg: "src q \<Longrightarrow> sz < 0 \<Longrightarrow> pullup sz q = pullup (int (length (contents q))) q"
    and drain: "src q \<Longrightarrow> \<exists>q'. drain n q = Inr (True, q') \<and> src q' \<and> contents q' = drop n (contents q)"
    and remove: "src q \<Longrightarrow> \<exists>q'. remove n q = Inr (Some (take n (contents q)), q') \<and> src q'
      \<and> contents q' = drop n (contents q)"
begin

lemma pullup_cases:
  assumes "src q" and "0 < n"
  obtains (short) "length (contents q) < n" "pullup (int n) q = Inr (None, q)"
    | (ok) p q' where "n \<le> length (contents q)" "pullup (int n) q = Inr (Some p, q')" "src q'"
        "contents q' = contents q" "n \<le> length p" "p = take (length p) (contents q)"
proof (cases "n \<le> length (contents q)")
  case True
  from pullup [OF assms True] ok [OF True] show ?thesis by blast
next
  case False
  with assms show ?thesis by (intro short pullup_short) auto
qed

text \<open>What is read through the pointer is what the buffer holds.\<close>

lemma pullup_nth:
  assumes "src q" and "pullup (int n) q = Inr (Some p, q')" and "0 < n" and "i < length p"
  shows "p ! i = contents q ! i"
  using assms(1,3)
proof (cases rule: pullup_cases)
  case (ok p2 q2)
  with assms(2,4) have "p = take (length p) (contents q)" by simp
  with assms(4) show ?thesis by (metis nth_take)
qed (use assms(2) in simp)

text \<open>A frame that was pulled up and is then copied out or dropped leaves the bytes behind it.\<close>

lemma pullup_then_remove:
  assumes "src q" and "0 < n" and "n \<le> length (contents q)"
  shows "\<exists>p q' q''. pullup (int n) q = Inr (Some p, q') \<and> n \<le> length p
     \<and> take n p = take n (contents q)
     \<and> remove n q' = Inr (Some (take n p), q'') \<and> src q'' \<and> contents q'' = drop n (contents q)"
proof -
  from pullup [OF assms] obtain p q' where p: "pullup (int n) q = Inr (Some p, q')" "src q'"
      "contents q' = contents q" "n \<le> length p" "p = take (length p) (contents q)" by blast
  then have "take n p = take n (contents q)" by (metis min.absorb1 take_take)
  moreover from remove [OF p(2), of n] obtain q'' where
    "remove n q' = Inr (Some (take n (contents q)), q'')" "src q''"
    "contents q'' = drop n (contents q)" using p(3) by auto
  ultimately show ?thesis using p by auto
qed

end

locale byte_pipe = byte_source +
  fixes sink :: "'q \<Rightarrow> bool"
    and add :: "bytes \<Rightarrow> 'q \<Rightarrow> (bool \<times> 'q) res"
    and move :: "nat \<Rightarrow> 'q \<Rightarrow> 'q \<Rightarrow> (int \<times> 'q \<times> 'q) res"
  assumes add: "sink q \<Longrightarrow> \<exists>q'. add d q = Inr (True, q') \<and> sink q' \<and> contents q' = contents q @ d"
    and move: "src q \<Longrightarrow> sink r \<Longrightarrow> 0 < n \<Longrightarrow>
      \<exists>q' r'. move n q r = Inr (int (min n (length (contents q))), q', r') \<and> src q' \<and> sink r'
        \<and> contents q' = drop n (contents q) \<and> contents r' = contents r @ take n (contents q)"
begin

text \<open>Nothing is lost or duplicated when bytes are moved.\<close>

lemma move_conserves:
  assumes "src q" "sink r" "0 < n" "move n q r = Inr (k, q', r')"
  shows "contents r @ contents q = contents r' @ contents q'"
  using move [OF assms(1-3)] assms(4) by auto

lemma add_twice:
  assumes "sink q"
  shows "\<exists>q1 q2. add d q = Inr (True, q1) \<and> add e q1 = Inr (True, q2) \<and> sink q2
     \<and> contents q2 = contents q @ d @ e"
proof -
  from add [OF assms, of d] obtain q1 where q1: "add d q = Inr (True, q1)" "sink q1"
    "contents q1 = contents q @ d" by blast
  from add [OF q1(2), of e] q1 show ?thesis by auto
qed

end

interpretation ev: byte_pipe ev_source ev_bytes evbuffer_get_length evbuffer_pullup
  evbuffer_drain evbuffer_remove ev_sink evbuffer_add evbuffer_remove_buffer
proof unfold_locales
  fix q n
  assume q: "ev_source q"
  then have wf: "evbuffer_wf q" "\<not> freeze_start q" "\<forall>k. mm_malloc q k"
    by (simp_all add: ev_source_def)
  have keep: "ev_source q'" if "evbuffer_wf q'" "ev_frame q' = ev_frame q" for q'
    using that wf by (simp add: ev_source_def ev_frame_def)
  show "evbuffer_get_length q = length (ev_bytes q)" by (rule evbuffer_get_length_ok [OF wf(1)])
  show "\<exists>p q'. evbuffer_pullup (int n) q = Inr (Some p, q') \<and> ev_source q'
      \<and> ev_bytes q' = ev_bytes q \<and> n \<le> length p \<and> p = take (length p) (ev_bytes q)"
    if "0 < n" "n \<le> length (ev_bytes q)"
    using evbuffer_pullup_ok [OF wf(1,3) that] keep by blast
  show "evbuffer_pullup sz q = Inr (None, q)" if "int (length (ev_bytes q)) < sz" for sz
    by (rule evbuffer_pullup_short [OF wf(1) that])
  show "evbuffer_pullup sz q = evbuffer_pullup (int (length (ev_bytes q))) q" if "sz < 0" for sz
    using evbuffer_pullup_neg [OF that, of q] evbuffer_wfD(1) [OF wf(1)] by simp
  show "\<exists>q'. evbuffer_drain n q = Inr (True, q') \<and> ev_source q' \<and> ev_bytes q' = drop n (ev_bytes q)"
    using evbuffer_drain_ok [OF wf(1,2)] keep by blast
  show "\<exists>q'. evbuffer_remove n q = Inr (Some (take n (ev_bytes q)), q') \<and> ev_source q'
      \<and> ev_bytes q' = drop n (ev_bytes q)"
    using evbuffer_remove_ok [OF wf(1,2)] keep by blast
next
  fix q d
  assume "ev_sink q"
  then have wf: "evbuffer_wf q" "\<not> freeze_end q" "\<forall>k. mm_malloc q k"
    by (simp_all add: ev_sink_def)
  from evbuffer_add_ok [OF wf(1,2), of d] wf(3) obtain q' where
    "evbuffer_add d q = Inr (True, q')" "evbuffer_wf q'" "ev_bytes q' = ev_bytes q @ d"
    "ev_frame q' = ev_frame q" by (metis (full_types))
  with wf show "\<exists>q'. evbuffer_add d q = Inr (True, q') \<and> ev_sink q' \<and> ev_bytes q' = ev_bytes q @ d"
    by (auto simp: ev_sink_def ev_frame_def)
next
  fix q r :: evbuffer and n :: nat
  assume "ev_source q" "ev_sink r" and n: "0 < n"
  then have q: "evbuffer_wf q" "\<not> freeze_start q" "\<forall>k. mm_malloc q k"
    and r: "evbuffer_wf r" "\<not> freeze_end r" "\<forall>k. mm_malloc r k"
    by (simp_all add: ev_source_def ev_sink_def)
  from evbuffer_remove_buffer_ok [OF q(1,2) r n] q r
  show "\<exists>q' r'. evbuffer_remove_buffer n q r = Inr (int (min n (length (ev_bytes q))), q', r')
      \<and> ev_source q' \<and> ev_sink r' \<and> ev_bytes q' = drop n (ev_bytes q)
      \<and> ev_bytes r' = ev_bytes r @ take n (ev_bytes q)"
    by (fastforce simp: ev_source_def ev_sink_def ev_frame_def)
qed

text \<open>A buffer of a single chain, as a socket read leaves it.\<close>

definition one_chain :: "bytes \<Rightarrow> evbuffer" where
  "one_chain bs =
     \<lparr>chains = [\<lparr>buffer_len = 976, misalign = 0, ch_data = bs\<rparr>], last_with_datap = 0,
      total_len = length bs, freeze_start = False, freeze_end = False, mm_malloc = (\<lambda>_. True)\<rparr>"

lemma one_chain_bytes [simp]: "ev_bytes (one_chain bs) = bs"
  by (simp add: one_chain_def ev_bytes_def)

lemma one_chain_ok: "bs \<noteq> [] \<Longrightarrow> length bs \<le> 976 \<Longrightarrow> ev_source (one_chain bs) \<and> ev_sink (one_chain bs)"
  by (simp add: ev_source_def ev_sink_def evbuffer_wf_def one_chain_def ev_bytes_def chain_wf_def)

lemma evbuffer_new_bytes [simp]: "ev_bytes (evbuffer_new mm) = []"
  by (simp add: evbuffer_new_def ev_bytes_def)

lemma evbuffer_new_ok: "\<forall>k. mm k \<Longrightarrow> ev_source (evbuffer_new mm) \<and> ev_sink (evbuffer_new mm)"
  by (simp add: ev_source_def ev_sink_def evbuffer_new_def evbuffer_wf_def ev_bytes_def)

section \<open>Properties\<close>

text \<open>C11: A buffer is a byte queue: what is added comes out behind what was there, in order and
  complete, whether it went into the last chain, into the space a drain had left, or into a new
  chain.\<close>

theorem evbuffer_add_then_remove:
  assumes "ev_source q" and "ev_sink q"
  shows "\<exists>q1 q2. evbuffer_add d q = Inr (True, q1)
    \<and> evbuffer_remove (length (ev_bytes q) + length d) q1 = Inr (Some (ev_bytes q @ d), q2)
    \<and> evbuffer_wf q2 \<and> ev_bytes q2 = []"
proof -
  from assms have "evbuffer_wf q" "\<not> freeze_end q" "\<forall>k. mm_malloc q k"
    by (simp_all add: ev_sink_def)
  from evbuffer_add_ok [OF this(1,2), of d] this(3) obtain q1 where q1: "evbuffer_add d q = Inr (True, q1)"
    "evbuffer_wf q1" "ev_bytes q1 = ev_bytes q @ d" "ev_frame q1 = ev_frame q" by (metis (full_types))
  with assms(1) have "ev_source q1" by (simp add: ev_source_def ev_frame_def)
  from ev.remove [OF this, of "length (ev_bytes q) + length d"] q1 show ?thesis
    by (auto simp: ev_source_def)
qed

theorem evbuffer_add_then_remove_witness:
  "\<exists>q1 q2. evbuffer_add [1, 2, 3] (one_chain [9]) = Inr (True, q1)
    \<and> evbuffer_remove 4 q1 = Inr (Some [9, 1, 2, 3], q2) \<and> evbuffer_wf q2 \<and> ev_bytes q2 = []"
  using evbuffer_add_then_remove [of "one_chain [9]" "[1, 2, 3]"] one_chain_ok [of "[9]"] by (simp add: eval_nat_numeral)

text \<open>C12: Moving bytes from one buffer to another, chain by chain and with the rest copied, moves
  exactly the first \<open>n\<close> bytes: both buffers stay well formed, the destination grows by them and the
  source keeps the others.\<close>

theorem evbuffer_remove_buffer_moves:
  assumes "ev_source src" and "ev_sink dst" and "0 < n"
  shows "\<exists>src' dst'. evbuffer_remove_buffer n src dst = Inr (int (min n (length (ev_bytes src))), src', dst')
    \<and> ev_source src' \<and> ev_sink dst' \<and> ev_bytes dst' = ev_bytes dst @ take n (ev_bytes src)
    \<and> ev_bytes src' = drop n (ev_bytes src)"
  using ev.move [OF assms] by blast

theorem evbuffer_remove_buffer_moves_witness:
  "\<exists>src' dst'. evbuffer_remove_buffer 2 (one_chain [1, 2, 3]) (one_chain [9]) = Inr (2, src', dst')
    \<and> ev_source src' \<and> ev_sink dst' \<and> ev_bytes dst' = [9, 1, 2] \<and> ev_bytes src' = [3]"
  using evbuffer_remove_buffer_moves [of "one_chain [1, 2, 3]" "one_chain [9]" 2]
    one_chain_ok [of "[1, 2, 3]"] one_chain_ok [of "[9]"] by (simp add: eval_nat_numeral)

end
