(* ===== verification/Pb_Wire.thy ===== *)
theory Pb_Wire
  imports Comet_Prelude
begin

text \<open>
  The interface between the generated message classes (\<open>src/core/comet.pb.cc\<close>) and the
  protobuf runtime library, which is not part of the repository. The runtime is a parameter: a
  record of the functions the generated code calls. A \<open>CodedInputStream\<close> over an array is the
  list of its remaining bytes; the \<open>...ToArray\<close> writers return the bytes they store; the type
  variable stands for \<open>UnknownFieldSet\<close>. The locale \<open>wire_format\<close> states what the protobuf
  documentation promises of these functions, and the theory closes with the documented encoding
  itself (\<open>std_wire\<close>), for which the promises are proved.

  The generated parsers share one shape, a loop over tags with \<open>goto\<close>s into the case of the next
  field. The theory holds that shape once: \<open>merge_step\<close> is one pass from a label to the next,
  \<open>run\<close> repeats it with fuel, and \<open>run_enough\<close> shows that as many steps as there are input
  bytes, plus one, always suffice.
\<close>

section \<open>The runtime\<close>

record 'u wire_rt =
  ReadTag :: "bytes \<Rightarrow> nat \<times> bytes"
  GetTagFieldNumber :: "nat \<Rightarrow> nat"
  GetTagWireType :: "nat \<Rightarrow> nat"
  ExpectTag :: "nat \<Rightarrow> bytes \<Rightarrow> bytes option"
  ExpectAtEnd :: "bytes \<Rightarrow> bool"
  ReadInt64 :: "bytes \<Rightarrow> (u64 \<times> bytes) option"
  ReadInt32 :: "bytes \<Rightarrow> (u32 \<times> bytes) option"
  ReadString :: "bytes \<Rightarrow> bool \<times> bytes \<times> bytes"
  ReadBytes :: "bytes \<Rightarrow> bool \<times> bytes \<times> bytes"
  SkipField :: "nat \<Rightarrow> bytes \<Rightarrow> 'u \<Rightarrow> bool \<times> bytes \<times> 'u"
  WriteInt64ToArray :: "nat \<Rightarrow> u64 \<Rightarrow> bytes"
  WriteInt32ToArray :: "nat \<Rightarrow> u32 \<Rightarrow> bytes"
  WriteStringToArray :: "nat \<Rightarrow> bytes \<Rightarrow> bytes"
  WriteBytesToArray :: "nat \<Rightarrow> bytes \<Rightarrow> bytes"
  Int64Size :: "u64 \<Rightarrow> nat"
  Int32Size :: "u32 \<Rightarrow> nat"
  StringSize :: "bytes \<Rightarrow> nat"
  BytesSize :: "bytes \<Rightarrow> nat"
  UnknownClear :: 'u
  UnknownEmpty :: "'u \<Rightarrow> bool"
  UnknownMerge :: "'u \<Rightarrow> 'u \<Rightarrow> 'u"
  SerializeUnknownFieldsToArray :: "'u \<Rightarrow> bytes"
  ComputeUnknownFieldsSize :: "'u \<Rightarrow> nat"

definition WIRETYPE_VARINT :: nat where "WIRETYPE_VARINT = 0"
definition WIRETYPE_LENGTH_DELIMITED :: nat where "WIRETYPE_LENGTH_DELIMITED = 2"
definition WIRETYPE_END_GROUP :: nat where "WIRETYPE_END_GROUP = 4"

lemmas wiretype_defs = WIRETYPE_VARINT_def WIRETYPE_LENGTH_DELIMITED_def WIRETYPE_END_GROUP_def

section \<open>The shape of a generated parser\<close>

text \<open>\<open>Loop\<close> is the head of \<open>while ((tag = input->ReadTag()) != 0)\<close>; \<open>Field k\<close> is the body of
  \<open>case k\<close> behind its wire-type test, the target of the \<open>goto parse_...\<close> of that field.\<close>

datatype label = Loop | Field nat

datatype 'm outcome = Goto label "bytes \<times> 'm" | Return bool "bytes \<times> 'm"

text \<open>The end of a field case: \<open>if (input->ExpectTag(t)) goto parse_k;\<close> for each pair in turn,
  in the last case \<open>if (input->ExpectAtEnd()) return true;\<close> (\<open>last\<close>), then \<open>break\<close>.\<close>

fun expect_next :: "'u wire_rt \<Rightarrow> (nat \<times> nat) list \<Rightarrow> bool \<Rightarrow> bytes \<times> 'm \<Rightarrow> 'm outcome" where
  "expect_next rt [] final s =
     (if final \<and> ExpectAtEnd rt (fst s) then Return True s else Goto Loop s)"
| "expect_next rt ((t, k) # ts) final s =
     (case ExpectTag rt t (fst s) of
        Some inp' \<Rightarrow> Goto (Field k) (inp', snd s)
      | None \<Rightarrow> expect_next rt ts final s)"

text \<open>The body of a field case: a failed read returns false. A string field is written through
  the pointer \<open>mutable_x()\<close>, also when the read fails; a varint field is not.\<close>

definition read_varint ::
  "(bytes \<Rightarrow> ('v \<times> bytes) option) \<Rightarrow> ('v \<Rightarrow> 'm \<Rightarrow> 'm) \<Rightarrow> (bytes \<times> 'm \<Rightarrow> 'm outcome) \<Rightarrow>
   bytes \<times> 'm \<Rightarrow> 'm outcome" where
  "read_varint rd setter next s =
     (case rd (fst s) of
        None \<Rightarrow> Return False s
      | Some (v, inp) \<Rightarrow> next (inp, setter v (snd s)))"

definition read_delimited ::
  "(bytes \<Rightarrow> bool \<times> bytes \<times> bytes) \<Rightarrow> (bytes \<Rightarrow> 'm \<Rightarrow> 'm) \<Rightarrow> (bytes \<times> 'm \<Rightarrow> 'm outcome) \<Rightarrow>
   bytes \<times> 'm \<Rightarrow> 'm outcome" where
  "read_delimited rd setter next s =
     (case rd (fst s) of
        (ok, v, inp) \<Rightarrow> (if ok then next (inp, setter v (snd s))
                        else Return False (inp, setter v (snd s))))"

text \<open>\<open>if (c) f\<close> on a state.\<close>

definition if_set :: "bool \<Rightarrow> ('m \<Rightarrow> 'm) \<Rightarrow> 'm \<Rightarrow> 'm" where
  "if_set c f m = (if c then f m else m)"

lemma if_set_simps [simp]: "if_set True f m = f m" "if_set False f m = m"
  by (simp_all add: if_set_def)

text \<open>One pass of the loop. \<open>tbl\<close> lists the cases of the switch with the wire type each tests
  for; \<open>fld\<close> is their bodies; \<open>upd\<close> applies \<open>SkipField\<close> to \<open>mutable_unknown_fields()\<close>.\<close>

fun merge_step ::
  "'u wire_rt \<Rightarrow> (nat \<times> nat) list \<Rightarrow> (nat \<Rightarrow> bytes \<times> 'm \<Rightarrow> 'm outcome) \<Rightarrow>
   (('u \<Rightarrow> 'u) \<Rightarrow> 'm \<Rightarrow> 'm) \<Rightarrow> ('m \<Rightarrow> 'u) \<Rightarrow> label \<Rightarrow> bytes \<times> 'm \<Rightarrow> 'm outcome" where
  "merge_step rt tbl fld upd unk Loop (inp, m) =
     (case ReadTag rt inp of
        (tag, inp') \<Rightarrow>
          if tag = 0 then Return True (inp', m)
          else if (GetTagFieldNumber rt tag, GetTagWireType rt tag) \<in> set tbl
               then fld (GetTagFieldNumber rt tag) (inp', m)
          else if GetTagWireType rt tag = WIRETYPE_END_GROUP then Return True (inp', m)
          else (case SkipField rt tag inp' (unk m) of
                  (ok, inp'', u) \<Rightarrow>
                    if ok then Goto Loop (inp'', upd (\<lambda>_. u) m)
                    else Return False (inp'', upd (\<lambda>_. u) m)))"
| "merge_step rt tbl fld upd unk (Field k) s = fld k s"

fun run :: "(label \<Rightarrow> bytes \<times> 'm \<Rightarrow> 'm outcome) \<Rightarrow> nat \<Rightarrow> label \<Rightarrow> bytes \<times> 'm \<Rightarrow>
    (bool \<times> bytes \<times> 'm) option" where
  "run step 0 l s = None"
| "run step (Suc n) l s =
     (case step l s of
        Goto l' s' \<Rightarrow> run step n l' s'
      | Return b s' \<Rightarrow> Some (b, s'))"

text \<open>\<open>runs\<close>: some number of steps reaches this result.\<close>

definition runs :: "(label \<Rightarrow> bytes \<times> 'm \<Rightarrow> 'm outcome) \<Rightarrow> label \<Rightarrow> bytes \<times> 'm \<Rightarrow>
    bool \<times> bytes \<times> 'm \<Rightarrow> bool" where
  "runs step l s r \<longleftrightarrow> (\<exists>n. run step n l s = Some r)"

fun outcome_runs :: "(label \<Rightarrow> bytes \<times> 'm \<Rightarrow> 'm outcome) \<Rightarrow> 'm outcome \<Rightarrow>
    bool \<times> bytes \<times> 'm \<Rightarrow> bool" where
  "outcome_runs step (Goto l s) r \<longleftrightarrow> runs step l s r"
| "outcome_runs step (Return b s) r \<longleftrightarrow> r = (b, s)"

lemma runs_step: "runs step l s r \<longleftrightarrow> outcome_runs step (step l s) r"
proof
  assume "runs step l s r"
  then obtain n where "run step n l s = Some r" by (auto simp: runs_def)
  then show "outcome_runs step (step l s) r"
    by (cases n) (auto simp: runs_def split: outcome.splits)
next
  assume r: "outcome_runs step (step l s) r"
  show "runs step l s r"
  proof (cases "step l s")
    case (Goto l' s')
    with r obtain n where "run step n l' s' = Some r" by (auto simp: runs_def)
    with Goto have "run step (Suc n) l s = Some r" by simp
    then show ?thesis unfolding runs_def by blast
  next
    case (Return b s')
    with r have "run step (Suc 0) l s = Some r" by simp
    then show ?thesis unfolding runs_def by blast
  qed
qed

lemma run_mono: "run step n l s = Some r \<Longrightarrow> n \<le> k \<Longrightarrow> run step k l s = Some r"
proof (induction n arbitrary: k l s)
  case (Suc n)
  then obtain k' where "k = Suc k'" by (cases k) auto
  with Suc show ?case by (auto split: outcome.splits)
qed simp

lemma runs_unique: "runs step l s r \<Longrightarrow> runs step l s r' \<Longrightarrow> r = r'"
  unfolding runs_def by (metis nat_le_linear option.inject run_mono)

text \<open>A parser whose every jump has consumed input returns within one step per byte and one.\<close>

lemma run_enough:
  assumes dec: "\<And>l s l' s'. step l s = Goto l' s' \<Longrightarrow> length (fst s') < length (fst s)"
    and "length (fst s) < n"
  shows "\<exists>r. run step n l s = Some r"
  using assms(2)
proof (induction n arbitrary: l s)
  case (Suc n)
  show ?case
  proof (cases "step l s")
    case (Goto l' s')
    with dec [OF Goto] Suc.prems have "length (fst s') < n" by simp
    from Suc.IH [OF this, of l'] Goto show ?thesis by simp
  qed simp
qed simp

lemma runs_run:
  assumes "\<And>l s l' s'. step l s = Goto l' s' \<Longrightarrow> length (fst s') < length (fst s)"
    and "runs step l s r" and "length (fst s) < n"
  shows "run step n l s = Some r"
proof -
  have "\<exists>r. run step n l s = Some r" by (rule run_enough) (use assms in auto)
  then obtain r' where r': "run step n l s = Some r'" by blast
  then have "runs step l s r'" unfolding runs_def by blast
  with assms(2) have "r' = r" by (rule runs_unique [symmetric])
  with r' show ?thesis by simp
qed

text \<open>What every setter of a parser keeps, the parser keeps.\<close>

fun out_msg :: "'m outcome \<Rightarrow> 'm" where
  "out_msg (Goto l s) = snd s"
| "out_msg (Return b s) = snd s"

lemma run_invariant:
  assumes "\<And>l s. I (snd s) \<Longrightarrow> I (out_msg (step l s))"
    and "run step n l s = Some (b, s')" and "I (snd s)"
  shows "I (snd s')"
  using assms(2,3)
proof (induction n arbitrary: l s)
  case (Suc n)
  from assms(1) [OF Suc.prems(2), of l] Suc show ?case by (auto split: outcome.splits)
qed simp

lemma out_expect_next [simp]: "out_msg (expect_next rt ts final s) = snd s"
  by (induction ts) (auto split: option.splits)

lemma out_read_varint:
  "(\<And>v. I (setter v (snd s))) \<Longrightarrow> I (snd s) \<Longrightarrow>
    I (out_msg (read_varint rd setter (expect_next rt ts final) s))"
  by (simp add: read_varint_def split: option.splits)

lemma out_read_delimited:
  "(\<And>v. I (setter v (snd s))) \<Longrightarrow> I (out_msg (read_delimited rd setter (expect_next rt ts final) s))"
  by (simp add: read_delimited_def split: prod.splits)

lemma out_merge_step:
  assumes "\<And>k s. I (snd s) \<Longrightarrow> I (out_msg (fld k s))" and "\<And>u m. I m \<Longrightarrow> I (upd u m)" and "I (snd s)"
  shows "I (out_msg (merge_step rt tbl fld upd unk l s))"
proof (cases l)
  case Loop
  obtain inp m where "s = (inp, m)" by (cases s)
  with assms Loop show ?thesis by (simp split: prod.splits)
qed (use assms in simp)

text \<open>Presence bits: a flag that is set or not, and masks of flags.\<close>

lemma bit_flag: "(if w AND 2 ^ k \<noteq> 0 then 2 ^ k else 0) = w AND (2 ^ k :: u32)"
proof -
  have "w AND 2 ^ k = (if bit w k then 2 ^ k else 0)"
    by (rule bit_word_eqI) (auto simp: bit_simps)
  then show ?thesis by auto
qed

lemma flag_eq: "b = 2 ^ k \<Longrightarrow> (if w AND b \<noteq> 0 then b else 0) = w AND (b :: u32)"
  by (simp only: bit_flag)

lemma flag_simps:
  fixes w :: u32
  shows "(if w AND 1 \<noteq> 0 then 1 else 0) = w AND 1"
    "(if w AND 2 \<noteq> 0 then 2 else 0) = w AND 2"
    "(if w AND 4 \<noteq> 0 then 4 else 0) = w AND 4"
    "(if w AND 8 \<noteq> 0 then 8 else 0) = w AND 8"
    "(if w AND 16 \<noteq> 0 then 16 else 0) = w AND 16"
    "(if w AND 32 \<noteq> 0 then 32 else 0) = w AND 32"
    "(if w AND 64 \<noteq> 0 then 64 else 0) = w AND 64"
    "(if w AND 128 \<noteq> 0 then 128 else 0) = w AND 128"
    "(if w AND 256 \<noteq> 0 then 256 else 0) = w AND 256"
    "(if w AND 512 \<noteq> 0 then 512 else 0) = w AND 512"
    "(if w AND 1024 \<noteq> 0 then 1024 else 0) = w AND 1024"
  by (rule flag_eq [where k = 0], simp, rule flag_eq [where k = 1], simp, rule flag_eq [where k = 2], simp, rule flag_eq [where k = 3], simp, rule flag_eq [where k = 4], simp, rule flag_eq [where k = 5], simp, rule flag_eq [where k = 6], simp, rule flag_eq [where k = 7], simp, rule flag_eq [where k = 8], simp, rule flag_eq [where k = 9], simp, rule flag_eq [where k = 10], simp)

lemma flags_join: "(w AND a) OR (w AND b) = w AND (a OR b :: u32)"
  by (simp add: bit.conj_disj_distrib)

lemma set_flag_mask: "w AND k = w \<Longrightarrow> b AND k = b \<Longrightarrow> (w OR b) AND k = w OR (b :: u32)"
  by (simp add: bit.conj_disj_distrib2)

lemma set_flag_other: "(w OR b) AND c = 0 \<longleftrightarrow> w AND c = 0 \<and> b AND c = (0 :: u32)"
  by (auto simp: bit_eq_iff bit_simps)

lemma mask_or: "w AND b = w \<Longrightarrow> w OR b = (b :: u32)"
  by (auto simp: bit_eq_iff bit_simps)

lemma mask_zero: "w AND a = 0 \<Longrightarrow> a AND b = b \<Longrightarrow> w AND b = (0 :: u32)"
  by (metis and.assoc bit.conj_zero_left)

lemma delimited_tag: "Suc (Suc (8 * f)) div 8 = f" "Suc (Suc (8 * f)) mod 8 = 2"
  by presburger+

section \<open>What the runtime promises\<close>

locale wire_format =
  fixes rt :: "'u wire_rt"
  assumes tag_number: "GetTagFieldNumber rt t = t div 8"
    and tag_type: "GetTagWireType rt t = t mod 8"
    and read_tag_end: "ReadTag rt [] = (0, [])"
    and read_tag_consumes: "ReadTag rt s = (t, s') \<Longrightarrow> t \<noteq> 0 \<Longrightarrow> length s' < length s"
    and read_tag_le: "ReadTag rt s = (t, s') \<Longrightarrow> length s' \<le> length s"
    and expect_tag: "ExpectTag rt t s = Some s' \<Longrightarrow> ReadTag rt s = (t, s')"
    and expect_at_end: "ExpectAtEnd rt s \<Longrightarrow> s = []"
    and read_int64_consumes: "ReadInt64 rt s = Some (v64, s') \<Longrightarrow> length s' < length s"
    and read_int32_consumes: "ReadInt32 rt s = Some (v32, s') \<Longrightarrow> length s' < length s"
    and read_string_consumes: "ReadString rt s = (True, d, s') \<Longrightarrow> length s' < length s"
    and read_bytes_consumes: "ReadBytes rt s = (True, d, s') \<Longrightarrow> length s' < length s"
    and skip_field_consumes: "SkipField rt t s u = (True, s', u') \<Longrightarrow> length s' \<le> length s"
    and int64_field: "0 < f \<Longrightarrow> f < 2 ^ 29 \<Longrightarrow>
      \<exists>s. ReadTag rt (WriteInt64ToArray rt f v64 @ r) = (8 * f, s) \<and> ReadInt64 rt s = Some (v64, r)"
    and int32_field: "0 < f \<Longrightarrow> f < 2 ^ 29 \<Longrightarrow>
      \<exists>s. ReadTag rt (WriteInt32ToArray rt f v32 @ r) = (8 * f, s) \<and> ReadInt32 rt s = Some (v32, r)"
    and string_field: "0 < f \<Longrightarrow> f < 2 ^ 29 \<Longrightarrow> length d < 2 ^ 31 \<Longrightarrow>
      \<exists>s. ReadTag rt (WriteStringToArray rt f d @ r) = (8 * f + 2, s) \<and> ReadString rt s = (True, d, r)"
    and bytes_field: "0 < f \<Longrightarrow> f < 2 ^ 29 \<Longrightarrow> length d < 2 ^ 31 \<Longrightarrow>
      \<exists>s. ReadTag rt (WriteBytesToArray rt f d @ r) = (8 * f + 2, s) \<and> ReadBytes rt s = (True, d, r)"
    and int64_size: "0 < f \<Longrightarrow> f < 16 \<Longrightarrow> length (WriteInt64ToArray rt f v64) = 1 + Int64Size rt v64"
    and int32_size: "0 < f \<Longrightarrow> f < 16 \<Longrightarrow> length (WriteInt32ToArray rt f v32) = 1 + Int32Size rt v32"
    and string_size: "0 < f \<Longrightarrow> f < 16 \<Longrightarrow> length d < 2 ^ 31 \<Longrightarrow>
      length (WriteStringToArray rt f d) = 1 + StringSize rt d"
    and bytes_size: "0 < f \<Longrightarrow> f < 16 \<Longrightarrow> length d < 2 ^ 31 \<Longrightarrow>
      length (WriteBytesToArray rt f d) = 1 + BytesSize rt d"
    and string_size_content: "length d < StringSize rt d"
    and bytes_size_content: "length d < BytesSize rt d"
    and unknown_clear_empty: "UnknownEmpty rt (UnknownClear rt)"
    and unknown_merge: "UnknownMerge rt (UnknownClear rt) u = u"
    and unknown_size: "length (SerializeUnknownFieldsToArray rt u) = ComputeUnknownFieldsSize rt u"
begin

text \<open>Looking ahead with \<open>ExpectTag\<close> is an optimisation: the result is that of going back to
  the head of the loop.\<close>

lemma expect_next_runs:
  assumes "\<forall>(t, k) \<in> set ts. t \<noteq> 0 \<and> t div 8 = k \<and> (k, t mod 8) \<in> set tbl"
    and "runs (merge_step rt tbl fld upd unk) Loop (inp, m) r"
  shows "outcome_runs (merge_step rt tbl fld upd unk) (expect_next rt ts final (inp, m)) r"
  using assms(1)
proof (induction ts)
  case Nil
  show ?case
  proof (cases "final \<and> ExpectAtEnd rt inp")
    case True
    then have "inp = []" by (simp add: expect_at_end)
    with assms(2) have "r = (True, [], m)" by (simp add: runs_step [of _ Loop] read_tag_end)
    with True \<open>inp = []\<close> show ?thesis by simp
  qed (use assms(2) in auto)
next
  case (Cons tk ts)
  obtain t k where tk: "tk = (t, k)" by (cases tk)
  show ?case
  proof (cases "ExpectTag rt t inp")
    case None
    with Cons tk show ?thesis by simp
  next
    case (Some inp')
    then have "ReadTag rt inp = (t, inp')" by (rule expect_tag)
    moreover from Cons.prems tk have "t \<noteq> 0" "t div 8 = k" "(k, t mod 8) \<in> set tbl" by auto
    ultimately have "merge_step rt tbl fld upd unk Loop (inp, m) = fld k (inp', m)"
      by (simp add: tag_number tag_type)
    with assms(2) have "outcome_runs (merge_step rt tbl fld upd unk) (fld k (inp', m)) r"
      by (simp add: runs_step [of _ Loop])
    with Some tk show ?thesis by (simp add: runs_step [of _ "Field k"])
  qed
qed

text \<open>The parser at an encoded field: the field is stored and the parser is back at the loop
  head, whatever look-ahead follows.\<close>

lemma int64_runs:
  assumes f: "0 < f" "f < 2 ^ 29" "(f, WIRETYPE_VARINT) \<in> set tbl"
    and fld: "fld f = read_varint (ReadInt64 rt) setter (expect_next rt ts final)"
    and ts: "\<forall>(t, k) \<in> set ts. t \<noteq> 0 \<and> t div 8 = k \<and> (k, t mod 8) \<in> set tbl"
    and r: "runs (merge_step rt tbl fld upd unk) Loop (rest, setter v m) r"
  shows "runs (merge_step rt tbl fld upd unk) Loop (WriteInt64ToArray rt f v @ rest, m) r"
proof -
  from int64_field [OF f(1,2)] obtain s
    where "ReadTag rt (WriteInt64ToArray rt f v @ rest) = (8 * f, s)"
      and "ReadInt64 rt s = Some (v, rest)" by blast
  with f fld expect_next_runs [OF ts r, of final] show ?thesis
    by (simp add: runs_step [of _ Loop] tag_number tag_type read_varint_def wiretype_defs)
qed

lemma int32_runs:
  assumes f: "0 < f" "f < 2 ^ 29" "(f, WIRETYPE_VARINT) \<in> set tbl"
    and fld: "fld f = read_varint (ReadInt32 rt) setter (expect_next rt ts final)"
    and ts: "\<forall>(t, k) \<in> set ts. t \<noteq> 0 \<and> t div 8 = k \<and> (k, t mod 8) \<in> set tbl"
    and r: "runs (merge_step rt tbl fld upd unk) Loop (rest, setter v m) r"
  shows "runs (merge_step rt tbl fld upd unk) Loop (WriteInt32ToArray rt f v @ rest, m) r"
proof -
  from int32_field [OF f(1,2)] obtain s
    where "ReadTag rt (WriteInt32ToArray rt f v @ rest) = (8 * f, s)"
      and "ReadInt32 rt s = Some (v, rest)" by blast
  with f fld expect_next_runs [OF ts r, of final] show ?thesis
    by (simp add: runs_step [of _ Loop] tag_number tag_type read_varint_def wiretype_defs)
qed

lemma string_runs:
  assumes f: "0 < f" "f < 2 ^ 29" "(f, WIRETYPE_LENGTH_DELIMITED) \<in> set tbl" and d: "length d < 2 ^ 31"
    and fld: "fld f = read_delimited (ReadString rt) setter (expect_next rt ts final)"
    and ts: "\<forall>(t, k) \<in> set ts. t \<noteq> 0 \<and> t div 8 = k \<and> (k, t mod 8) \<in> set tbl"
    and r: "runs (merge_step rt tbl fld upd unk) Loop (rest, setter d m) r"
  shows "runs (merge_step rt tbl fld upd unk) Loop (WriteStringToArray rt f d @ rest, m) r"
proof -
  from string_field [OF f(1,2) d] obtain s
    where "ReadTag rt (WriteStringToArray rt f d @ rest) = (8 * f + 2, s)"
      and "ReadString rt s = (True, d, rest)" by blast
  with f fld expect_next_runs [OF ts r, of final] show ?thesis
    by (simp add: runs_step [of _ Loop] tag_number tag_type read_delimited_def wiretype_defs
        delimited_tag)
qed

lemma bytes_runs:
  assumes f: "0 < f" "f < 2 ^ 29" "(f, WIRETYPE_LENGTH_DELIMITED) \<in> set tbl" and d: "length d < 2 ^ 31"
    and fld: "fld f = read_delimited (ReadBytes rt) setter (expect_next rt ts final)"
    and ts: "\<forall>(t, k) \<in> set ts. t \<noteq> 0 \<and> t div 8 = k \<and> (k, t mod 8) \<in> set tbl"
    and r: "runs (merge_step rt tbl fld upd unk) Loop (rest, setter d m) r"
  shows "runs (merge_step rt tbl fld upd unk) Loop (WriteBytesToArray rt f d @ rest, m) r"
proof -
  from bytes_field [OF f(1,2) d] obtain s
    where "ReadTag rt (WriteBytesToArray rt f d @ rest) = (8 * f + 2, s)"
      and "ReadBytes rt s = (True, d, rest)" by blast
  with f fld expect_next_runs [OF ts r, of final] show ?thesis
    by (simp add: runs_step [of _ Loop] tag_number tag_type read_delimited_def wiretype_defs
        delimited_tag)
qed

lemma end_runs: "m = m' \<Longrightarrow> runs (merge_step rt tbl fld upd unk) Loop ([], m) (True, [], m')"
  by (simp add: runs_step [of _ Loop] read_tag_end)

text \<open>The same for a field that is written only when it is set, and for a repeated field.\<close>

lemma opt_int64_runs:
  assumes "0 < f" "f < 2 ^ 29" "(f, WIRETYPE_VARINT) \<in> set tbl"
    and "fld f = read_varint (ReadInt64 rt) setter (expect_next rt ts final)"
    and "\<forall>(t, k) \<in> set ts. t \<noteq> 0 \<and> t div 8 = k \<and> (k, t mod 8) \<in> set tbl"
    and "runs (merge_step rt tbl fld upd unk) Loop (rest, if_set h (setter v) m) r"
  shows "runs (merge_step rt tbl fld upd unk) Loop
    ((if h then WriteInt64ToArray rt f v else []) @ rest, m) r"
  using assms int64_runs [where fld = fld, OF assms(1-5)] by (cases h) (simp_all add: if_set_def)

lemma opt_int32_runs:
  assumes "0 < f" "f < 2 ^ 29" "(f, WIRETYPE_VARINT) \<in> set tbl"
    and "fld f = read_varint (ReadInt32 rt) setter (expect_next rt ts final)"
    and "\<forall>(t, k) \<in> set ts. t \<noteq> 0 \<and> t div 8 = k \<and> (k, t mod 8) \<in> set tbl"
    and "runs (merge_step rt tbl fld upd unk) Loop (rest, if_set h (setter v) m) r"
  shows "runs (merge_step rt tbl fld upd unk) Loop
    ((if h then WriteInt32ToArray rt f v else []) @ rest, m) r"
  using assms int32_runs [where fld = fld, OF assms(1-5)] by (cases h) (simp_all add: if_set_def)

lemma opt_string_runs:
  assumes "0 < f" "f < 2 ^ 29" "(f, WIRETYPE_LENGTH_DELIMITED) \<in> set tbl" and "length d < 2 ^ 31"
    and "fld f = read_delimited (ReadString rt) setter (expect_next rt ts final)"
    and "\<forall>(t, k) \<in> set ts. t \<noteq> 0 \<and> t div 8 = k \<and> (k, t mod 8) \<in> set tbl"
    and "runs (merge_step rt tbl fld upd unk) Loop (rest, if_set h (setter d) m) r"
  shows "runs (merge_step rt tbl fld upd unk) Loop
    ((if h then WriteStringToArray rt f d else []) @ rest, m) r"
  using assms string_runs [where fld = fld, OF assms(1-6)] by (cases h) (simp_all add: if_set_def)

lemma opt_bytes_runs:
  assumes "0 < f" "f < 2 ^ 29" "(f, WIRETYPE_LENGTH_DELIMITED) \<in> set tbl" and "length d < 2 ^ 31"
    and "fld f = read_delimited (ReadBytes rt) setter (expect_next rt ts final)"
    and "\<forall>(t, k) \<in> set ts. t \<noteq> 0 \<and> t div 8 = k \<and> (k, t mod 8) \<in> set tbl"
    and "runs (merge_step rt tbl fld upd unk) Loop (rest, if_set h (setter d) m) r"
  shows "runs (merge_step rt tbl fld upd unk) Loop
    ((if h then WriteBytesToArray rt f d else []) @ rest, m) r"
  using assms bytes_runs [where fld = fld, OF assms(1-6)] by (cases h) (simp_all add: if_set_def)

lemma rep_string_runs:
  assumes f: "0 < f" "f < 2 ^ 29" "(f, WIRETYPE_LENGTH_DELIMITED) \<in> set tbl"
    and ds: "\<forall>d \<in> set ds. length d < 2 ^ 31"
    and fld: "fld f = read_delimited (ReadString rt) setter (expect_next rt ts final)"
    and ts: "\<forall>(t, k) \<in> set ts. t \<noteq> 0 \<and> t div 8 = k \<and> (k, t mod 8) \<in> set tbl"
    and r: "runs (merge_step rt tbl fld upd unk) Loop (rest, fold setter ds m) r"
  shows "runs (merge_step rt tbl fld upd unk) Loop
    (concat (map (WriteStringToArray rt f) ds) @ rest, m) r"
  using ds r
proof (induction ds arbitrary: m)
  case (Cons d ds)
  then have "runs (merge_step rt tbl fld upd unk) Loop
      (concat (map (WriteStringToArray rt f) ds) @ rest, setter d m) r" by simp
  from string_runs [OF f _ fld ts this] Cons.prems show ?case by simp
qed simp

lemma rep_bytes_runs:
  assumes f: "0 < f" "f < 2 ^ 29" "(f, WIRETYPE_LENGTH_DELIMITED) \<in> set tbl"
    and ds: "\<forall>d \<in> set ds. length d < 2 ^ 31"
    and fld: "fld f = read_delimited (ReadBytes rt) setter (expect_next rt ts final)"
    and ts: "\<forall>(t, k) \<in> set ts. t \<noteq> 0 \<and> t div 8 = k \<and> (k, t mod 8) \<in> set tbl"
    and r: "runs (merge_step rt tbl fld upd unk) Loop (rest, fold setter ds m) r"
  shows "runs (merge_step rt tbl fld upd unk) Loop
    (concat (map (WriteBytesToArray rt f) ds) @ rest, m) r"
  using ds r
proof (induction ds arbitrary: m)
  case (Cons d ds)
  then have "runs (merge_step rt tbl fld upd unk) Loop
      (concat (map (WriteBytesToArray rt f) ds) @ rest, setter d m) r" by simp
  from bytes_runs [OF f _ fld ts this] Cons.prems show ?case by simp
qed simp

lemma rep_string_size:
  "0 < f \<Longrightarrow> f < 16 \<Longrightarrow> \<forall>d \<in> set ds. length d < 2 ^ 31 \<Longrightarrow>
    length (concat (map (WriteStringToArray rt f) ds)) = length ds + sum_list (map (StringSize rt) ds)"
  by (induction ds) (simp_all add: string_size)

lemma rep_bytes_size:
  "0 < f \<Longrightarrow> f < 16 \<Longrightarrow> \<forall>d \<in> set ds. length d < 2 ^ 31 \<Longrightarrow>
    length (concat (map (WriteBytesToArray rt f) ds)) = length ds + sum_list (map (BytesSize rt) ds)"
  by (induction ds) (simp_all add: bytes_size)

text \<open>Every jump of a parser built from these parts has consumed input.\<close>

lemma expect_next_le:
  "expect_next rt ts final s = Goto l' s' \<Longrightarrow> length (fst s') \<le> length (fst s)"
proof (induction ts)
  case Nil
  then show ?case by (auto split: if_splits)
next
  case (Cons tk ts)
  then show ?case
    by (cases tk) (auto split: option.splits dest: expect_tag [THEN read_tag_le])
qed

lemma read_varint_dec:
  assumes "\<And>s l' s'. next s = Goto l' s' \<Longrightarrow> length (fst s') \<le> length (fst s)"
    and "\<And>s v s'. rd s = Some (v, s') \<Longrightarrow> length s' < length s"
    and "read_varint rd setter next s = Goto l' s'"
  shows "length (fst s') < length (fst s)"
  using assms(3) by (auto simp: read_varint_def split: option.splits dest!: assms(1,2))

lemma read_delimited_dec:
  assumes "\<And>s l' s'. next s = Goto l' s' \<Longrightarrow> length (fst s') \<le> length (fst s)"
    and "\<And>s v s'. rd s = (True, v, s') \<Longrightarrow> length s' < length s"
    and "read_delimited rd setter next s = Goto l' s'"
  shows "length (fst s') < length (fst s)"
  using assms(3) by (auto simp: read_delimited_def split: prod.splits if_splits dest!: assms(1,2))

lemma merge_step_dec:
  assumes fld: "\<And>k s l' s'. fld k s = Goto l' s' \<Longrightarrow> length (fst s') < length (fst s)"
    and st: "merge_step rt tbl fld upd unk l s = Goto l' s'"
  shows "length (fst s') < length (fst s)"
proof (cases l)
  case Loop
  obtain inp m where s: "s = (inp, m)" by (cases s)
  obtain tag inp' where t: "ReadTag rt inp = (tag, inp')" by (cases "ReadTag rt inp")
  with st Loop s have "tag \<noteq> 0" by (auto split: if_splits)
  with t have "length inp' < length inp" by (rule read_tag_consumes)
  with st Loop s t fld show ?thesis
    by (fastforce split: if_splits prod.splits dest: skip_field_consumes)
qed (use fld st in simp)

lemma field_dec:
  "read_varint (ReadInt64 rt) set64 (expect_next rt ts final) s = Goto l' s' \<Longrightarrow>
      length (fst s') < length (fst s)"
  "read_varint (ReadInt32 rt) set32 (expect_next rt ts final) s = Goto l' s' \<Longrightarrow>
      length (fst s') < length (fst s)"
  "read_delimited (ReadString rt) sets (expect_next rt ts final) s = Goto l' s' \<Longrightarrow>
      length (fst s') < length (fst s)"
  "read_delimited (ReadBytes rt) sets (expect_next rt ts final) s = Goto l' s' \<Longrightarrow>
      length (fst s') < length (fst s)"
  by (erule read_varint_dec [OF expect_next_le read_int64_consumes, rotated -1]
        read_varint_dec [OF expect_next_le read_int32_consumes, rotated -1]
        read_delimited_dec [OF expect_next_le read_string_consumes, rotated -1]
        read_delimited_dec [OF expect_next_le read_bytes_consumes, rotated -1], assumption+)+

end

section \<open>The documented encoding\<close>

text \<open>Base-128 varints, least significant group first; at most ten bytes.\<close>

fun enc_varint :: "nat \<Rightarrow> bytes" where
  "enc_varint n =
     (if n < 128 then [of_nat n] else of_nat (n mod 128 + 128) # enc_varint (n div 128))"

declare enc_varint.simps [simp del]

fun dec_varint :: "nat \<Rightarrow> bytes \<Rightarrow> (nat \<times> bytes) option" where
  "dec_varint 0 bs = None"
| "dec_varint (Suc k) [] = None"
| "dec_varint (Suc k) (b # bs) =
     (if unat b < 128 then Some (unat b, bs)
      else (case dec_varint k bs of
              None \<Rightarrow> None
            | Some (n, r) \<Rightarrow> Some (unat b - 128 + 128 * n, r)))"

definition read_len :: "bytes \<Rightarrow> bool \<times> bytes \<times> bytes" where
  "read_len s =
     (case dec_varint 10 s of
        None \<Rightarrow> (False, [], s)
      | Some (n, r) \<Rightarrow> if n \<le> length r then (True, take n r, drop n r) else (False, [], r))"

definition read_tag :: "bytes \<Rightarrow> nat \<times> bytes" where
  "read_tag s = (case dec_varint 10 s of None \<Rightarrow> (0, s) | Some (t, r) \<Rightarrow> (t mod 2 ^ 32, r))"

definition skip_len :: "nat \<Rightarrow> bytes \<Rightarrow> bytes option" where
  "skip_len n s = (if n \<le> length s then Some (drop n s) else None)"

text \<open>Unknown fields are kept as they came. Groups, long deprecated, are refused.\<close>

definition skip_field :: "nat \<Rightarrow> bytes \<Rightarrow> bytes \<Rightarrow> bool \<times> bytes \<times> bytes" where
  "skip_field t s u =
     (let rest = (if t mod 8 = 0 then map_option snd (dec_varint 10 s)
                  else if t mod 8 = 1 then skip_len 8 s
                  else if t mod 8 = 2 then (case read_len s of (ok, _, r) \<Rightarrow> if ok then Some r else None)
                  else if t mod 8 = 5 then skip_len 4 s
                  else None)
      in case rest of
           None \<Rightarrow> (False, s, u)
         | Some r \<Rightarrow> (True, r, u @ enc_varint t @ take (length s - length r) s))"

definition enc_len :: "nat \<Rightarrow> bytes \<Rightarrow> bytes" where
  "enc_len f d = enc_varint (8 * f + 2) @ enc_varint (length d) @ d"

definition std_wire :: "bytes wire_rt" where
  "std_wire =
     \<lparr>ReadTag = read_tag,
      GetTagFieldNumber = (\<lambda>t. t div 8),
      GetTagWireType = (\<lambda>t. t mod 8),
      ExpectTag = (\<lambda>t s. case read_tag s of (t', r) \<Rightarrow> if t' = t then Some r else None),
      ExpectAtEnd = (\<lambda>s. s = []),
      ReadInt64 = (\<lambda>s. map_option (apfst of_nat) (dec_varint 10 s)),
      ReadInt32 = (\<lambda>s. map_option (apfst of_nat) (dec_varint 10 s)),
      ReadString = read_len,
      ReadBytes = read_len,
      SkipField = skip_field,
      WriteInt64ToArray = (\<lambda>f v. enc_varint (8 * f) @ enc_varint (unat v)),
      WriteInt32ToArray = (\<lambda>f v. enc_varint (8 * f) @ enc_varint (unat (signed v :: u64))),
      WriteStringToArray = enc_len,
      WriteBytesToArray = enc_len,
      Int64Size = (\<lambda>v. length (enc_varint (unat v))),
      Int32Size = (\<lambda>v. length (enc_varint (unat (signed v :: u64)))),
      StringSize = (\<lambda>d. length (enc_varint (length d)) + length d),
      BytesSize = (\<lambda>d. length (enc_varint (length d)) + length d),
      UnknownClear = [],
      UnknownEmpty = (\<lambda>u. u = []),
      UnknownMerge = (\<lambda>u v. u @ v),
      SerializeUnknownFieldsToArray = (\<lambda>u. u),
      ComputeUnknownFieldsSize = length\<rparr>"

lemma enc_varint_ne: "enc_varint n \<noteq> []"
  by (simp add: enc_varint.simps)

lemma dec_enc_varint: "n < 128 ^ k \<Longrightarrow> 0 < k \<Longrightarrow> dec_varint k (enc_varint n @ r) = Some (n, r)"
proof (induction n arbitrary: k rule: enc_varint.induct)
  case (1 n)
  show ?case
  proof (cases "n < 128")
    case True
    with "1.prems" obtain k' where "k = Suc k'" by (cases k) auto
    with True show ?thesis by (simp add: enc_varint.simps [of n] unat_of_nat)
  next
    case False
    with "1.prems" obtain k' where k: "k = Suc k'" by (cases k) auto
    with "1.prems" have "n div 128 < 128 ^ k'" by (simp add: less_mult_imp_div_less mult.commute)
    moreover have "0 < k'" using "1.prems" k False by (cases k') auto
    ultimately have ih: "dec_varint k' (enc_varint (n div 128) @ r) = Some (n div 128, r)"
      using "1.IH" False by simp
    have u: "unat (of_nat (n mod 128 + 128) :: byte) = n mod 128 + 128"
      by (subst unat_of_nat) simp
    show ?thesis
      unfolding enc_varint.simps [of n] using False k ih u by simp
  qed
qed

lemma dec_varint_Nil: "dec_varint k [] = None"
  by (cases k) auto

lemma dec_varint_consumes: "dec_varint k s = Some (n, r) \<Longrightarrow> length r < length s"
proof (induction k s arbitrary: n rule: dec_varint.induct)
  case (3 k b bs)
  then show ?case by (fastforce split: if_splits option.splits)
qed auto

lemma dec_enc_64: "dec_varint 10 (enc_varint (unat (v :: u64)) @ r) = Some (unat v, r)"
  by (rule dec_enc_varint, rule less_le_trans [OF unsigned_less]) simp_all

lemma read_tag_enc: "t < 2 ^ 32 \<Longrightarrow> read_tag (enc_varint t @ r) = (t, r)"
  by (simp add: read_tag_def dec_enc_varint)

lemma read_len_enc: "length d < 2 ^ 31 \<Longrightarrow> read_len (enc_varint (length d) @ d @ r) = (True, d, r)"
  by (simp add: read_len_def dec_enc_varint)

lemma read_len_consumes: "read_len s = (True, d, r) \<Longrightarrow> length r < length s"
  by (auto simp: read_len_def split: option.splits if_splits dest!: dec_varint_consumes)

lemma enc_varint_tag: "t < 128 \<Longrightarrow> length (enc_varint t) = 1"
  by (simp add: enc_varint.simps)

lemma skip_field_le: "skip_field t s u = (True, r, u') \<Longrightarrow> length r \<le> length s"
  by (auto simp: skip_field_def skip_len_def Let_def split: option.splits if_splits prod.splits
      dest!: dec_varint_consumes read_len_consumes)

interpretation std: wire_format std_wire
proof unfold_locales
  fix f :: nat and r :: bytes
  assume f: "0 < f" "f < 2 ^ 29"
  then have t: "8 * f < 2 ^ 32" "8 * f + 2 < 2 ^ 32" by simp_all
  show "\<exists>s. ReadTag std_wire (WriteInt64ToArray std_wire f v @ r) = (8 * f, s)
      \<and> ReadInt64 std_wire s = Some (v, r)" for v
    using t by (simp add: std_wire_def read_tag_enc dec_enc_64)
  show "\<exists>s. ReadTag std_wire (WriteInt32ToArray std_wire f v @ r) = (8 * f, s)
      \<and> ReadInt32 std_wire s = Some (v, r)" for v
  proof -
    have "of_nat (unat (signed v :: u64)) = v"
      by (simp, rule bit_word_eqI) (simp add: bit_simps)
    with t show ?thesis by (simp add: std_wire_def read_tag_enc dec_enc_64)
  qed
  fix d :: bytes
  assume "length d < 2 ^ 31"
  with t show "\<exists>s. ReadTag std_wire (WriteStringToArray std_wire f d @ r) = (8 * f + 2, s)
      \<and> ReadString std_wire s = (True, d, r)"
    and "\<exists>s. ReadTag std_wire (WriteBytesToArray std_wire f d @ r) = (8 * f + 2, s)
      \<and> ReadBytes std_wire s = (True, d, r)"
    by (simp_all add: std_wire_def enc_len_def read_tag_enc read_len_enc del: add_2_eq_Suc')
qed (auto simp: std_wire_def read_tag_def enc_len_def enc_varint_tag enc_varint_ne skip_field_le
    read_len_consumes dec_varint_consumes less_imp_le [OF dec_varint_consumes] dec_varint_Nil
    split: option.splits prod.splits if_splits)

end
