(* ===== verification/Comet_Pb_Login.thy ===== *)
theory Comet_Pb_Login
  imports Pb_Wire
begin

text \<open>
  The messages between the clients and the server: \<open>C2SLogin\<close>, \<open>S2CLogin\<close> and \<open>OnlineStatus\<close>
  of \<open>src/core/comet.pb.cc\<close> and \<open>comet.pb.h\<close>. A message is a record of its fields with the word of
  presence bits, the unknown fields and the cached size; \<open>_new\<close> is the constructor, the accessors
  and the member functions keep their names. \<open>ByteSize\<close> also returns the message with the cached
  size it stores. Integer fields are the two's-complement words of the C++ types.

  For every message: the class invariant holds of a new message, \<open>Clear\<close> gives back a new message,
  \<open>ByteSize\<close> is the length of what \<open>SerializeWithCachedSizesToArray\<close> writes, the parser returns on
  every input, and parsing what was serialised gives the message back.
\<close>

section \<open>\<open>C2SLogin\<close>\<close>

record 'u C2SLogin =
  C2SLogin_id :: "u64"
  C2SLogin_token :: "bytes"
  C2SLogin_user_agent :: "bytes"
  C2SLogin_has_bits :: u32
  C2SLogin_unknown_fields :: 'u
  C2SLogin_cached_size :: nat

definition C2SLogin_new :: "'u wire_rt \<Rightarrow> 'u C2SLogin" where
  "C2SLogin_new rt =
    \<lparr>C2SLogin_id = 0, C2SLogin_token = [], C2SLogin_user_agent = [],
     C2SLogin_has_bits = 0, C2SLogin_unknown_fields = UnknownClear rt, C2SLogin_cached_size = 0\<rparr>"

definition C2SLogin_has_id :: "'u C2SLogin \<Rightarrow> bool" where
  "C2SLogin_has_id m \<longleftrightarrow> C2SLogin_has_bits m AND 1 \<noteq> 0"

definition C2SLogin_set_id :: "u64 \<Rightarrow> 'u C2SLogin \<Rightarrow> 'u C2SLogin" where
  "C2SLogin_set_id v m = m\<lparr>C2SLogin_has_bits := C2SLogin_has_bits m OR 1, C2SLogin_id := v\<rparr>"

definition C2SLogin_has_token :: "'u C2SLogin \<Rightarrow> bool" where
  "C2SLogin_has_token m \<longleftrightarrow> C2SLogin_has_bits m AND 2 \<noteq> 0"

definition C2SLogin_set_token :: "bytes \<Rightarrow> 'u C2SLogin \<Rightarrow> 'u C2SLogin" where
  "C2SLogin_set_token v m = m\<lparr>C2SLogin_has_bits := C2SLogin_has_bits m OR 2, C2SLogin_token := v\<rparr>"

definition C2SLogin_has_user_agent :: "'u C2SLogin \<Rightarrow> bool" where
  "C2SLogin_has_user_agent m \<longleftrightarrow> C2SLogin_has_bits m AND 4 \<noteq> 0"

definition C2SLogin_set_user_agent :: "bytes \<Rightarrow> 'u C2SLogin \<Rightarrow> 'u C2SLogin" where
  "C2SLogin_set_user_agent v m = m\<lparr>C2SLogin_has_bits := C2SLogin_has_bits m OR 4, C2SLogin_user_agent := v\<rparr>"

definition C2SLogin_Clear :: "'u wire_rt \<Rightarrow> 'u C2SLogin \<Rightarrow> 'u C2SLogin" where
  "C2SLogin_Clear rt m =
    (let m = (if C2SLogin_has_bits m AND 255 \<noteq> 0 then m\<lparr>C2SLogin_id := 0,
             C2SLogin_token := if C2SLogin_has_token m then [] else C2SLogin_token m,
             C2SLogin_user_agent := if C2SLogin_has_user_agent m then [] else C2SLogin_user_agent m\<rparr> else m)
     in m\<lparr>C2SLogin_has_bits := 0, C2SLogin_unknown_fields := UnknownClear rt\<rparr>)"

definition C2SLogin_field :: "'u wire_rt \<Rightarrow> nat \<Rightarrow> bytes \<times> 'u C2SLogin \<Rightarrow> ('u C2SLogin) outcome" where
  "C2SLogin_field rt k =
    (if k = 1 then read_varint (ReadInt64 rt) C2SLogin_set_id
       (expect_next rt [(18, 2)] False)
     else if k = 2 then read_delimited (ReadString rt) C2SLogin_set_token
       (expect_next rt [(26, 3)] False)
     else if k = 3 then read_delimited (ReadString rt) C2SLogin_set_user_agent
       (expect_next rt [] True)
     else Return False)"

definition C2SLogin_step :: "'u wire_rt \<Rightarrow> label \<Rightarrow> bytes \<times> 'u C2SLogin \<Rightarrow> ('u C2SLogin) outcome" where
  "C2SLogin_step rt = merge_step rt
    [(1, WIRETYPE_VARINT), (2, WIRETYPE_LENGTH_DELIMITED), (3, WIRETYPE_LENGTH_DELIMITED)]
    (C2SLogin_field rt) C2SLogin_unknown_fields_update C2SLogin_unknown_fields"

definition C2SLogin_MergePartialFromCodedStream :: "'u wire_rt \<Rightarrow> bytes \<times> 'u C2SLogin \<Rightarrow> (bool \<times> bytes \<times> 'u C2SLogin) option" where
  "C2SLogin_MergePartialFromCodedStream rt s = run (C2SLogin_step rt) (Suc (length (fst s))) Loop s"

definition C2SLogin_SerializeWithCachedSizesToArray :: "'u wire_rt \<Rightarrow> 'u C2SLogin \<Rightarrow> bytes" where
  "C2SLogin_SerializeWithCachedSizesToArray rt m =
     (if C2SLogin_has_id m then WriteInt64ToArray rt 1 (C2SLogin_id m) else []) @
     (if C2SLogin_has_token m then WriteStringToArray rt 2 (C2SLogin_token m) else []) @
     (if C2SLogin_has_user_agent m then WriteStringToArray rt 3 (C2SLogin_user_agent m) else []) @
     (if \<not> UnknownEmpty rt (C2SLogin_unknown_fields m) then SerializeUnknownFieldsToArray rt (C2SLogin_unknown_fields m) else [])"

definition C2SLogin_ByteSize :: "'u wire_rt \<Rightarrow> 'u C2SLogin \<Rightarrow> nat \<times> 'u C2SLogin" where
  "C2SLogin_ByteSize rt m =
    (let total_size =
         (if C2SLogin_has_bits m AND 255 \<noteq> 0 then
           (if C2SLogin_has_id m then 1 + Int64Size rt (C2SLogin_id m) else 0) +
           (if C2SLogin_has_token m then 1 + StringSize rt (C2SLogin_token m) else 0) +
           (if C2SLogin_has_user_agent m then 1 + StringSize rt (C2SLogin_user_agent m) else 0)
         else 0) +
         (if \<not> UnknownEmpty rt (C2SLogin_unknown_fields m) then ComputeUnknownFieldsSize rt (C2SLogin_unknown_fields m) else 0)
     in (total_size, m\<lparr>C2SLogin_cached_size := total_size\<rparr>))"

definition C2SLogin_MergeFrom :: "'u wire_rt \<Rightarrow> 'u C2SLogin \<Rightarrow> 'u C2SLogin \<Rightarrow> 'u C2SLogin" where
  "C2SLogin_MergeFrom rt src m =
    (let m = if_set (C2SLogin_has_bits src AND 255 \<noteq> 0) (\<lambda>m.
           let m = if_set (C2SLogin_has_id src) (C2SLogin_set_id (C2SLogin_id src)) m;
               m = if_set (C2SLogin_has_token src) (C2SLogin_set_token (C2SLogin_token src)) m;
               m = if_set (C2SLogin_has_user_agent src) (C2SLogin_set_user_agent (C2SLogin_user_agent src)) m
           in m) m
     in C2SLogin_unknown_fields_update (\<lambda>u. UnknownMerge rt u (C2SLogin_unknown_fields src)) m)"

definition C2SLogin_CopyFrom :: "'u wire_rt \<Rightarrow> 'u C2SLogin \<Rightarrow> 'u C2SLogin \<Rightarrow> 'u C2SLogin" where
  "C2SLogin_CopyFrom rt src m = C2SLogin_MergeFrom rt src (C2SLogin_Clear rt m)"

definition C2SLogin_IsInitialized :: "'u C2SLogin \<Rightarrow> bool" where
  "C2SLogin_IsInitialized m \<longleftrightarrow> C2SLogin_has_bits m AND 3 = 3"

text \<open>The class invariant: no presence bit beyond the fields, and a field that is not present
  holds its default.\<close>

definition C2SLogin_wf :: "'u C2SLogin \<Rightarrow> bool" where
  "C2SLogin_wf m \<longleftrightarrow>
     C2SLogin_has_bits m AND 7 = C2SLogin_has_bits m \<and>
     (\<not> C2SLogin_has_id m \<longrightarrow> C2SLogin_id m = 0) \<and>
     (\<not> C2SLogin_has_token m \<longrightarrow> C2SLogin_token m = []) \<and>
     (\<not> C2SLogin_has_user_agent m \<longrightarrow> C2SLogin_user_agent m = [])"

definition C2SLogin_short :: "'u C2SLogin \<Rightarrow> bool" where
  "C2SLogin_short m \<longleftrightarrow> length (C2SLogin_token m) < 2 ^ 31 \<and> length (C2SLogin_user_agent m) < 2 ^ 31"

lemmas C2SLogin_accessors =
  C2SLogin_has_id_def C2SLogin_has_token_def C2SLogin_has_user_agent_def C2SLogin_set_id_def C2SLogin_set_token_def C2SLogin_set_user_agent_def

lemma C2SLogin_block0:
  assumes "C2SLogin_has_bits m AND 255 = 0"
  shows "\<not> C2SLogin_has_id m" "\<not> C2SLogin_has_token m" "\<not> C2SLogin_has_user_agent m"
  using mask_zero [OF assms] by (simp_all add: C2SLogin_accessors)

lemma C2SLogin_opt_id:
  "if_set h (C2SLogin_set_id v) m =
    C2SLogin_has_bits_update (\<lambda>b. b OR (if h then 1 else 0))
      (C2SLogin_id_update (\<lambda>x. if h then v else x) m)"
  by (cases h) (simp_all add: C2SLogin_accessors)

lemma C2SLogin_opt_token:
  "if_set h (C2SLogin_set_token v) m =
    C2SLogin_has_bits_update (\<lambda>b. b OR (if h then 2 else 0))
      (C2SLogin_token_update (\<lambda>x. if h then v else x) m)"
  by (cases h) (simp_all add: C2SLogin_accessors)

lemma C2SLogin_opt_user_agent:
  "if_set h (C2SLogin_set_user_agent v) m =
    C2SLogin_has_bits_update (\<lambda>b. b OR (if h then 4 else 0))
      (C2SLogin_user_agent_update (\<lambda>x. if h then v else x) m)"
  by (cases h) (simp_all add: C2SLogin_accessors)

lemmas C2SLogin_opts =
  C2SLogin_opt_id C2SLogin_opt_token C2SLogin_opt_user_agent

lemma C2SLogin_absent:
  assumes "C2SLogin_wf m"
  shows "(if C2SLogin_has_id m then C2SLogin_id m else 0) = C2SLogin_id m"
    "(if C2SLogin_has_token m then C2SLogin_token m else []) = C2SLogin_token m"
    "(if C2SLogin_has_user_agent m then C2SLogin_user_agent m else []) = C2SLogin_user_agent m"
  using assms by (simp_all add: C2SLogin_wf_def)

lemma C2SLogin_bits:
  assumes "C2SLogin_wf m"
  shows "((if C2SLogin_has_id m then 1 else 0) OR
    (if C2SLogin_has_token m then 2 else 0)) OR
    (if C2SLogin_has_user_agent m then 4 else 0) = C2SLogin_has_bits m"
proof -
  have "((if C2SLogin_has_id m then 1 else 0) OR
    (if C2SLogin_has_token m then 2 else 0)) OR
    (if C2SLogin_has_user_agent m then 4 else 0) = C2SLogin_has_bits m AND 7"
    unfolding C2SLogin_accessors by (simp add: flag_simps flags_join split del: if_split)
  also have "\<dots> = C2SLogin_has_bits m" using assms by (simp add: C2SLogin_wf_def)
  finally show ?thesis .
qed

lemma C2SLogin_wf_set [simp, intro]:
  assumes "C2SLogin_wf m"
  shows "C2SLogin_wf (C2SLogin_set_id v0 m)"
    "C2SLogin_wf (C2SLogin_set_token v1 m)"
    "C2SLogin_wf (C2SLogin_set_user_agent v2 m)"
  using assms
  by (simp_all add: C2SLogin_wf_def C2SLogin_accessors set_flag_mask set_flag_other mask_or)

lemma C2SLogin_wf_unknown [simp, intro]: "C2SLogin_wf m \<Longrightarrow> C2SLogin_wf (C2SLogin_unknown_fields_update u m)"
  by (simp add: C2SLogin_wf_def C2SLogin_accessors)

lemma C2SLogin_wf_size [simp, intro]: "C2SLogin_wf m \<Longrightarrow> C2SLogin_wf (C2SLogin_cached_size_update u m)"
  by (simp add: C2SLogin_wf_def C2SLogin_accessors)

lemma C2SLogin_wf_parse:
  assumes "C2SLogin_MergePartialFromCodedStream rt s = Some (ok, s')" and "C2SLogin_wf (snd s)"
  shows "C2SLogin_wf (snd s')"
  using assms unfolding C2SLogin_MergePartialFromCodedStream_def C2SLogin_step_def
  by (rule run_invariant [where I = C2SLogin_wf, rotated])
    (rule out_merge_step [where I = C2SLogin_wf], auto simp: C2SLogin_field_def
      intro!: out_read_varint [where I = C2SLogin_wf] out_read_delimited [where I = C2SLogin_wf])

lemma C2SLogin_wf_new [simp, intro]: "C2SLogin_wf (C2SLogin_new rt)"
  by (simp add: C2SLogin_wf_def C2SLogin_new_def C2SLogin_accessors)

lemma C2SLogin_Clear_new:
  assumes "C2SLogin_wf m"
  shows "C2SLogin_Clear rt m = (C2SLogin_new rt)\<lparr>C2SLogin_cached_size := C2SLogin_cached_size m\<rparr>"
  using assms
  by (cases "C2SLogin_has_bits m AND 255 = 0"; intro C2SLogin.equality;
      simp add: C2SLogin_Clear_def C2SLogin_new_def C2SLogin_wf_def C2SLogin_block0 Let_def)

text \<open>The test of a whole block of presence bits is an optimisation.\<close>

lemma C2SLogin_MergeFrom_eq:
  "C2SLogin_MergeFrom rt src m =
    (let m = if_set (C2SLogin_has_id src) (C2SLogin_set_id (C2SLogin_id src)) m;
         m = if_set (C2SLogin_has_token src) (C2SLogin_set_token (C2SLogin_token src)) m;
         m = if_set (C2SLogin_has_user_agent src) (C2SLogin_set_user_agent (C2SLogin_user_agent src)) m
     in C2SLogin_unknown_fields_update (\<lambda>u. UnknownMerge rt u (C2SLogin_unknown_fields src)) m)"
  by (cases "C2SLogin_has_bits src AND 255 = 0")
    (simp_all add: C2SLogin_MergeFrom_def Let_def C2SLogin_block0 split del: if_split)

context wire_format
begin

lemma C2SLogin_dec: "C2SLogin_step rt l s = Goto l' s' \<Longrightarrow> length (fst s') < length (fst s)"
  unfolding C2SLogin_step_def
  by (erule merge_step_dec [rotated]) (auto simp: C2SLogin_field_def split: if_splits dest: field_dec)

lemma C2SLogin_parser_returns: "\<exists>r. C2SLogin_MergePartialFromCodedStream rt s = Some r"
  unfolding C2SLogin_MergePartialFromCodedStream_def by (rule run_enough) (auto dest: C2SLogin_dec)

lemma C2SLogin_copy:
  assumes "C2SLogin_wf src" and "C2SLogin_wf m"
  shows "C2SLogin_CopyFrom rt src m = src\<lparr>C2SLogin_cached_size := C2SLogin_cached_size m\<rparr>"
  unfolding C2SLogin_CopyFrom_def C2SLogin_Clear_new [OF assms(2)] C2SLogin_MergeFrom_eq Let_def
  by (rule C2SLogin.equality)
    (simp_all add: C2SLogin_opts C2SLogin_new_def unknown_merge C2SLogin_absent [OF assms(1)] C2SLogin_bits [OF assms(1)]
      cong: if_cong split del: if_split)

lemma C2SLogin_size:
  assumes "C2SLogin_short m"
  shows "fst (C2SLogin_ByteSize rt m) = length (C2SLogin_SerializeWithCachedSizesToArray rt m)"
  using assms
  by (cases "C2SLogin_has_bits m AND 255 = 0")
    (simp_all add: C2SLogin_ByteSize_def C2SLogin_SerializeWithCachedSizesToArray_def C2SLogin_short_def C2SLogin_block0 Let_def int64_size int32_size
      string_size bytes_size rep_string_size rep_bytes_size unknown_size if_distrib [of length]
      cong: if_cong split del: if_split)

lemma C2SLogin_parse_print:
  assumes "C2SLogin_wf m" and "C2SLogin_short m" and "UnknownEmpty rt (C2SLogin_unknown_fields m)"
  shows "C2SLogin_MergePartialFromCodedStream rt (C2SLogin_SerializeWithCachedSizesToArray rt m, (C2SLogin_new rt)\<lparr>C2SLogin_cached_size := n\<rparr>) =
    Some (True, [], m\<lparr>C2SLogin_unknown_fields := UnknownClear rt, C2SLogin_cached_size := n\<rparr>)"
proof -
  have "runs (C2SLogin_step rt) Loop (C2SLogin_SerializeWithCachedSizesToArray rt m, (C2SLogin_new rt)\<lparr>C2SLogin_cached_size := n\<rparr>)
      (True, [], m\<lparr>C2SLogin_unknown_fields := UnknownClear rt, C2SLogin_cached_size := n\<rparr>)"
    unfolding C2SLogin_step_def C2SLogin_SerializeWithCachedSizesToArray_def
    apply (rule opt_int64_runs [where setter = C2SLogin_set_id and ts = "[(18, 2)]" and final = False])
    subgoal by simp subgoal by simp subgoal by simp
    subgoal by (simp add: C2SLogin_field_def) subgoal by (simp add: wiretype_defs)
    apply (rule opt_string_runs [where setter = C2SLogin_set_token and ts = "[(26, 3)]" and final = False])
    subgoal by simp subgoal by simp subgoal by simp
    subgoal using assms(2) by (simp add: C2SLogin_short_def)
    subgoal by (simp add: C2SLogin_field_def) subgoal by (simp add: wiretype_defs)
    apply (rule opt_string_runs [where setter = C2SLogin_set_user_agent and ts = "[]" and final = True])
    subgoal by simp subgoal by simp subgoal by simp
    subgoal using assms(2) by (simp add: C2SLogin_short_def)
    subgoal by (simp add: C2SLogin_field_def) subgoal by (simp add: wiretype_defs)
    apply (simp only: assms(3) not_True_eq_False if_False)
    apply (rule end_runs)
    by (rule C2SLogin.equality)
      (simp_all add: C2SLogin_opts C2SLogin_new_def C2SLogin_absent [OF assms(1)] C2SLogin_bits [OF assms(1)]
        cong: if_cong split del: if_split)
  then show ?thesis
    unfolding C2SLogin_MergePartialFromCodedStream_def by (rule runs_run [rotated]) (auto dest: C2SLogin_dec)
qed

end

section \<open>\<open>S2CLogin\<close>\<close>

record 'u S2CLogin =
  S2CLogin_code :: "u32"
  S2CLogin_msg :: "bytes"
  S2CLogin_ping_time :: "u32"
  S2CLogin_has_bits :: u32
  S2CLogin_unknown_fields :: 'u
  S2CLogin_cached_size :: nat

definition S2CLogin_new :: "'u wire_rt \<Rightarrow> 'u S2CLogin" where
  "S2CLogin_new rt =
    \<lparr>S2CLogin_code = 0, S2CLogin_msg = [], S2CLogin_ping_time = 0,
     S2CLogin_has_bits = 0, S2CLogin_unknown_fields = UnknownClear rt, S2CLogin_cached_size = 0\<rparr>"

definition S2CLogin_has_code :: "'u S2CLogin \<Rightarrow> bool" where
  "S2CLogin_has_code m \<longleftrightarrow> S2CLogin_has_bits m AND 1 \<noteq> 0"

definition S2CLogin_set_code :: "u32 \<Rightarrow> 'u S2CLogin \<Rightarrow> 'u S2CLogin" where
  "S2CLogin_set_code v m = m\<lparr>S2CLogin_has_bits := S2CLogin_has_bits m OR 1, S2CLogin_code := v\<rparr>"

definition S2CLogin_has_msg :: "'u S2CLogin \<Rightarrow> bool" where
  "S2CLogin_has_msg m \<longleftrightarrow> S2CLogin_has_bits m AND 2 \<noteq> 0"

definition S2CLogin_set_msg :: "bytes \<Rightarrow> 'u S2CLogin \<Rightarrow> 'u S2CLogin" where
  "S2CLogin_set_msg v m = m\<lparr>S2CLogin_has_bits := S2CLogin_has_bits m OR 2, S2CLogin_msg := v\<rparr>"

definition S2CLogin_has_ping_time :: "'u S2CLogin \<Rightarrow> bool" where
  "S2CLogin_has_ping_time m \<longleftrightarrow> S2CLogin_has_bits m AND 4 \<noteq> 0"

definition S2CLogin_set_ping_time :: "u32 \<Rightarrow> 'u S2CLogin \<Rightarrow> 'u S2CLogin" where
  "S2CLogin_set_ping_time v m = m\<lparr>S2CLogin_has_bits := S2CLogin_has_bits m OR 4, S2CLogin_ping_time := v\<rparr>"

definition S2CLogin_Clear :: "'u wire_rt \<Rightarrow> 'u S2CLogin \<Rightarrow> 'u S2CLogin" where
  "S2CLogin_Clear rt m =
    (let m = (if S2CLogin_has_bits m AND 255 \<noteq> 0 then m\<lparr>S2CLogin_code := 0,
             S2CLogin_msg := if S2CLogin_has_msg m then [] else S2CLogin_msg m,
             S2CLogin_ping_time := 0\<rparr> else m)
     in m\<lparr>S2CLogin_has_bits := 0, S2CLogin_unknown_fields := UnknownClear rt\<rparr>)"

definition S2CLogin_field :: "'u wire_rt \<Rightarrow> nat \<Rightarrow> bytes \<times> 'u S2CLogin \<Rightarrow> ('u S2CLogin) outcome" where
  "S2CLogin_field rt k =
    (if k = 1 then read_varint (ReadInt32 rt) S2CLogin_set_code
       (expect_next rt [(18, 2)] False)
     else if k = 2 then read_delimited (ReadString rt) S2CLogin_set_msg
       (expect_next rt [(24, 3)] False)
     else if k = 3 then read_varint (ReadInt32 rt) S2CLogin_set_ping_time
       (expect_next rt [] True)
     else Return False)"

definition S2CLogin_step :: "'u wire_rt \<Rightarrow> label \<Rightarrow> bytes \<times> 'u S2CLogin \<Rightarrow> ('u S2CLogin) outcome" where
  "S2CLogin_step rt = merge_step rt
    [(1, WIRETYPE_VARINT), (2, WIRETYPE_LENGTH_DELIMITED), (3, WIRETYPE_VARINT)]
    (S2CLogin_field rt) S2CLogin_unknown_fields_update S2CLogin_unknown_fields"

definition S2CLogin_MergePartialFromCodedStream :: "'u wire_rt \<Rightarrow> bytes \<times> 'u S2CLogin \<Rightarrow> (bool \<times> bytes \<times> 'u S2CLogin) option" where
  "S2CLogin_MergePartialFromCodedStream rt s = run (S2CLogin_step rt) (Suc (length (fst s))) Loop s"

definition S2CLogin_SerializeWithCachedSizesToArray :: "'u wire_rt \<Rightarrow> 'u S2CLogin \<Rightarrow> bytes" where
  "S2CLogin_SerializeWithCachedSizesToArray rt m =
     (if S2CLogin_has_code m then WriteInt32ToArray rt 1 (S2CLogin_code m) else []) @
     (if S2CLogin_has_msg m then WriteStringToArray rt 2 (S2CLogin_msg m) else []) @
     (if S2CLogin_has_ping_time m then WriteInt32ToArray rt 3 (S2CLogin_ping_time m) else []) @
     (if \<not> UnknownEmpty rt (S2CLogin_unknown_fields m) then SerializeUnknownFieldsToArray rt (S2CLogin_unknown_fields m) else [])"

definition S2CLogin_ByteSize :: "'u wire_rt \<Rightarrow> 'u S2CLogin \<Rightarrow> nat \<times> 'u S2CLogin" where
  "S2CLogin_ByteSize rt m =
    (let total_size =
         (if S2CLogin_has_bits m AND 255 \<noteq> 0 then
           (if S2CLogin_has_code m then 1 + Int32Size rt (S2CLogin_code m) else 0) +
           (if S2CLogin_has_msg m then 1 + StringSize rt (S2CLogin_msg m) else 0) +
           (if S2CLogin_has_ping_time m then 1 + Int32Size rt (S2CLogin_ping_time m) else 0)
         else 0) +
         (if \<not> UnknownEmpty rt (S2CLogin_unknown_fields m) then ComputeUnknownFieldsSize rt (S2CLogin_unknown_fields m) else 0)
     in (total_size, m\<lparr>S2CLogin_cached_size := total_size\<rparr>))"

definition S2CLogin_MergeFrom :: "'u wire_rt \<Rightarrow> 'u S2CLogin \<Rightarrow> 'u S2CLogin \<Rightarrow> 'u S2CLogin" where
  "S2CLogin_MergeFrom rt src m =
    (let m = if_set (S2CLogin_has_bits src AND 255 \<noteq> 0) (\<lambda>m.
           let m = if_set (S2CLogin_has_code src) (S2CLogin_set_code (S2CLogin_code src)) m;
               m = if_set (S2CLogin_has_msg src) (S2CLogin_set_msg (S2CLogin_msg src)) m;
               m = if_set (S2CLogin_has_ping_time src) (S2CLogin_set_ping_time (S2CLogin_ping_time src)) m
           in m) m
     in S2CLogin_unknown_fields_update (\<lambda>u. UnknownMerge rt u (S2CLogin_unknown_fields src)) m)"

definition S2CLogin_CopyFrom :: "'u wire_rt \<Rightarrow> 'u S2CLogin \<Rightarrow> 'u S2CLogin \<Rightarrow> 'u S2CLogin" where
  "S2CLogin_CopyFrom rt src m = S2CLogin_MergeFrom rt src (S2CLogin_Clear rt m)"

definition S2CLogin_IsInitialized :: "'u S2CLogin \<Rightarrow> bool" where
  "S2CLogin_IsInitialized m \<longleftrightarrow> S2CLogin_has_bits m AND 5 = 5"

text \<open>The class invariant: no presence bit beyond the fields, and a field that is not present
  holds its default.\<close>

definition S2CLogin_wf :: "'u S2CLogin \<Rightarrow> bool" where
  "S2CLogin_wf m \<longleftrightarrow>
     S2CLogin_has_bits m AND 7 = S2CLogin_has_bits m \<and>
     (\<not> S2CLogin_has_code m \<longrightarrow> S2CLogin_code m = 0) \<and>
     (\<not> S2CLogin_has_msg m \<longrightarrow> S2CLogin_msg m = []) \<and>
     (\<not> S2CLogin_has_ping_time m \<longrightarrow> S2CLogin_ping_time m = 0)"

definition S2CLogin_short :: "'u S2CLogin \<Rightarrow> bool" where
  "S2CLogin_short m \<longleftrightarrow> length (S2CLogin_msg m) < 2 ^ 31"

lemmas S2CLogin_accessors =
  S2CLogin_has_code_def S2CLogin_has_msg_def S2CLogin_has_ping_time_def S2CLogin_set_code_def S2CLogin_set_msg_def S2CLogin_set_ping_time_def

lemma S2CLogin_block0:
  assumes "S2CLogin_has_bits m AND 255 = 0"
  shows "\<not> S2CLogin_has_code m" "\<not> S2CLogin_has_msg m" "\<not> S2CLogin_has_ping_time m"
  using mask_zero [OF assms] by (simp_all add: S2CLogin_accessors)

lemma S2CLogin_opt_code:
  "if_set h (S2CLogin_set_code v) m =
    S2CLogin_has_bits_update (\<lambda>b. b OR (if h then 1 else 0))
      (S2CLogin_code_update (\<lambda>x. if h then v else x) m)"
  by (cases h) (simp_all add: S2CLogin_accessors)

lemma S2CLogin_opt_msg:
  "if_set h (S2CLogin_set_msg v) m =
    S2CLogin_has_bits_update (\<lambda>b. b OR (if h then 2 else 0))
      (S2CLogin_msg_update (\<lambda>x. if h then v else x) m)"
  by (cases h) (simp_all add: S2CLogin_accessors)

lemma S2CLogin_opt_ping_time:
  "if_set h (S2CLogin_set_ping_time v) m =
    S2CLogin_has_bits_update (\<lambda>b. b OR (if h then 4 else 0))
      (S2CLogin_ping_time_update (\<lambda>x. if h then v else x) m)"
  by (cases h) (simp_all add: S2CLogin_accessors)

lemmas S2CLogin_opts =
  S2CLogin_opt_code S2CLogin_opt_msg S2CLogin_opt_ping_time

lemma S2CLogin_absent:
  assumes "S2CLogin_wf m"
  shows "(if S2CLogin_has_code m then S2CLogin_code m else 0) = S2CLogin_code m"
    "(if S2CLogin_has_msg m then S2CLogin_msg m else []) = S2CLogin_msg m"
    "(if S2CLogin_has_ping_time m then S2CLogin_ping_time m else 0) = S2CLogin_ping_time m"
  using assms by (simp_all add: S2CLogin_wf_def)

lemma S2CLogin_bits:
  assumes "S2CLogin_wf m"
  shows "((if S2CLogin_has_code m then 1 else 0) OR
    (if S2CLogin_has_msg m then 2 else 0)) OR
    (if S2CLogin_has_ping_time m then 4 else 0) = S2CLogin_has_bits m"
proof -
  have "((if S2CLogin_has_code m then 1 else 0) OR
    (if S2CLogin_has_msg m then 2 else 0)) OR
    (if S2CLogin_has_ping_time m then 4 else 0) = S2CLogin_has_bits m AND 7"
    unfolding S2CLogin_accessors by (simp add: flag_simps flags_join split del: if_split)
  also have "\<dots> = S2CLogin_has_bits m" using assms by (simp add: S2CLogin_wf_def)
  finally show ?thesis .
qed

lemma S2CLogin_wf_set [simp, intro]:
  assumes "S2CLogin_wf m"
  shows "S2CLogin_wf (S2CLogin_set_code v0 m)"
    "S2CLogin_wf (S2CLogin_set_msg v1 m)"
    "S2CLogin_wf (S2CLogin_set_ping_time v2 m)"
  using assms
  by (simp_all add: S2CLogin_wf_def S2CLogin_accessors set_flag_mask set_flag_other mask_or)

lemma S2CLogin_wf_unknown [simp, intro]: "S2CLogin_wf m \<Longrightarrow> S2CLogin_wf (S2CLogin_unknown_fields_update u m)"
  by (simp add: S2CLogin_wf_def S2CLogin_accessors)

lemma S2CLogin_wf_size [simp, intro]: "S2CLogin_wf m \<Longrightarrow> S2CLogin_wf (S2CLogin_cached_size_update u m)"
  by (simp add: S2CLogin_wf_def S2CLogin_accessors)

lemma S2CLogin_wf_parse:
  assumes "S2CLogin_MergePartialFromCodedStream rt s = Some (ok, s')" and "S2CLogin_wf (snd s)"
  shows "S2CLogin_wf (snd s')"
  using assms unfolding S2CLogin_MergePartialFromCodedStream_def S2CLogin_step_def
  by (rule run_invariant [where I = S2CLogin_wf, rotated])
    (rule out_merge_step [where I = S2CLogin_wf], auto simp: S2CLogin_field_def
      intro!: out_read_varint [where I = S2CLogin_wf] out_read_delimited [where I = S2CLogin_wf])

lemma S2CLogin_wf_new [simp, intro]: "S2CLogin_wf (S2CLogin_new rt)"
  by (simp add: S2CLogin_wf_def S2CLogin_new_def S2CLogin_accessors)

lemma S2CLogin_Clear_new:
  assumes "S2CLogin_wf m"
  shows "S2CLogin_Clear rt m = (S2CLogin_new rt)\<lparr>S2CLogin_cached_size := S2CLogin_cached_size m\<rparr>"
  using assms
  by (cases "S2CLogin_has_bits m AND 255 = 0"; intro S2CLogin.equality;
      simp add: S2CLogin_Clear_def S2CLogin_new_def S2CLogin_wf_def S2CLogin_block0 Let_def)

text \<open>The test of a whole block of presence bits is an optimisation.\<close>

lemma S2CLogin_MergeFrom_eq:
  "S2CLogin_MergeFrom rt src m =
    (let m = if_set (S2CLogin_has_code src) (S2CLogin_set_code (S2CLogin_code src)) m;
         m = if_set (S2CLogin_has_msg src) (S2CLogin_set_msg (S2CLogin_msg src)) m;
         m = if_set (S2CLogin_has_ping_time src) (S2CLogin_set_ping_time (S2CLogin_ping_time src)) m
     in S2CLogin_unknown_fields_update (\<lambda>u. UnknownMerge rt u (S2CLogin_unknown_fields src)) m)"
  by (cases "S2CLogin_has_bits src AND 255 = 0")
    (simp_all add: S2CLogin_MergeFrom_def Let_def S2CLogin_block0 split del: if_split)

context wire_format
begin

lemma S2CLogin_dec: "S2CLogin_step rt l s = Goto l' s' \<Longrightarrow> length (fst s') < length (fst s)"
  unfolding S2CLogin_step_def
  by (erule merge_step_dec [rotated]) (auto simp: S2CLogin_field_def split: if_splits dest: field_dec)

lemma S2CLogin_parser_returns: "\<exists>r. S2CLogin_MergePartialFromCodedStream rt s = Some r"
  unfolding S2CLogin_MergePartialFromCodedStream_def by (rule run_enough) (auto dest: S2CLogin_dec)

lemma S2CLogin_copy:
  assumes "S2CLogin_wf src" and "S2CLogin_wf m"
  shows "S2CLogin_CopyFrom rt src m = src\<lparr>S2CLogin_cached_size := S2CLogin_cached_size m\<rparr>"
  unfolding S2CLogin_CopyFrom_def S2CLogin_Clear_new [OF assms(2)] S2CLogin_MergeFrom_eq Let_def
  by (rule S2CLogin.equality)
    (simp_all add: S2CLogin_opts S2CLogin_new_def unknown_merge S2CLogin_absent [OF assms(1)] S2CLogin_bits [OF assms(1)]
      cong: if_cong split del: if_split)

lemma S2CLogin_size:
  assumes "S2CLogin_short m"
  shows "fst (S2CLogin_ByteSize rt m) = length (S2CLogin_SerializeWithCachedSizesToArray rt m)"
  using assms
  by (cases "S2CLogin_has_bits m AND 255 = 0")
    (simp_all add: S2CLogin_ByteSize_def S2CLogin_SerializeWithCachedSizesToArray_def S2CLogin_short_def S2CLogin_block0 Let_def int64_size int32_size
      string_size bytes_size rep_string_size rep_bytes_size unknown_size if_distrib [of length]
      cong: if_cong split del: if_split)

lemma S2CLogin_parse_print:
  assumes "S2CLogin_wf m" and "S2CLogin_short m" and "UnknownEmpty rt (S2CLogin_unknown_fields m)"
  shows "S2CLogin_MergePartialFromCodedStream rt (S2CLogin_SerializeWithCachedSizesToArray rt m, (S2CLogin_new rt)\<lparr>S2CLogin_cached_size := n\<rparr>) =
    Some (True, [], m\<lparr>S2CLogin_unknown_fields := UnknownClear rt, S2CLogin_cached_size := n\<rparr>)"
proof -
  have "runs (S2CLogin_step rt) Loop (S2CLogin_SerializeWithCachedSizesToArray rt m, (S2CLogin_new rt)\<lparr>S2CLogin_cached_size := n\<rparr>)
      (True, [], m\<lparr>S2CLogin_unknown_fields := UnknownClear rt, S2CLogin_cached_size := n\<rparr>)"
    unfolding S2CLogin_step_def S2CLogin_SerializeWithCachedSizesToArray_def
    apply (rule opt_int32_runs [where setter = S2CLogin_set_code and ts = "[(18, 2)]" and final = False])
    subgoal by simp subgoal by simp subgoal by simp
    subgoal by (simp add: S2CLogin_field_def) subgoal by (simp add: wiretype_defs)
    apply (rule opt_string_runs [where setter = S2CLogin_set_msg and ts = "[(24, 3)]" and final = False])
    subgoal by simp subgoal by simp subgoal by simp
    subgoal using assms(2) by (simp add: S2CLogin_short_def)
    subgoal by (simp add: S2CLogin_field_def) subgoal by (simp add: wiretype_defs)
    apply (rule opt_int32_runs [where setter = S2CLogin_set_ping_time and ts = "[]" and final = True])
    subgoal by simp subgoal by simp subgoal by simp
    subgoal by (simp add: S2CLogin_field_def) subgoal by (simp add: wiretype_defs)
    apply (simp only: assms(3) not_True_eq_False if_False)
    apply (rule end_runs)
    by (rule S2CLogin.equality)
      (simp_all add: S2CLogin_opts S2CLogin_new_def S2CLogin_absent [OF assms(1)] S2CLogin_bits [OF assms(1)]
        cong: if_cong split del: if_split)
  then show ?thesis
    unfolding S2CLogin_MergePartialFromCodedStream_def by (rule runs_run [rotated]) (auto dest: S2CLogin_dec)
qed

end

section \<open>\<open>OnlineStatus\<close>\<close>

record 'u OnlineStatus =
  OnlineStatus_id :: "bytes list"
  OnlineStatus_status :: "bytes"
  OnlineStatus_has_bits :: u32
  OnlineStatus_unknown_fields :: 'u
  OnlineStatus_cached_size :: nat

definition OnlineStatus_new :: "'u wire_rt \<Rightarrow> 'u OnlineStatus" where
  "OnlineStatus_new rt =
    \<lparr>OnlineStatus_id = [], OnlineStatus_status = [],
     OnlineStatus_has_bits = 0, OnlineStatus_unknown_fields = UnknownClear rt, OnlineStatus_cached_size = 0\<rparr>"

definition OnlineStatus_add_id :: "bytes \<Rightarrow> 'u OnlineStatus \<Rightarrow> 'u OnlineStatus" where
  "OnlineStatus_add_id v m = m\<lparr>OnlineStatus_id := OnlineStatus_id m @ [v]\<rparr>"

definition OnlineStatus_has_status :: "'u OnlineStatus \<Rightarrow> bool" where
  "OnlineStatus_has_status m \<longleftrightarrow> OnlineStatus_has_bits m AND 2 \<noteq> 0"

definition OnlineStatus_set_status :: "bytes \<Rightarrow> 'u OnlineStatus \<Rightarrow> 'u OnlineStatus" where
  "OnlineStatus_set_status v m = m\<lparr>OnlineStatus_has_bits := OnlineStatus_has_bits m OR 2, OnlineStatus_status := v\<rparr>"

definition OnlineStatus_Clear :: "'u wire_rt \<Rightarrow> 'u OnlineStatus \<Rightarrow> 'u OnlineStatus" where
  "OnlineStatus_Clear rt m =
    (let m = (if OnlineStatus_has_bits m AND 510 \<noteq> 0 then m\<lparr>OnlineStatus_status := if OnlineStatus_has_status m then [] else OnlineStatus_status m\<rparr> else m);
         m = m\<lparr>OnlineStatus_id := []\<rparr>
     in m\<lparr>OnlineStatus_has_bits := 0, OnlineStatus_unknown_fields := UnknownClear rt\<rparr>)"

definition OnlineStatus_field :: "'u wire_rt \<Rightarrow> nat \<Rightarrow> bytes \<times> 'u OnlineStatus \<Rightarrow> ('u OnlineStatus) outcome" where
  "OnlineStatus_field rt k =
    (if k = 1 then read_delimited (ReadString rt) OnlineStatus_add_id
       (expect_next rt [(10, 1), (18, 2)] False)
     else if k = 2 then read_delimited (ReadBytes rt) OnlineStatus_set_status
       (expect_next rt [] True)
     else Return False)"

definition OnlineStatus_step :: "'u wire_rt \<Rightarrow> label \<Rightarrow> bytes \<times> 'u OnlineStatus \<Rightarrow> ('u OnlineStatus) outcome" where
  "OnlineStatus_step rt = merge_step rt
    [(1, WIRETYPE_LENGTH_DELIMITED), (2, WIRETYPE_LENGTH_DELIMITED)]
    (OnlineStatus_field rt) OnlineStatus_unknown_fields_update OnlineStatus_unknown_fields"

definition OnlineStatus_MergePartialFromCodedStream :: "'u wire_rt \<Rightarrow> bytes \<times> 'u OnlineStatus \<Rightarrow> (bool \<times> bytes \<times> 'u OnlineStatus) option" where
  "OnlineStatus_MergePartialFromCodedStream rt s = run (OnlineStatus_step rt) (Suc (length (fst s))) Loop s"

definition OnlineStatus_SerializeWithCachedSizesToArray :: "'u wire_rt \<Rightarrow> 'u OnlineStatus \<Rightarrow> bytes" where
  "OnlineStatus_SerializeWithCachedSizesToArray rt m =
     concat (map (WriteStringToArray rt 1) (OnlineStatus_id m)) @
     (if OnlineStatus_has_status m then WriteBytesToArray rt 2 (OnlineStatus_status m) else []) @
     (if \<not> UnknownEmpty rt (OnlineStatus_unknown_fields m) then SerializeUnknownFieldsToArray rt (OnlineStatus_unknown_fields m) else [])"

definition OnlineStatus_ByteSize :: "'u wire_rt \<Rightarrow> 'u OnlineStatus \<Rightarrow> nat \<times> 'u OnlineStatus" where
  "OnlineStatus_ByteSize rt m =
    (let total_size =
         (if OnlineStatus_has_bits m AND 510 \<noteq> 0 then
           (if OnlineStatus_has_status m then 1 + BytesSize rt (OnlineStatus_status m) else 0)
         else 0) +
         1 * length (OnlineStatus_id m) + sum_list (map (StringSize rt) (OnlineStatus_id m)) +
         (if \<not> UnknownEmpty rt (OnlineStatus_unknown_fields m) then ComputeUnknownFieldsSize rt (OnlineStatus_unknown_fields m) else 0)
     in (total_size, m\<lparr>OnlineStatus_cached_size := total_size\<rparr>))"

definition OnlineStatus_MergeFrom :: "'u wire_rt \<Rightarrow> 'u OnlineStatus \<Rightarrow> 'u OnlineStatus \<Rightarrow> 'u OnlineStatus" where
  "OnlineStatus_MergeFrom rt src m =
    (let m = m\<lparr>OnlineStatus_id := OnlineStatus_id m @ OnlineStatus_id src\<rparr>;
         m = if_set (OnlineStatus_has_bits src AND 510 \<noteq> 0) (\<lambda>m.
           let m = if_set (OnlineStatus_has_status src) (OnlineStatus_set_status (OnlineStatus_status src)) m
           in m) m
     in OnlineStatus_unknown_fields_update (\<lambda>u. UnknownMerge rt u (OnlineStatus_unknown_fields src)) m)"

definition OnlineStatus_CopyFrom :: "'u wire_rt \<Rightarrow> 'u OnlineStatus \<Rightarrow> 'u OnlineStatus \<Rightarrow> 'u OnlineStatus" where
  "OnlineStatus_CopyFrom rt src m = OnlineStatus_MergeFrom rt src (OnlineStatus_Clear rt m)"

definition OnlineStatus_IsInitialized :: "'u OnlineStatus \<Rightarrow> bool" where
  "OnlineStatus_IsInitialized m \<longleftrightarrow> True"

text \<open>The class invariant: no presence bit beyond the fields, and a field that is not present
  holds its default.\<close>

definition OnlineStatus_wf :: "'u OnlineStatus \<Rightarrow> bool" where
  "OnlineStatus_wf m \<longleftrightarrow>
     OnlineStatus_has_bits m AND 2 = OnlineStatus_has_bits m \<and>
     (\<not> OnlineStatus_has_status m \<longrightarrow> OnlineStatus_status m = [])"

definition OnlineStatus_short :: "'u OnlineStatus \<Rightarrow> bool" where
  "OnlineStatus_short m \<longleftrightarrow> length (OnlineStatus_status m) < 2 ^ 31 \<and> (\<forall>d \<in> set (OnlineStatus_id m). length d < 2 ^ 31)"

lemmas OnlineStatus_accessors =
  OnlineStatus_has_status_def OnlineStatus_set_status_def OnlineStatus_add_id_def

lemma OnlineStatus_block0:
  assumes "OnlineStatus_has_bits m AND 510 = 0"
  shows "\<not> OnlineStatus_has_status m"
  using mask_zero [OF assms] by (simp_all add: OnlineStatus_accessors)

lemma OnlineStatus_opt_status:
  "if_set h (OnlineStatus_set_status v) m =
    OnlineStatus_has_bits_update (\<lambda>b. b OR (if h then 2 else 0))
      (OnlineStatus_status_update (\<lambda>x. if h then v else x) m)"
  by (cases h) (simp_all add: OnlineStatus_accessors)

lemma OnlineStatus_fold_id: "fold OnlineStatus_add_id ds m = OnlineStatus_id_update (\<lambda>xs. xs @ ds) m"
  by (induction ds arbitrary: m) (simp_all add: OnlineStatus_accessors)

lemmas OnlineStatus_opts =
  OnlineStatus_opt_status OnlineStatus_fold_id

lemma OnlineStatus_absent:
  assumes "OnlineStatus_wf m"
  shows "(if OnlineStatus_has_status m then OnlineStatus_status m else []) = OnlineStatus_status m"
  using assms by (simp_all add: OnlineStatus_wf_def)

lemma OnlineStatus_bits:
  assumes "OnlineStatus_wf m"
  shows "(if OnlineStatus_has_status m then 2 else 0) = OnlineStatus_has_bits m"
proof -
  have "(if OnlineStatus_has_status m then 2 else 0) = OnlineStatus_has_bits m AND 2"
    unfolding OnlineStatus_accessors by (simp add: flag_simps flags_join split del: if_split)
  also have "\<dots> = OnlineStatus_has_bits m" using assms by (simp add: OnlineStatus_wf_def)
  finally show ?thesis .
qed

lemma OnlineStatus_wf_set [simp, intro]:
  assumes "OnlineStatus_wf m"
  shows "OnlineStatus_wf (OnlineStatus_set_status v0 m)"
  using assms
  by (simp_all add: OnlineStatus_wf_def OnlineStatus_accessors set_flag_mask set_flag_other mask_or)

lemma OnlineStatus_wf_add_id [simp, intro]: "OnlineStatus_wf m \<Longrightarrow> OnlineStatus_wf (OnlineStatus_add_id v m)"
  by (simp add: OnlineStatus_wf_def OnlineStatus_accessors)

lemma OnlineStatus_wf_unknown [simp, intro]: "OnlineStatus_wf m \<Longrightarrow> OnlineStatus_wf (OnlineStatus_unknown_fields_update u m)"
  by (simp add: OnlineStatus_wf_def OnlineStatus_accessors)

lemma OnlineStatus_wf_size [simp, intro]: "OnlineStatus_wf m \<Longrightarrow> OnlineStatus_wf (OnlineStatus_cached_size_update u m)"
  by (simp add: OnlineStatus_wf_def OnlineStatus_accessors)

lemma OnlineStatus_wf_parse:
  assumes "OnlineStatus_MergePartialFromCodedStream rt s = Some (ok, s')" and "OnlineStatus_wf (snd s)"
  shows "OnlineStatus_wf (snd s')"
  using assms unfolding OnlineStatus_MergePartialFromCodedStream_def OnlineStatus_step_def
  by (rule run_invariant [where I = OnlineStatus_wf, rotated])
    (rule out_merge_step [where I = OnlineStatus_wf], auto simp: OnlineStatus_field_def
      intro!: out_read_varint [where I = OnlineStatus_wf] out_read_delimited [where I = OnlineStatus_wf])

lemma OnlineStatus_wf_new [simp, intro]: "OnlineStatus_wf (OnlineStatus_new rt)"
  by (simp add: OnlineStatus_wf_def OnlineStatus_new_def OnlineStatus_accessors)

lemma OnlineStatus_Clear_new:
  assumes "OnlineStatus_wf m"
  shows "OnlineStatus_Clear rt m = (OnlineStatus_new rt)\<lparr>OnlineStatus_cached_size := OnlineStatus_cached_size m\<rparr>"
  using assms
  by (cases "OnlineStatus_has_bits m AND 510 = 0"; intro OnlineStatus.equality;
      simp add: OnlineStatus_Clear_def OnlineStatus_new_def OnlineStatus_wf_def OnlineStatus_block0 Let_def)

text \<open>The test of a whole block of presence bits is an optimisation.\<close>

lemma OnlineStatus_MergeFrom_eq:
  "OnlineStatus_MergeFrom rt src m =
    (let m = m\<lparr>OnlineStatus_id := OnlineStatus_id m @ OnlineStatus_id src\<rparr>;
         m = if_set (OnlineStatus_has_status src) (OnlineStatus_set_status (OnlineStatus_status src)) m
     in OnlineStatus_unknown_fields_update (\<lambda>u. UnknownMerge rt u (OnlineStatus_unknown_fields src)) m)"
  by (cases "OnlineStatus_has_bits src AND 510 = 0")
    (simp_all add: OnlineStatus_MergeFrom_def Let_def OnlineStatus_block0 split del: if_split)

context wire_format
begin

lemma OnlineStatus_dec: "OnlineStatus_step rt l s = Goto l' s' \<Longrightarrow> length (fst s') < length (fst s)"
  unfolding OnlineStatus_step_def
  by (erule merge_step_dec [rotated]) (auto simp: OnlineStatus_field_def split: if_splits dest: field_dec)

lemma OnlineStatus_parser_returns: "\<exists>r. OnlineStatus_MergePartialFromCodedStream rt s = Some r"
  unfolding OnlineStatus_MergePartialFromCodedStream_def by (rule run_enough) (auto dest: OnlineStatus_dec)

lemma OnlineStatus_copy:
  assumes "OnlineStatus_wf src" and "OnlineStatus_wf m"
  shows "OnlineStatus_CopyFrom rt src m = src\<lparr>OnlineStatus_cached_size := OnlineStatus_cached_size m\<rparr>"
  unfolding OnlineStatus_CopyFrom_def OnlineStatus_Clear_new [OF assms(2)] OnlineStatus_MergeFrom_eq Let_def
  by (rule OnlineStatus.equality)
    (simp_all add: OnlineStatus_opts OnlineStatus_new_def unknown_merge OnlineStatus_absent [OF assms(1)] OnlineStatus_bits [OF assms(1)]
      cong: if_cong split del: if_split)

lemma OnlineStatus_size:
  assumes "OnlineStatus_short m"
  shows "fst (OnlineStatus_ByteSize rt m) = length (OnlineStatus_SerializeWithCachedSizesToArray rt m)"
  using assms
  by (cases "OnlineStatus_has_bits m AND 510 = 0")
    (simp_all add: OnlineStatus_ByteSize_def OnlineStatus_SerializeWithCachedSizesToArray_def OnlineStatus_short_def OnlineStatus_block0 Let_def int64_size int32_size
      string_size bytes_size rep_string_size rep_bytes_size unknown_size if_distrib [of length]
      cong: if_cong split del: if_split)

lemma OnlineStatus_parse_print:
  assumes "OnlineStatus_wf m" and "OnlineStatus_short m" and "UnknownEmpty rt (OnlineStatus_unknown_fields m)"
  shows "OnlineStatus_MergePartialFromCodedStream rt (OnlineStatus_SerializeWithCachedSizesToArray rt m, (OnlineStatus_new rt)\<lparr>OnlineStatus_cached_size := n\<rparr>) =
    Some (True, [], m\<lparr>OnlineStatus_unknown_fields := UnknownClear rt, OnlineStatus_cached_size := n\<rparr>)"
proof -
  have "runs (OnlineStatus_step rt) Loop (OnlineStatus_SerializeWithCachedSizesToArray rt m, (OnlineStatus_new rt)\<lparr>OnlineStatus_cached_size := n\<rparr>)
      (True, [], m\<lparr>OnlineStatus_unknown_fields := UnknownClear rt, OnlineStatus_cached_size := n\<rparr>)"
    unfolding OnlineStatus_step_def OnlineStatus_SerializeWithCachedSizesToArray_def
    apply (rule rep_string_runs [where setter = OnlineStatus_add_id and ts = "[(10, 1), (18, 2)]" and final = False])
    subgoal by simp subgoal by simp subgoal by simp
    subgoal using assms(2) by (simp add: OnlineStatus_short_def)
    subgoal by (simp add: OnlineStatus_field_def) subgoal by (simp add: wiretype_defs)
    apply (rule opt_bytes_runs [where setter = OnlineStatus_set_status and ts = "[]" and final = True])
    subgoal by simp subgoal by simp subgoal by simp
    subgoal using assms(2) by (simp add: OnlineStatus_short_def)
    subgoal by (simp add: OnlineStatus_field_def) subgoal by (simp add: wiretype_defs)
    apply (simp only: assms(3) not_True_eq_False if_False)
    apply (rule end_runs)
    by (rule OnlineStatus.equality)
      (simp_all add: OnlineStatus_opts OnlineStatus_new_def OnlineStatus_absent [OF assms(1)] OnlineStatus_bits [OF assms(1)]
        cong: if_cong split del: if_split)
  then show ?thesis
    unfolding OnlineStatus_MergePartialFromCodedStream_def by (rule runs_run [rotated]) (auto dest: OnlineStatus_dec)
qed

end

end
