(* ===== verification/Comet_Pb_Check.thy ===== *)
theory Comet_Pb_Check
  imports Pb_Wire
begin

text \<open>
  The messages of the two checks the server asks of the account service: the token check
  (\<open>ReqCheckTokenByID\<close>, \<open>RspCheckTokenByID\<close>) and the relation check (\<open>ReqCheckRelationByID\<close>,
  \<open>RspCheckRelationByID\<close>), of \<open>src/core/comet.pb.cc\<close> and \<open>comet.pb.h\<close>, with the same lemmas as the
  login messages.
\<close>

section \<open>\<open>ReqCheckTokenByID\<close>\<close>

record 'u ReqCheckTokenByID =
  ReqCheckTokenByID_id :: "u64"
  ReqCheckTokenByID_token :: "bytes"
  ReqCheckTokenByID_has_bits :: u32
  ReqCheckTokenByID_unknown_fields :: 'u
  ReqCheckTokenByID_cached_size :: nat

definition ReqCheckTokenByID_new :: "'u wire_rt \<Rightarrow> 'u ReqCheckTokenByID" where
  "ReqCheckTokenByID_new rt =
    \<lparr>ReqCheckTokenByID_id = 0, ReqCheckTokenByID_token = [],
     ReqCheckTokenByID_has_bits = 0, ReqCheckTokenByID_unknown_fields = UnknownClear rt, ReqCheckTokenByID_cached_size = 0\<rparr>"

definition ReqCheckTokenByID_has_id :: "'u ReqCheckTokenByID \<Rightarrow> bool" where
  "ReqCheckTokenByID_has_id m \<longleftrightarrow> ReqCheckTokenByID_has_bits m AND 1 \<noteq> 0"

definition ReqCheckTokenByID_set_id :: "u64 \<Rightarrow> 'u ReqCheckTokenByID \<Rightarrow> 'u ReqCheckTokenByID" where
  "ReqCheckTokenByID_set_id v m = m\<lparr>ReqCheckTokenByID_has_bits := ReqCheckTokenByID_has_bits m OR 1, ReqCheckTokenByID_id := v\<rparr>"

definition ReqCheckTokenByID_has_token :: "'u ReqCheckTokenByID \<Rightarrow> bool" where
  "ReqCheckTokenByID_has_token m \<longleftrightarrow> ReqCheckTokenByID_has_bits m AND 2 \<noteq> 0"

definition ReqCheckTokenByID_set_token :: "bytes \<Rightarrow> 'u ReqCheckTokenByID \<Rightarrow> 'u ReqCheckTokenByID" where
  "ReqCheckTokenByID_set_token v m = m\<lparr>ReqCheckTokenByID_has_bits := ReqCheckTokenByID_has_bits m OR 2, ReqCheckTokenByID_token := v\<rparr>"

definition ReqCheckTokenByID_Clear :: "'u wire_rt \<Rightarrow> 'u ReqCheckTokenByID \<Rightarrow> 'u ReqCheckTokenByID" where
  "ReqCheckTokenByID_Clear rt m =
    (let m = (if ReqCheckTokenByID_has_bits m AND 255 \<noteq> 0 then m\<lparr>ReqCheckTokenByID_id := 0,
             ReqCheckTokenByID_token := if ReqCheckTokenByID_has_token m then [] else ReqCheckTokenByID_token m\<rparr> else m)
     in m\<lparr>ReqCheckTokenByID_has_bits := 0, ReqCheckTokenByID_unknown_fields := UnknownClear rt\<rparr>)"

definition ReqCheckTokenByID_field :: "'u wire_rt \<Rightarrow> nat \<Rightarrow> bytes \<times> 'u ReqCheckTokenByID \<Rightarrow> ('u ReqCheckTokenByID) outcome" where
  "ReqCheckTokenByID_field rt k =
    (if k = 1 then read_varint (ReadInt64 rt) ReqCheckTokenByID_set_id
       (expect_next rt [(18, 2)] False)
     else if k = 2 then read_delimited (ReadString rt) ReqCheckTokenByID_set_token
       (expect_next rt [] True)
     else Return False)"

definition ReqCheckTokenByID_step :: "'u wire_rt \<Rightarrow> label \<Rightarrow> bytes \<times> 'u ReqCheckTokenByID \<Rightarrow> ('u ReqCheckTokenByID) outcome" where
  "ReqCheckTokenByID_step rt = merge_step rt
    [(1, WIRETYPE_VARINT), (2, WIRETYPE_LENGTH_DELIMITED)]
    (ReqCheckTokenByID_field rt) ReqCheckTokenByID_unknown_fields_update ReqCheckTokenByID_unknown_fields"

definition ReqCheckTokenByID_MergePartialFromCodedStream :: "'u wire_rt \<Rightarrow> bytes \<times> 'u ReqCheckTokenByID \<Rightarrow> (bool \<times> bytes \<times> 'u ReqCheckTokenByID) option" where
  "ReqCheckTokenByID_MergePartialFromCodedStream rt s = run (ReqCheckTokenByID_step rt) (Suc (length (fst s))) Loop s"

definition ReqCheckTokenByID_SerializeWithCachedSizesToArray :: "'u wire_rt \<Rightarrow> 'u ReqCheckTokenByID \<Rightarrow> bytes" where
  "ReqCheckTokenByID_SerializeWithCachedSizesToArray rt m =
     (if ReqCheckTokenByID_has_id m then WriteInt64ToArray rt 1 (ReqCheckTokenByID_id m) else []) @
     (if ReqCheckTokenByID_has_token m then WriteStringToArray rt 2 (ReqCheckTokenByID_token m) else []) @
     (if \<not> UnknownEmpty rt (ReqCheckTokenByID_unknown_fields m) then SerializeUnknownFieldsToArray rt (ReqCheckTokenByID_unknown_fields m) else [])"

definition ReqCheckTokenByID_ByteSize :: "'u wire_rt \<Rightarrow> 'u ReqCheckTokenByID \<Rightarrow> nat \<times> 'u ReqCheckTokenByID" where
  "ReqCheckTokenByID_ByteSize rt m =
    (let total_size =
         (if ReqCheckTokenByID_has_bits m AND 255 \<noteq> 0 then
           (if ReqCheckTokenByID_has_id m then 1 + Int64Size rt (ReqCheckTokenByID_id m) else 0) +
           (if ReqCheckTokenByID_has_token m then 1 + StringSize rt (ReqCheckTokenByID_token m) else 0)
         else 0) +
         (if \<not> UnknownEmpty rt (ReqCheckTokenByID_unknown_fields m) then ComputeUnknownFieldsSize rt (ReqCheckTokenByID_unknown_fields m) else 0)
     in (total_size, m\<lparr>ReqCheckTokenByID_cached_size := total_size\<rparr>))"

definition ReqCheckTokenByID_MergeFrom :: "'u wire_rt \<Rightarrow> 'u ReqCheckTokenByID \<Rightarrow> 'u ReqCheckTokenByID \<Rightarrow> 'u ReqCheckTokenByID" where
  "ReqCheckTokenByID_MergeFrom rt src m =
    (let m = if_set (ReqCheckTokenByID_has_bits src AND 255 \<noteq> 0) (\<lambda>m.
           let m = if_set (ReqCheckTokenByID_has_id src) (ReqCheckTokenByID_set_id (ReqCheckTokenByID_id src)) m;
               m = if_set (ReqCheckTokenByID_has_token src) (ReqCheckTokenByID_set_token (ReqCheckTokenByID_token src)) m
           in m) m
     in ReqCheckTokenByID_unknown_fields_update (\<lambda>u. UnknownMerge rt u (ReqCheckTokenByID_unknown_fields src)) m)"

definition ReqCheckTokenByID_CopyFrom :: "'u wire_rt \<Rightarrow> 'u ReqCheckTokenByID \<Rightarrow> 'u ReqCheckTokenByID \<Rightarrow> 'u ReqCheckTokenByID" where
  "ReqCheckTokenByID_CopyFrom rt src m = ReqCheckTokenByID_MergeFrom rt src (ReqCheckTokenByID_Clear rt m)"

definition ReqCheckTokenByID_IsInitialized :: "'u ReqCheckTokenByID \<Rightarrow> bool" where
  "ReqCheckTokenByID_IsInitialized m \<longleftrightarrow> ReqCheckTokenByID_has_bits m AND 3 = 3"

text \<open>The class invariant: no presence bit beyond the fields, and a field that is not present
  holds its default.\<close>

definition ReqCheckTokenByID_wf :: "'u ReqCheckTokenByID \<Rightarrow> bool" where
  "ReqCheckTokenByID_wf m \<longleftrightarrow>
     ReqCheckTokenByID_has_bits m AND 3 = ReqCheckTokenByID_has_bits m \<and>
     (\<not> ReqCheckTokenByID_has_id m \<longrightarrow> ReqCheckTokenByID_id m = 0) \<and>
     (\<not> ReqCheckTokenByID_has_token m \<longrightarrow> ReqCheckTokenByID_token m = [])"

definition ReqCheckTokenByID_short :: "'u ReqCheckTokenByID \<Rightarrow> bool" where
  "ReqCheckTokenByID_short m \<longleftrightarrow> length (ReqCheckTokenByID_token m) < 2 ^ 31"

lemmas ReqCheckTokenByID_accessors =
  ReqCheckTokenByID_has_id_def ReqCheckTokenByID_has_token_def ReqCheckTokenByID_set_id_def ReqCheckTokenByID_set_token_def

lemma ReqCheckTokenByID_block0:
  assumes "ReqCheckTokenByID_has_bits m AND 255 = 0"
  shows "\<not> ReqCheckTokenByID_has_id m" "\<not> ReqCheckTokenByID_has_token m"
  using mask_zero [OF assms] by (simp_all add: ReqCheckTokenByID_accessors)

lemma ReqCheckTokenByID_opt_id:
  "if_set h (ReqCheckTokenByID_set_id v) m =
    ReqCheckTokenByID_has_bits_update (\<lambda>b. b OR (if h then 1 else 0))
      (ReqCheckTokenByID_id_update (\<lambda>x. if h then v else x) m)"
  by (cases h) (simp_all add: ReqCheckTokenByID_accessors)

lemma ReqCheckTokenByID_opt_token:
  "if_set h (ReqCheckTokenByID_set_token v) m =
    ReqCheckTokenByID_has_bits_update (\<lambda>b. b OR (if h then 2 else 0))
      (ReqCheckTokenByID_token_update (\<lambda>x. if h then v else x) m)"
  by (cases h) (simp_all add: ReqCheckTokenByID_accessors)

lemmas ReqCheckTokenByID_opts =
  ReqCheckTokenByID_opt_id ReqCheckTokenByID_opt_token

lemma ReqCheckTokenByID_absent:
  assumes "ReqCheckTokenByID_wf m"
  shows "(if ReqCheckTokenByID_has_id m then ReqCheckTokenByID_id m else 0) = ReqCheckTokenByID_id m"
    "(if ReqCheckTokenByID_has_token m then ReqCheckTokenByID_token m else []) = ReqCheckTokenByID_token m"
  using assms by (simp_all add: ReqCheckTokenByID_wf_def)

lemma ReqCheckTokenByID_bits:
  assumes "ReqCheckTokenByID_wf m"
  shows "(if ReqCheckTokenByID_has_id m then 1 else 0) OR
    (if ReqCheckTokenByID_has_token m then 2 else 0) = ReqCheckTokenByID_has_bits m"
proof -
  have "(if ReqCheckTokenByID_has_id m then 1 else 0) OR
    (if ReqCheckTokenByID_has_token m then 2 else 0) = ReqCheckTokenByID_has_bits m AND 3"
    unfolding ReqCheckTokenByID_accessors by (simp add: flag_simps flags_join split del: if_split)
  also have "\<dots> = ReqCheckTokenByID_has_bits m" using assms by (simp add: ReqCheckTokenByID_wf_def)
  finally show ?thesis .
qed

lemma ReqCheckTokenByID_wf_set [simp, intro]:
  assumes "ReqCheckTokenByID_wf m"
  shows "ReqCheckTokenByID_wf (ReqCheckTokenByID_set_id v0 m)"
    "ReqCheckTokenByID_wf (ReqCheckTokenByID_set_token v1 m)"
  using assms
  by (simp_all add: ReqCheckTokenByID_wf_def ReqCheckTokenByID_accessors set_flag_mask set_flag_other mask_or)

lemma ReqCheckTokenByID_wf_unknown [simp, intro]: "ReqCheckTokenByID_wf m \<Longrightarrow> ReqCheckTokenByID_wf (ReqCheckTokenByID_unknown_fields_update u m)"
  by (simp add: ReqCheckTokenByID_wf_def ReqCheckTokenByID_accessors)

lemma ReqCheckTokenByID_wf_size [simp, intro]: "ReqCheckTokenByID_wf m \<Longrightarrow> ReqCheckTokenByID_wf (ReqCheckTokenByID_cached_size_update u m)"
  by (simp add: ReqCheckTokenByID_wf_def ReqCheckTokenByID_accessors)

lemma ReqCheckTokenByID_wf_parse:
  assumes "ReqCheckTokenByID_MergePartialFromCodedStream rt s = Some (ok, s')" and "ReqCheckTokenByID_wf (snd s)"
  shows "ReqCheckTokenByID_wf (snd s')"
  using assms unfolding ReqCheckTokenByID_MergePartialFromCodedStream_def ReqCheckTokenByID_step_def
  by (rule run_invariant [where I = ReqCheckTokenByID_wf, rotated])
    (rule out_merge_step [where I = ReqCheckTokenByID_wf], auto simp: ReqCheckTokenByID_field_def
      intro!: out_read_varint [where I = ReqCheckTokenByID_wf] out_read_delimited [where I = ReqCheckTokenByID_wf])

lemma ReqCheckTokenByID_wf_new [simp, intro]: "ReqCheckTokenByID_wf (ReqCheckTokenByID_new rt)"
  by (simp add: ReqCheckTokenByID_wf_def ReqCheckTokenByID_new_def ReqCheckTokenByID_accessors)

lemma ReqCheckTokenByID_Clear_new:
  assumes "ReqCheckTokenByID_wf m"
  shows "ReqCheckTokenByID_Clear rt m = (ReqCheckTokenByID_new rt)\<lparr>ReqCheckTokenByID_cached_size := ReqCheckTokenByID_cached_size m\<rparr>"
  using assms
  by (cases "ReqCheckTokenByID_has_bits m AND 255 = 0"; intro ReqCheckTokenByID.equality;
      simp add: ReqCheckTokenByID_Clear_def ReqCheckTokenByID_new_def ReqCheckTokenByID_wf_def ReqCheckTokenByID_block0 Let_def)

text \<open>The test of a whole block of presence bits is an optimisation.\<close>

lemma ReqCheckTokenByID_MergeFrom_eq:
  "ReqCheckTokenByID_MergeFrom rt src m =
    (let m = if_set (ReqCheckTokenByID_has_id src) (ReqCheckTokenByID_set_id (ReqCheckTokenByID_id src)) m;
         m = if_set (ReqCheckTokenByID_has_token src) (ReqCheckTokenByID_set_token (ReqCheckTokenByID_token src)) m
     in ReqCheckTokenByID_unknown_fields_update (\<lambda>u. UnknownMerge rt u (ReqCheckTokenByID_unknown_fields src)) m)"
  by (cases "ReqCheckTokenByID_has_bits src AND 255 = 0")
    (simp_all add: ReqCheckTokenByID_MergeFrom_def Let_def ReqCheckTokenByID_block0 split del: if_split)

context wire_format
begin

lemma ReqCheckTokenByID_dec: "ReqCheckTokenByID_step rt l s = Goto l' s' \<Longrightarrow> length (fst s') < length (fst s)"
  unfolding ReqCheckTokenByID_step_def
  by (erule merge_step_dec [rotated]) (auto simp: ReqCheckTokenByID_field_def split: if_splits dest: field_dec)

lemma ReqCheckTokenByID_parser_returns: "\<exists>r. ReqCheckTokenByID_MergePartialFromCodedStream rt s = Some r"
  unfolding ReqCheckTokenByID_MergePartialFromCodedStream_def by (rule run_enough) (auto dest: ReqCheckTokenByID_dec)

lemma ReqCheckTokenByID_copy:
  assumes "ReqCheckTokenByID_wf src" and "ReqCheckTokenByID_wf m"
  shows "ReqCheckTokenByID_CopyFrom rt src m = src\<lparr>ReqCheckTokenByID_cached_size := ReqCheckTokenByID_cached_size m\<rparr>"
  unfolding ReqCheckTokenByID_CopyFrom_def ReqCheckTokenByID_Clear_new [OF assms(2)] ReqCheckTokenByID_MergeFrom_eq Let_def
  by (rule ReqCheckTokenByID.equality)
    (simp_all add: ReqCheckTokenByID_opts ReqCheckTokenByID_new_def unknown_merge ReqCheckTokenByID_absent [OF assms(1)] ReqCheckTokenByID_bits [OF assms(1)]
      cong: if_cong split del: if_split)

lemma ReqCheckTokenByID_size:
  assumes "ReqCheckTokenByID_short m"
  shows "fst (ReqCheckTokenByID_ByteSize rt m) = length (ReqCheckTokenByID_SerializeWithCachedSizesToArray rt m)"
  using assms
  by (cases "ReqCheckTokenByID_has_bits m AND 255 = 0")
    (simp_all add: ReqCheckTokenByID_ByteSize_def ReqCheckTokenByID_SerializeWithCachedSizesToArray_def ReqCheckTokenByID_short_def ReqCheckTokenByID_block0 Let_def int64_size int32_size
      string_size bytes_size rep_string_size rep_bytes_size unknown_size if_distrib [of length]
      cong: if_cong split del: if_split)

lemma ReqCheckTokenByID_parse_print:
  assumes "ReqCheckTokenByID_wf m" and "ReqCheckTokenByID_short m" and "UnknownEmpty rt (ReqCheckTokenByID_unknown_fields m)"
  shows "ReqCheckTokenByID_MergePartialFromCodedStream rt (ReqCheckTokenByID_SerializeWithCachedSizesToArray rt m, (ReqCheckTokenByID_new rt)\<lparr>ReqCheckTokenByID_cached_size := n\<rparr>) =
    Some (True, [], m\<lparr>ReqCheckTokenByID_unknown_fields := UnknownClear rt, ReqCheckTokenByID_cached_size := n\<rparr>)"
proof -
  have "runs (ReqCheckTokenByID_step rt) Loop (ReqCheckTokenByID_SerializeWithCachedSizesToArray rt m, (ReqCheckTokenByID_new rt)\<lparr>ReqCheckTokenByID_cached_size := n\<rparr>)
      (True, [], m\<lparr>ReqCheckTokenByID_unknown_fields := UnknownClear rt, ReqCheckTokenByID_cached_size := n\<rparr>)"
    unfolding ReqCheckTokenByID_step_def ReqCheckTokenByID_SerializeWithCachedSizesToArray_def
    apply (rule opt_int64_runs [where setter = ReqCheckTokenByID_set_id and ts = "[(18, 2)]" and final = False])
    subgoal by simp subgoal by simp subgoal by simp
    subgoal by (simp add: ReqCheckTokenByID_field_def) subgoal by (simp add: wiretype_defs)
    apply (rule opt_string_runs [where setter = ReqCheckTokenByID_set_token and ts = "[]" and final = True])
    subgoal by simp subgoal by simp subgoal by simp
    subgoal using assms(2) by (simp add: ReqCheckTokenByID_short_def)
    subgoal by (simp add: ReqCheckTokenByID_field_def) subgoal by (simp add: wiretype_defs)
    apply (simp only: assms(3) not_True_eq_False if_False)
    apply (rule end_runs)
    by (rule ReqCheckTokenByID.equality)
      (simp_all add: ReqCheckTokenByID_opts ReqCheckTokenByID_new_def ReqCheckTokenByID_absent [OF assms(1)] ReqCheckTokenByID_bits [OF assms(1)]
        cong: if_cong split del: if_split)
  then show ?thesis
    unfolding ReqCheckTokenByID_MergePartialFromCodedStream_def by (rule runs_run [rotated]) (auto dest: ReqCheckTokenByID_dec)
qed

end

section \<open>\<open>RspCheckTokenByID\<close>\<close>

record 'u RspCheckTokenByID =
  RspCheckTokenByID_rescode :: "u32"
  RspCheckTokenByID_resmsg :: "bytes"
  RspCheckTokenByID_has_bits :: u32
  RspCheckTokenByID_unknown_fields :: 'u
  RspCheckTokenByID_cached_size :: nat

definition RspCheckTokenByID_new :: "'u wire_rt \<Rightarrow> 'u RspCheckTokenByID" where
  "RspCheckTokenByID_new rt =
    \<lparr>RspCheckTokenByID_rescode = 0, RspCheckTokenByID_resmsg = [],
     RspCheckTokenByID_has_bits = 0, RspCheckTokenByID_unknown_fields = UnknownClear rt, RspCheckTokenByID_cached_size = 0\<rparr>"

definition RspCheckTokenByID_has_rescode :: "'u RspCheckTokenByID \<Rightarrow> bool" where
  "RspCheckTokenByID_has_rescode m \<longleftrightarrow> RspCheckTokenByID_has_bits m AND 1 \<noteq> 0"

definition RspCheckTokenByID_set_rescode :: "u32 \<Rightarrow> 'u RspCheckTokenByID \<Rightarrow> 'u RspCheckTokenByID" where
  "RspCheckTokenByID_set_rescode v m = m\<lparr>RspCheckTokenByID_has_bits := RspCheckTokenByID_has_bits m OR 1, RspCheckTokenByID_rescode := v\<rparr>"

definition RspCheckTokenByID_has_resmsg :: "'u RspCheckTokenByID \<Rightarrow> bool" where
  "RspCheckTokenByID_has_resmsg m \<longleftrightarrow> RspCheckTokenByID_has_bits m AND 2 \<noteq> 0"

definition RspCheckTokenByID_set_resmsg :: "bytes \<Rightarrow> 'u RspCheckTokenByID \<Rightarrow> 'u RspCheckTokenByID" where
  "RspCheckTokenByID_set_resmsg v m = m\<lparr>RspCheckTokenByID_has_bits := RspCheckTokenByID_has_bits m OR 2, RspCheckTokenByID_resmsg := v\<rparr>"

definition RspCheckTokenByID_Clear :: "'u wire_rt \<Rightarrow> 'u RspCheckTokenByID \<Rightarrow> 'u RspCheckTokenByID" where
  "RspCheckTokenByID_Clear rt m =
    (let m = (if RspCheckTokenByID_has_bits m AND 255 \<noteq> 0 then m\<lparr>RspCheckTokenByID_rescode := 0,
             RspCheckTokenByID_resmsg := if RspCheckTokenByID_has_resmsg m then [] else RspCheckTokenByID_resmsg m\<rparr> else m)
     in m\<lparr>RspCheckTokenByID_has_bits := 0, RspCheckTokenByID_unknown_fields := UnknownClear rt\<rparr>)"

definition RspCheckTokenByID_field :: "'u wire_rt \<Rightarrow> nat \<Rightarrow> bytes \<times> 'u RspCheckTokenByID \<Rightarrow> ('u RspCheckTokenByID) outcome" where
  "RspCheckTokenByID_field rt k =
    (if k = 1 then read_varint (ReadInt32 rt) RspCheckTokenByID_set_rescode
       (expect_next rt [(18, 2)] False)
     else if k = 2 then read_delimited (ReadString rt) RspCheckTokenByID_set_resmsg
       (expect_next rt [] True)
     else Return False)"

definition RspCheckTokenByID_step :: "'u wire_rt \<Rightarrow> label \<Rightarrow> bytes \<times> 'u RspCheckTokenByID \<Rightarrow> ('u RspCheckTokenByID) outcome" where
  "RspCheckTokenByID_step rt = merge_step rt
    [(1, WIRETYPE_VARINT), (2, WIRETYPE_LENGTH_DELIMITED)]
    (RspCheckTokenByID_field rt) RspCheckTokenByID_unknown_fields_update RspCheckTokenByID_unknown_fields"

definition RspCheckTokenByID_MergePartialFromCodedStream :: "'u wire_rt \<Rightarrow> bytes \<times> 'u RspCheckTokenByID \<Rightarrow> (bool \<times> bytes \<times> 'u RspCheckTokenByID) option" where
  "RspCheckTokenByID_MergePartialFromCodedStream rt s = run (RspCheckTokenByID_step rt) (Suc (length (fst s))) Loop s"

definition RspCheckTokenByID_SerializeWithCachedSizesToArray :: "'u wire_rt \<Rightarrow> 'u RspCheckTokenByID \<Rightarrow> bytes" where
  "RspCheckTokenByID_SerializeWithCachedSizesToArray rt m =
     (if RspCheckTokenByID_has_rescode m then WriteInt32ToArray rt 1 (RspCheckTokenByID_rescode m) else []) @
     (if RspCheckTokenByID_has_resmsg m then WriteStringToArray rt 2 (RspCheckTokenByID_resmsg m) else []) @
     (if \<not> UnknownEmpty rt (RspCheckTokenByID_unknown_fields m) then SerializeUnknownFieldsToArray rt (RspCheckTokenByID_unknown_fields m) else [])"

definition RspCheckTokenByID_ByteSize :: "'u wire_rt \<Rightarrow> 'u RspCheckTokenByID \<Rightarrow> nat \<times> 'u RspCheckTokenByID" where
  "RspCheckTokenByID_ByteSize rt m =
    (let total_size =
         (if RspCheckTokenByID_has_bits m AND 255 \<noteq> 0 then
           (if RspCheckTokenByID_has_rescode m then 1 + Int32Size rt (RspCheckTokenByID_rescode m) else 0) +
           (if RspCheckTokenByID_has_resmsg m then 1 + StringSize rt (RspCheckTokenByID_resmsg m) else 0)
         else 0) +
         (if \<not> UnknownEmpty rt (RspCheckTokenByID_unknown_fields m) then ComputeUnknownFieldsSize rt (RspCheckTokenByID_unknown_fields m) else 0)
     in (total_size, m\<lparr>RspCheckTokenByID_cached_size := total_size\<rparr>))"

definition RspCheckTokenByID_MergeFrom :: "'u wire_rt \<Rightarrow> 'u RspCheckTokenByID \<Rightarrow> 'u RspCheckTokenByID \<Rightarrow> 'u RspCheckTokenByID" where
  "RspCheckTokenByID_MergeFrom rt src m =
    (let m = if_set (RspCheckTokenByID_has_bits src AND 255 \<noteq> 0) (\<lambda>m.
           let m = if_set (RspCheckTokenByID_has_rescode src) (RspCheckTokenByID_set_rescode (RspCheckTokenByID_rescode src)) m;
               m = if_set (RspCheckTokenByID_has_resmsg src) (RspCheckTokenByID_set_resmsg (RspCheckTokenByID_resmsg src)) m
           in m) m
     in RspCheckTokenByID_unknown_fields_update (\<lambda>u. UnknownMerge rt u (RspCheckTokenByID_unknown_fields src)) m)"

definition RspCheckTokenByID_CopyFrom :: "'u wire_rt \<Rightarrow> 'u RspCheckTokenByID \<Rightarrow> 'u RspCheckTokenByID \<Rightarrow> 'u RspCheckTokenByID" where
  "RspCheckTokenByID_CopyFrom rt src m = RspCheckTokenByID_MergeFrom rt src (RspCheckTokenByID_Clear rt m)"

definition RspCheckTokenByID_IsInitialized :: "'u RspCheckTokenByID \<Rightarrow> bool" where
  "RspCheckTokenByID_IsInitialized m \<longleftrightarrow> RspCheckTokenByID_has_bits m AND 3 = 3"

text \<open>The class invariant: no presence bit beyond the fields, and a field that is not present
  holds its default.\<close>

definition RspCheckTokenByID_wf :: "'u RspCheckTokenByID \<Rightarrow> bool" where
  "RspCheckTokenByID_wf m \<longleftrightarrow>
     RspCheckTokenByID_has_bits m AND 3 = RspCheckTokenByID_has_bits m \<and>
     (\<not> RspCheckTokenByID_has_rescode m \<longrightarrow> RspCheckTokenByID_rescode m = 0) \<and>
     (\<not> RspCheckTokenByID_has_resmsg m \<longrightarrow> RspCheckTokenByID_resmsg m = [])"

definition RspCheckTokenByID_short :: "'u RspCheckTokenByID \<Rightarrow> bool" where
  "RspCheckTokenByID_short m \<longleftrightarrow> length (RspCheckTokenByID_resmsg m) < 2 ^ 31"

lemmas RspCheckTokenByID_accessors =
  RspCheckTokenByID_has_rescode_def RspCheckTokenByID_has_resmsg_def RspCheckTokenByID_set_rescode_def RspCheckTokenByID_set_resmsg_def

lemma RspCheckTokenByID_block0:
  assumes "RspCheckTokenByID_has_bits m AND 255 = 0"
  shows "\<not> RspCheckTokenByID_has_rescode m" "\<not> RspCheckTokenByID_has_resmsg m"
  using mask_zero [OF assms] by (simp_all add: RspCheckTokenByID_accessors)

lemma RspCheckTokenByID_opt_rescode:
  "if_set h (RspCheckTokenByID_set_rescode v) m =
    RspCheckTokenByID_has_bits_update (\<lambda>b. b OR (if h then 1 else 0))
      (RspCheckTokenByID_rescode_update (\<lambda>x. if h then v else x) m)"
  by (cases h) (simp_all add: RspCheckTokenByID_accessors)

lemma RspCheckTokenByID_opt_resmsg:
  "if_set h (RspCheckTokenByID_set_resmsg v) m =
    RspCheckTokenByID_has_bits_update (\<lambda>b. b OR (if h then 2 else 0))
      (RspCheckTokenByID_resmsg_update (\<lambda>x. if h then v else x) m)"
  by (cases h) (simp_all add: RspCheckTokenByID_accessors)

lemmas RspCheckTokenByID_opts =
  RspCheckTokenByID_opt_rescode RspCheckTokenByID_opt_resmsg

lemma RspCheckTokenByID_absent:
  assumes "RspCheckTokenByID_wf m"
  shows "(if RspCheckTokenByID_has_rescode m then RspCheckTokenByID_rescode m else 0) = RspCheckTokenByID_rescode m"
    "(if RspCheckTokenByID_has_resmsg m then RspCheckTokenByID_resmsg m else []) = RspCheckTokenByID_resmsg m"
  using assms by (simp_all add: RspCheckTokenByID_wf_def)

lemma RspCheckTokenByID_bits:
  assumes "RspCheckTokenByID_wf m"
  shows "(if RspCheckTokenByID_has_rescode m then 1 else 0) OR
    (if RspCheckTokenByID_has_resmsg m then 2 else 0) = RspCheckTokenByID_has_bits m"
proof -
  have "(if RspCheckTokenByID_has_rescode m then 1 else 0) OR
    (if RspCheckTokenByID_has_resmsg m then 2 else 0) = RspCheckTokenByID_has_bits m AND 3"
    unfolding RspCheckTokenByID_accessors by (simp add: flag_simps flags_join split del: if_split)
  also have "\<dots> = RspCheckTokenByID_has_bits m" using assms by (simp add: RspCheckTokenByID_wf_def)
  finally show ?thesis .
qed

lemma RspCheckTokenByID_wf_set [simp, intro]:
  assumes "RspCheckTokenByID_wf m"
  shows "RspCheckTokenByID_wf (RspCheckTokenByID_set_rescode v0 m)"
    "RspCheckTokenByID_wf (RspCheckTokenByID_set_resmsg v1 m)"
  using assms
  by (simp_all add: RspCheckTokenByID_wf_def RspCheckTokenByID_accessors set_flag_mask set_flag_other mask_or)

lemma RspCheckTokenByID_wf_unknown [simp, intro]: "RspCheckTokenByID_wf m \<Longrightarrow> RspCheckTokenByID_wf (RspCheckTokenByID_unknown_fields_update u m)"
  by (simp add: RspCheckTokenByID_wf_def RspCheckTokenByID_accessors)

lemma RspCheckTokenByID_wf_size [simp, intro]: "RspCheckTokenByID_wf m \<Longrightarrow> RspCheckTokenByID_wf (RspCheckTokenByID_cached_size_update u m)"
  by (simp add: RspCheckTokenByID_wf_def RspCheckTokenByID_accessors)

lemma RspCheckTokenByID_wf_parse:
  assumes "RspCheckTokenByID_MergePartialFromCodedStream rt s = Some (ok, s')" and "RspCheckTokenByID_wf (snd s)"
  shows "RspCheckTokenByID_wf (snd s')"
  using assms unfolding RspCheckTokenByID_MergePartialFromCodedStream_def RspCheckTokenByID_step_def
  by (rule run_invariant [where I = RspCheckTokenByID_wf, rotated])
    (rule out_merge_step [where I = RspCheckTokenByID_wf], auto simp: RspCheckTokenByID_field_def
      intro!: out_read_varint [where I = RspCheckTokenByID_wf] out_read_delimited [where I = RspCheckTokenByID_wf])

lemma RspCheckTokenByID_wf_new [simp, intro]: "RspCheckTokenByID_wf (RspCheckTokenByID_new rt)"
  by (simp add: RspCheckTokenByID_wf_def RspCheckTokenByID_new_def RspCheckTokenByID_accessors)

lemma RspCheckTokenByID_Clear_new:
  assumes "RspCheckTokenByID_wf m"
  shows "RspCheckTokenByID_Clear rt m = (RspCheckTokenByID_new rt)\<lparr>RspCheckTokenByID_cached_size := RspCheckTokenByID_cached_size m\<rparr>"
  using assms
  by (cases "RspCheckTokenByID_has_bits m AND 255 = 0"; intro RspCheckTokenByID.equality;
      simp add: RspCheckTokenByID_Clear_def RspCheckTokenByID_new_def RspCheckTokenByID_wf_def RspCheckTokenByID_block0 Let_def)

text \<open>The test of a whole block of presence bits is an optimisation.\<close>

lemma RspCheckTokenByID_MergeFrom_eq:
  "RspCheckTokenByID_MergeFrom rt src m =
    (let m = if_set (RspCheckTokenByID_has_rescode src) (RspCheckTokenByID_set_rescode (RspCheckTokenByID_rescode src)) m;
         m = if_set (RspCheckTokenByID_has_resmsg src) (RspCheckTokenByID_set_resmsg (RspCheckTokenByID_resmsg src)) m
     in RspCheckTokenByID_unknown_fields_update (\<lambda>u. UnknownMerge rt u (RspCheckTokenByID_unknown_fields src)) m)"
  by (cases "RspCheckTokenByID_has_bits src AND 255 = 0")
    (simp_all add: RspCheckTokenByID_MergeFrom_def Let_def RspCheckTokenByID_block0 split del: if_split)

context wire_format
begin

lemma RspCheckTokenByID_dec: "RspCheckTokenByID_step rt l s = Goto l' s' \<Longrightarrow> length (fst s') < length (fst s)"
  unfolding RspCheckTokenByID_step_def
  by (erule merge_step_dec [rotated]) (auto simp: RspCheckTokenByID_field_def split: if_splits dest: field_dec)

lemma RspCheckTokenByID_parser_returns: "\<exists>r. RspCheckTokenByID_MergePartialFromCodedStream rt s = Some r"
  unfolding RspCheckTokenByID_MergePartialFromCodedStream_def by (rule run_enough) (auto dest: RspCheckTokenByID_dec)

lemma RspCheckTokenByID_copy:
  assumes "RspCheckTokenByID_wf src" and "RspCheckTokenByID_wf m"
  shows "RspCheckTokenByID_CopyFrom rt src m = src\<lparr>RspCheckTokenByID_cached_size := RspCheckTokenByID_cached_size m\<rparr>"
  unfolding RspCheckTokenByID_CopyFrom_def RspCheckTokenByID_Clear_new [OF assms(2)] RspCheckTokenByID_MergeFrom_eq Let_def
  by (rule RspCheckTokenByID.equality)
    (simp_all add: RspCheckTokenByID_opts RspCheckTokenByID_new_def unknown_merge RspCheckTokenByID_absent [OF assms(1)] RspCheckTokenByID_bits [OF assms(1)]
      cong: if_cong split del: if_split)

lemma RspCheckTokenByID_size:
  assumes "RspCheckTokenByID_short m"
  shows "fst (RspCheckTokenByID_ByteSize rt m) = length (RspCheckTokenByID_SerializeWithCachedSizesToArray rt m)"
  using assms
  by (cases "RspCheckTokenByID_has_bits m AND 255 = 0")
    (simp_all add: RspCheckTokenByID_ByteSize_def RspCheckTokenByID_SerializeWithCachedSizesToArray_def RspCheckTokenByID_short_def RspCheckTokenByID_block0 Let_def int64_size int32_size
      string_size bytes_size rep_string_size rep_bytes_size unknown_size if_distrib [of length]
      cong: if_cong split del: if_split)

lemma RspCheckTokenByID_parse_print:
  assumes "RspCheckTokenByID_wf m" and "RspCheckTokenByID_short m" and "UnknownEmpty rt (RspCheckTokenByID_unknown_fields m)"
  shows "RspCheckTokenByID_MergePartialFromCodedStream rt (RspCheckTokenByID_SerializeWithCachedSizesToArray rt m, (RspCheckTokenByID_new rt)\<lparr>RspCheckTokenByID_cached_size := n\<rparr>) =
    Some (True, [], m\<lparr>RspCheckTokenByID_unknown_fields := UnknownClear rt, RspCheckTokenByID_cached_size := n\<rparr>)"
proof -
  have "runs (RspCheckTokenByID_step rt) Loop (RspCheckTokenByID_SerializeWithCachedSizesToArray rt m, (RspCheckTokenByID_new rt)\<lparr>RspCheckTokenByID_cached_size := n\<rparr>)
      (True, [], m\<lparr>RspCheckTokenByID_unknown_fields := UnknownClear rt, RspCheckTokenByID_cached_size := n\<rparr>)"
    unfolding RspCheckTokenByID_step_def RspCheckTokenByID_SerializeWithCachedSizesToArray_def
    apply (rule opt_int32_runs [where setter = RspCheckTokenByID_set_rescode and ts = "[(18, 2)]" and final = False])
    subgoal by simp subgoal by simp subgoal by simp
    subgoal by (simp add: RspCheckTokenByID_field_def) subgoal by (simp add: wiretype_defs)
    apply (rule opt_string_runs [where setter = RspCheckTokenByID_set_resmsg and ts = "[]" and final = True])
    subgoal by simp subgoal by simp subgoal by simp
    subgoal using assms(2) by (simp add: RspCheckTokenByID_short_def)
    subgoal by (simp add: RspCheckTokenByID_field_def) subgoal by (simp add: wiretype_defs)
    apply (simp only: assms(3) not_True_eq_False if_False)
    apply (rule end_runs)
    by (rule RspCheckTokenByID.equality)
      (simp_all add: RspCheckTokenByID_opts RspCheckTokenByID_new_def RspCheckTokenByID_absent [OF assms(1)] RspCheckTokenByID_bits [OF assms(1)]
        cong: if_cong split del: if_split)
  then show ?thesis
    unfolding RspCheckTokenByID_MergePartialFromCodedStream_def by (rule runs_run [rotated]) (auto dest: RspCheckTokenByID_dec)
qed

end

section \<open>\<open>ReqCheckRelationByID\<close>\<close>

record 'u ReqCheckRelationByID =
  ReqCheckRelationByID_fromid :: "u64"
  ReqCheckRelationByID_toid :: "u64"
  ReqCheckRelationByID_has_bits :: u32
  ReqCheckRelationByID_unknown_fields :: 'u
  ReqCheckRelationByID_cached_size :: nat

definition ReqCheckRelationByID_new :: "'u wire_rt \<Rightarrow> 'u ReqCheckRelationByID" where
  "ReqCheckRelationByID_new rt =
    \<lparr>ReqCheckRelationByID_fromid = 0, ReqCheckRelationByID_toid = 0,
     ReqCheckRelationByID_has_bits = 0, ReqCheckRelationByID_unknown_fields = UnknownClear rt, ReqCheckRelationByID_cached_size = 0\<rparr>"

definition ReqCheckRelationByID_has_fromid :: "'u ReqCheckRelationByID \<Rightarrow> bool" where
  "ReqCheckRelationByID_has_fromid m \<longleftrightarrow> ReqCheckRelationByID_has_bits m AND 1 \<noteq> 0"

definition ReqCheckRelationByID_set_fromid :: "u64 \<Rightarrow> 'u ReqCheckRelationByID \<Rightarrow> 'u ReqCheckRelationByID" where
  "ReqCheckRelationByID_set_fromid v m = m\<lparr>ReqCheckRelationByID_has_bits := ReqCheckRelationByID_has_bits m OR 1, ReqCheckRelationByID_fromid := v\<rparr>"

definition ReqCheckRelationByID_has_toid :: "'u ReqCheckRelationByID \<Rightarrow> bool" where
  "ReqCheckRelationByID_has_toid m \<longleftrightarrow> ReqCheckRelationByID_has_bits m AND 2 \<noteq> 0"

definition ReqCheckRelationByID_set_toid :: "u64 \<Rightarrow> 'u ReqCheckRelationByID \<Rightarrow> 'u ReqCheckRelationByID" where
  "ReqCheckRelationByID_set_toid v m = m\<lparr>ReqCheckRelationByID_has_bits := ReqCheckRelationByID_has_bits m OR 2, ReqCheckRelationByID_toid := v\<rparr>"

definition ReqCheckRelationByID_Clear :: "'u wire_rt \<Rightarrow> 'u ReqCheckRelationByID \<Rightarrow> 'u ReqCheckRelationByID" where
  "ReqCheckRelationByID_Clear rt m =
    (let m = (if ReqCheckRelationByID_has_bits m AND 255 \<noteq> 0 then m\<lparr>ReqCheckRelationByID_fromid := 0,
             ReqCheckRelationByID_toid := 0\<rparr> else m)
     in m\<lparr>ReqCheckRelationByID_has_bits := 0, ReqCheckRelationByID_unknown_fields := UnknownClear rt\<rparr>)"

definition ReqCheckRelationByID_field :: "'u wire_rt \<Rightarrow> nat \<Rightarrow> bytes \<times> 'u ReqCheckRelationByID \<Rightarrow> ('u ReqCheckRelationByID) outcome" where
  "ReqCheckRelationByID_field rt k =
    (if k = 1 then read_varint (ReadInt64 rt) ReqCheckRelationByID_set_fromid
       (expect_next rt [(16, 2)] False)
     else if k = 2 then read_varint (ReadInt64 rt) ReqCheckRelationByID_set_toid
       (expect_next rt [] True)
     else Return False)"

definition ReqCheckRelationByID_step :: "'u wire_rt \<Rightarrow> label \<Rightarrow> bytes \<times> 'u ReqCheckRelationByID \<Rightarrow> ('u ReqCheckRelationByID) outcome" where
  "ReqCheckRelationByID_step rt = merge_step rt
    [(1, WIRETYPE_VARINT), (2, WIRETYPE_VARINT)]
    (ReqCheckRelationByID_field rt) ReqCheckRelationByID_unknown_fields_update ReqCheckRelationByID_unknown_fields"

definition ReqCheckRelationByID_MergePartialFromCodedStream :: "'u wire_rt \<Rightarrow> bytes \<times> 'u ReqCheckRelationByID \<Rightarrow> (bool \<times> bytes \<times> 'u ReqCheckRelationByID) option" where
  "ReqCheckRelationByID_MergePartialFromCodedStream rt s = run (ReqCheckRelationByID_step rt) (Suc (length (fst s))) Loop s"

definition ReqCheckRelationByID_SerializeWithCachedSizesToArray :: "'u wire_rt \<Rightarrow> 'u ReqCheckRelationByID \<Rightarrow> bytes" where
  "ReqCheckRelationByID_SerializeWithCachedSizesToArray rt m =
     (if ReqCheckRelationByID_has_fromid m then WriteInt64ToArray rt 1 (ReqCheckRelationByID_fromid m) else []) @
     (if ReqCheckRelationByID_has_toid m then WriteInt64ToArray rt 2 (ReqCheckRelationByID_toid m) else []) @
     (if \<not> UnknownEmpty rt (ReqCheckRelationByID_unknown_fields m) then SerializeUnknownFieldsToArray rt (ReqCheckRelationByID_unknown_fields m) else [])"

definition ReqCheckRelationByID_ByteSize :: "'u wire_rt \<Rightarrow> 'u ReqCheckRelationByID \<Rightarrow> nat \<times> 'u ReqCheckRelationByID" where
  "ReqCheckRelationByID_ByteSize rt m =
    (let total_size =
         (if ReqCheckRelationByID_has_bits m AND 255 \<noteq> 0 then
           (if ReqCheckRelationByID_has_fromid m then 1 + Int64Size rt (ReqCheckRelationByID_fromid m) else 0) +
           (if ReqCheckRelationByID_has_toid m then 1 + Int64Size rt (ReqCheckRelationByID_toid m) else 0)
         else 0) +
         (if \<not> UnknownEmpty rt (ReqCheckRelationByID_unknown_fields m) then ComputeUnknownFieldsSize rt (ReqCheckRelationByID_unknown_fields m) else 0)
     in (total_size, m\<lparr>ReqCheckRelationByID_cached_size := total_size\<rparr>))"

definition ReqCheckRelationByID_MergeFrom :: "'u wire_rt \<Rightarrow> 'u ReqCheckRelationByID \<Rightarrow> 'u ReqCheckRelationByID \<Rightarrow> 'u ReqCheckRelationByID" where
  "ReqCheckRelationByID_MergeFrom rt src m =
    (let m = if_set (ReqCheckRelationByID_has_bits src AND 255 \<noteq> 0) (\<lambda>m.
           let m = if_set (ReqCheckRelationByID_has_fromid src) (ReqCheckRelationByID_set_fromid (ReqCheckRelationByID_fromid src)) m;
               m = if_set (ReqCheckRelationByID_has_toid src) (ReqCheckRelationByID_set_toid (ReqCheckRelationByID_toid src)) m
           in m) m
     in ReqCheckRelationByID_unknown_fields_update (\<lambda>u. UnknownMerge rt u (ReqCheckRelationByID_unknown_fields src)) m)"

definition ReqCheckRelationByID_CopyFrom :: "'u wire_rt \<Rightarrow> 'u ReqCheckRelationByID \<Rightarrow> 'u ReqCheckRelationByID \<Rightarrow> 'u ReqCheckRelationByID" where
  "ReqCheckRelationByID_CopyFrom rt src m = ReqCheckRelationByID_MergeFrom rt src (ReqCheckRelationByID_Clear rt m)"

definition ReqCheckRelationByID_IsInitialized :: "'u ReqCheckRelationByID \<Rightarrow> bool" where
  "ReqCheckRelationByID_IsInitialized m \<longleftrightarrow> ReqCheckRelationByID_has_bits m AND 3 = 3"

text \<open>The class invariant: no presence bit beyond the fields, and a field that is not present
  holds its default.\<close>

definition ReqCheckRelationByID_wf :: "'u ReqCheckRelationByID \<Rightarrow> bool" where
  "ReqCheckRelationByID_wf m \<longleftrightarrow>
     ReqCheckRelationByID_has_bits m AND 3 = ReqCheckRelationByID_has_bits m \<and>
     (\<not> ReqCheckRelationByID_has_fromid m \<longrightarrow> ReqCheckRelationByID_fromid m = 0) \<and>
     (\<not> ReqCheckRelationByID_has_toid m \<longrightarrow> ReqCheckRelationByID_toid m = 0)"

definition ReqCheckRelationByID_short :: "'u ReqCheckRelationByID \<Rightarrow> bool" where
  "ReqCheckRelationByID_short m \<longleftrightarrow> True"

lemmas ReqCheckRelationByID_accessors =
  ReqCheckRelationByID_has_fromid_def ReqCheckRelationByID_has_toid_def ReqCheckRelationByID_set_fromid_def ReqCheckRelationByID_set_toid_def

lemma ReqCheckRelationByID_block0:
  assumes "ReqCheckRelationByID_has_bits m AND 255 = 0"
  shows "\<not> ReqCheckRelationByID_has_fromid m" "\<not> ReqCheckRelationByID_has_toid m"
  using mask_zero [OF assms] by (simp_all add: ReqCheckRelationByID_accessors)

lemma ReqCheckRelationByID_opt_fromid:
  "if_set h (ReqCheckRelationByID_set_fromid v) m =
    ReqCheckRelationByID_has_bits_update (\<lambda>b. b OR (if h then 1 else 0))
      (ReqCheckRelationByID_fromid_update (\<lambda>x. if h then v else x) m)"
  by (cases h) (simp_all add: ReqCheckRelationByID_accessors)

lemma ReqCheckRelationByID_opt_toid:
  "if_set h (ReqCheckRelationByID_set_toid v) m =
    ReqCheckRelationByID_has_bits_update (\<lambda>b. b OR (if h then 2 else 0))
      (ReqCheckRelationByID_toid_update (\<lambda>x. if h then v else x) m)"
  by (cases h) (simp_all add: ReqCheckRelationByID_accessors)

lemmas ReqCheckRelationByID_opts =
  ReqCheckRelationByID_opt_fromid ReqCheckRelationByID_opt_toid

lemma ReqCheckRelationByID_absent:
  assumes "ReqCheckRelationByID_wf m"
  shows "(if ReqCheckRelationByID_has_fromid m then ReqCheckRelationByID_fromid m else 0) = ReqCheckRelationByID_fromid m"
    "(if ReqCheckRelationByID_has_toid m then ReqCheckRelationByID_toid m else 0) = ReqCheckRelationByID_toid m"
  using assms by (simp_all add: ReqCheckRelationByID_wf_def)

lemma ReqCheckRelationByID_bits:
  assumes "ReqCheckRelationByID_wf m"
  shows "(if ReqCheckRelationByID_has_fromid m then 1 else 0) OR
    (if ReqCheckRelationByID_has_toid m then 2 else 0) = ReqCheckRelationByID_has_bits m"
proof -
  have "(if ReqCheckRelationByID_has_fromid m then 1 else 0) OR
    (if ReqCheckRelationByID_has_toid m then 2 else 0) = ReqCheckRelationByID_has_bits m AND 3"
    unfolding ReqCheckRelationByID_accessors by (simp add: flag_simps flags_join split del: if_split)
  also have "\<dots> = ReqCheckRelationByID_has_bits m" using assms by (simp add: ReqCheckRelationByID_wf_def)
  finally show ?thesis .
qed

lemma ReqCheckRelationByID_wf_set [simp, intro]:
  assumes "ReqCheckRelationByID_wf m"
  shows "ReqCheckRelationByID_wf (ReqCheckRelationByID_set_fromid v0 m)"
    "ReqCheckRelationByID_wf (ReqCheckRelationByID_set_toid v1 m)"
  using assms
  by (simp_all add: ReqCheckRelationByID_wf_def ReqCheckRelationByID_accessors set_flag_mask set_flag_other mask_or)

lemma ReqCheckRelationByID_wf_unknown [simp, intro]: "ReqCheckRelationByID_wf m \<Longrightarrow> ReqCheckRelationByID_wf (ReqCheckRelationByID_unknown_fields_update u m)"
  by (simp add: ReqCheckRelationByID_wf_def ReqCheckRelationByID_accessors)

lemma ReqCheckRelationByID_wf_size [simp, intro]: "ReqCheckRelationByID_wf m \<Longrightarrow> ReqCheckRelationByID_wf (ReqCheckRelationByID_cached_size_update u m)"
  by (simp add: ReqCheckRelationByID_wf_def ReqCheckRelationByID_accessors)

lemma ReqCheckRelationByID_wf_parse:
  assumes "ReqCheckRelationByID_MergePartialFromCodedStream rt s = Some (ok, s')" and "ReqCheckRelationByID_wf (snd s)"
  shows "ReqCheckRelationByID_wf (snd s')"
  using assms unfolding ReqCheckRelationByID_MergePartialFromCodedStream_def ReqCheckRelationByID_step_def
  by (rule run_invariant [where I = ReqCheckRelationByID_wf, rotated])
    (rule out_merge_step [where I = ReqCheckRelationByID_wf], auto simp: ReqCheckRelationByID_field_def
      intro!: out_read_varint [where I = ReqCheckRelationByID_wf] out_read_delimited [where I = ReqCheckRelationByID_wf])

lemma ReqCheckRelationByID_wf_new [simp, intro]: "ReqCheckRelationByID_wf (ReqCheckRelationByID_new rt)"
  by (simp add: ReqCheckRelationByID_wf_def ReqCheckRelationByID_new_def ReqCheckRelationByID_accessors)

lemma ReqCheckRelationByID_Clear_new:
  assumes "ReqCheckRelationByID_wf m"
  shows "ReqCheckRelationByID_Clear rt m = (ReqCheckRelationByID_new rt)\<lparr>ReqCheckRelationByID_cached_size := ReqCheckRelationByID_cached_size m\<rparr>"
  using assms
  by (cases "ReqCheckRelationByID_has_bits m AND 255 = 0"; intro ReqCheckRelationByID.equality;
      simp add: ReqCheckRelationByID_Clear_def ReqCheckRelationByID_new_def ReqCheckRelationByID_wf_def ReqCheckRelationByID_block0 Let_def)

text \<open>The test of a whole block of presence bits is an optimisation.\<close>

lemma ReqCheckRelationByID_MergeFrom_eq:
  "ReqCheckRelationByID_MergeFrom rt src m =
    (let m = if_set (ReqCheckRelationByID_has_fromid src) (ReqCheckRelationByID_set_fromid (ReqCheckRelationByID_fromid src)) m;
         m = if_set (ReqCheckRelationByID_has_toid src) (ReqCheckRelationByID_set_toid (ReqCheckRelationByID_toid src)) m
     in ReqCheckRelationByID_unknown_fields_update (\<lambda>u. UnknownMerge rt u (ReqCheckRelationByID_unknown_fields src)) m)"
  by (cases "ReqCheckRelationByID_has_bits src AND 255 = 0")
    (simp_all add: ReqCheckRelationByID_MergeFrom_def Let_def ReqCheckRelationByID_block0 split del: if_split)

context wire_format
begin

lemma ReqCheckRelationByID_dec: "ReqCheckRelationByID_step rt l s = Goto l' s' \<Longrightarrow> length (fst s') < length (fst s)"
  unfolding ReqCheckRelationByID_step_def
  by (erule merge_step_dec [rotated]) (auto simp: ReqCheckRelationByID_field_def split: if_splits dest: field_dec)

lemma ReqCheckRelationByID_parser_returns: "\<exists>r. ReqCheckRelationByID_MergePartialFromCodedStream rt s = Some r"
  unfolding ReqCheckRelationByID_MergePartialFromCodedStream_def by (rule run_enough) (auto dest: ReqCheckRelationByID_dec)

lemma ReqCheckRelationByID_copy:
  assumes "ReqCheckRelationByID_wf src" and "ReqCheckRelationByID_wf m"
  shows "ReqCheckRelationByID_CopyFrom rt src m = src\<lparr>ReqCheckRelationByID_cached_size := ReqCheckRelationByID_cached_size m\<rparr>"
  unfolding ReqCheckRelationByID_CopyFrom_def ReqCheckRelationByID_Clear_new [OF assms(2)] ReqCheckRelationByID_MergeFrom_eq Let_def
  by (rule ReqCheckRelationByID.equality)
    (simp_all add: ReqCheckRelationByID_opts ReqCheckRelationByID_new_def unknown_merge ReqCheckRelationByID_absent [OF assms(1)] ReqCheckRelationByID_bits [OF assms(1)]
      cong: if_cong split del: if_split)

lemma ReqCheckRelationByID_size:
  assumes "ReqCheckRelationByID_short m"
  shows "fst (ReqCheckRelationByID_ByteSize rt m) = length (ReqCheckRelationByID_SerializeWithCachedSizesToArray rt m)"
  using assms
  by (cases "ReqCheckRelationByID_has_bits m AND 255 = 0")
    (simp_all add: ReqCheckRelationByID_ByteSize_def ReqCheckRelationByID_SerializeWithCachedSizesToArray_def ReqCheckRelationByID_short_def ReqCheckRelationByID_block0 Let_def int64_size int32_size
      string_size bytes_size rep_string_size rep_bytes_size unknown_size if_distrib [of length]
      cong: if_cong split del: if_split)

lemma ReqCheckRelationByID_parse_print:
  assumes "ReqCheckRelationByID_wf m" and "ReqCheckRelationByID_short m" and "UnknownEmpty rt (ReqCheckRelationByID_unknown_fields m)"
  shows "ReqCheckRelationByID_MergePartialFromCodedStream rt (ReqCheckRelationByID_SerializeWithCachedSizesToArray rt m, (ReqCheckRelationByID_new rt)\<lparr>ReqCheckRelationByID_cached_size := n\<rparr>) =
    Some (True, [], m\<lparr>ReqCheckRelationByID_unknown_fields := UnknownClear rt, ReqCheckRelationByID_cached_size := n\<rparr>)"
proof -
  have "runs (ReqCheckRelationByID_step rt) Loop (ReqCheckRelationByID_SerializeWithCachedSizesToArray rt m, (ReqCheckRelationByID_new rt)\<lparr>ReqCheckRelationByID_cached_size := n\<rparr>)
      (True, [], m\<lparr>ReqCheckRelationByID_unknown_fields := UnknownClear rt, ReqCheckRelationByID_cached_size := n\<rparr>)"
    unfolding ReqCheckRelationByID_step_def ReqCheckRelationByID_SerializeWithCachedSizesToArray_def
    apply (rule opt_int64_runs [where setter = ReqCheckRelationByID_set_fromid and ts = "[(16, 2)]" and final = False])
    subgoal by simp subgoal by simp subgoal by simp
    subgoal by (simp add: ReqCheckRelationByID_field_def) subgoal by (simp add: wiretype_defs)
    apply (rule opt_int64_runs [where setter = ReqCheckRelationByID_set_toid and ts = "[]" and final = True])
    subgoal by simp subgoal by simp subgoal by simp
    subgoal by (simp add: ReqCheckRelationByID_field_def) subgoal by (simp add: wiretype_defs)
    apply (simp only: assms(3) not_True_eq_False if_False)
    apply (rule end_runs)
    by (rule ReqCheckRelationByID.equality)
      (simp_all add: ReqCheckRelationByID_opts ReqCheckRelationByID_new_def ReqCheckRelationByID_absent [OF assms(1)] ReqCheckRelationByID_bits [OF assms(1)]
        cong: if_cong split del: if_split)
  then show ?thesis
    unfolding ReqCheckRelationByID_MergePartialFromCodedStream_def by (rule runs_run [rotated]) (auto dest: ReqCheckRelationByID_dec)
qed

end

section \<open>\<open>RspCheckRelationByID\<close>\<close>

record 'u RspCheckRelationByID =
  RspCheckRelationByID_rescode :: "u32"
  RspCheckRelationByID_resmsg :: "bytes"
  RspCheckRelationByID_has_bits :: u32
  RspCheckRelationByID_unknown_fields :: 'u
  RspCheckRelationByID_cached_size :: nat

definition RspCheckRelationByID_new :: "'u wire_rt \<Rightarrow> 'u RspCheckRelationByID" where
  "RspCheckRelationByID_new rt =
    \<lparr>RspCheckRelationByID_rescode = 0, RspCheckRelationByID_resmsg = [],
     RspCheckRelationByID_has_bits = 0, RspCheckRelationByID_unknown_fields = UnknownClear rt, RspCheckRelationByID_cached_size = 0\<rparr>"

definition RspCheckRelationByID_has_rescode :: "'u RspCheckRelationByID \<Rightarrow> bool" where
  "RspCheckRelationByID_has_rescode m \<longleftrightarrow> RspCheckRelationByID_has_bits m AND 1 \<noteq> 0"

definition RspCheckRelationByID_set_rescode :: "u32 \<Rightarrow> 'u RspCheckRelationByID \<Rightarrow> 'u RspCheckRelationByID" where
  "RspCheckRelationByID_set_rescode v m = m\<lparr>RspCheckRelationByID_has_bits := RspCheckRelationByID_has_bits m OR 1, RspCheckRelationByID_rescode := v\<rparr>"

definition RspCheckRelationByID_has_resmsg :: "'u RspCheckRelationByID \<Rightarrow> bool" where
  "RspCheckRelationByID_has_resmsg m \<longleftrightarrow> RspCheckRelationByID_has_bits m AND 2 \<noteq> 0"

definition RspCheckRelationByID_set_resmsg :: "bytes \<Rightarrow> 'u RspCheckRelationByID \<Rightarrow> 'u RspCheckRelationByID" where
  "RspCheckRelationByID_set_resmsg v m = m\<lparr>RspCheckRelationByID_has_bits := RspCheckRelationByID_has_bits m OR 2, RspCheckRelationByID_resmsg := v\<rparr>"

definition RspCheckRelationByID_Clear :: "'u wire_rt \<Rightarrow> 'u RspCheckRelationByID \<Rightarrow> 'u RspCheckRelationByID" where
  "RspCheckRelationByID_Clear rt m =
    (let m = (if RspCheckRelationByID_has_bits m AND 255 \<noteq> 0 then m\<lparr>RspCheckRelationByID_rescode := 0,
             RspCheckRelationByID_resmsg := if RspCheckRelationByID_has_resmsg m then [] else RspCheckRelationByID_resmsg m\<rparr> else m)
     in m\<lparr>RspCheckRelationByID_has_bits := 0, RspCheckRelationByID_unknown_fields := UnknownClear rt\<rparr>)"

definition RspCheckRelationByID_field :: "'u wire_rt \<Rightarrow> nat \<Rightarrow> bytes \<times> 'u RspCheckRelationByID \<Rightarrow> ('u RspCheckRelationByID) outcome" where
  "RspCheckRelationByID_field rt k =
    (if k = 1 then read_varint (ReadInt32 rt) RspCheckRelationByID_set_rescode
       (expect_next rt [(18, 2)] False)
     else if k = 2 then read_delimited (ReadString rt) RspCheckRelationByID_set_resmsg
       (expect_next rt [] True)
     else Return False)"

definition RspCheckRelationByID_step :: "'u wire_rt \<Rightarrow> label \<Rightarrow> bytes \<times> 'u RspCheckRelationByID \<Rightarrow> ('u RspCheckRelationByID) outcome" where
  "RspCheckRelationByID_step rt = merge_step rt
    [(1, WIRETYPE_VARINT), (2, WIRETYPE_LENGTH_DELIMITED)]
    (RspCheckRelationByID_field rt) RspCheckRelationByID_unknown_fields_update RspCheckRelationByID_unknown_fields"

definition RspCheckRelationByID_MergePartialFromCodedStream :: "'u wire_rt \<Rightarrow> bytes \<times> 'u RspCheckRelationByID \<Rightarrow> (bool \<times> bytes \<times> 'u RspCheckRelationByID) option" where
  "RspCheckRelationByID_MergePartialFromCodedStream rt s = run (RspCheckRelationByID_step rt) (Suc (length (fst s))) Loop s"

definition RspCheckRelationByID_SerializeWithCachedSizesToArray :: "'u wire_rt \<Rightarrow> 'u RspCheckRelationByID \<Rightarrow> bytes" where
  "RspCheckRelationByID_SerializeWithCachedSizesToArray rt m =
     (if RspCheckRelationByID_has_rescode m then WriteInt32ToArray rt 1 (RspCheckRelationByID_rescode m) else []) @
     (if RspCheckRelationByID_has_resmsg m then WriteStringToArray rt 2 (RspCheckRelationByID_resmsg m) else []) @
     (if \<not> UnknownEmpty rt (RspCheckRelationByID_unknown_fields m) then SerializeUnknownFieldsToArray rt (RspCheckRelationByID_unknown_fields m) else [])"

definition RspCheckRelationByID_ByteSize :: "'u wire_rt \<Rightarrow> 'u RspCheckRelationByID \<Rightarrow> nat \<times> 'u RspCheckRelationByID" where
  "RspCheckRelationByID_ByteSize rt m =
    (let total_size =
         (if RspCheckRelationByID_has_bits m AND 255 \<noteq> 0 then
           (if RspCheckRelationByID_has_rescode m then 1 + Int32Size rt (RspCheckRelationByID_rescode m) else 0) +
           (if RspCheckRelationByID_has_resmsg m then 1 + StringSize rt (RspCheckRelationByID_resmsg m) else 0)
         else 0) +
         (if \<not> UnknownEmpty rt (RspCheckRelationByID_unknown_fields m) then ComputeUnknownFieldsSize rt (RspCheckRelationByID_unknown_fields m) else 0)
     in (total_size, m\<lparr>RspCheckRelationByID_cached_size := total_size\<rparr>))"

definition RspCheckRelationByID_MergeFrom :: "'u wire_rt \<Rightarrow> 'u RspCheckRelationByID \<Rightarrow> 'u RspCheckRelationByID \<Rightarrow> 'u RspCheckRelationByID" where
  "RspCheckRelationByID_MergeFrom rt src m =
    (let m = if_set (RspCheckRelationByID_has_bits src AND 255 \<noteq> 0) (\<lambda>m.
           let m = if_set (RspCheckRelationByID_has_rescode src) (RspCheckRelationByID_set_rescode (RspCheckRelationByID_rescode src)) m;
               m = if_set (RspCheckRelationByID_has_resmsg src) (RspCheckRelationByID_set_resmsg (RspCheckRelationByID_resmsg src)) m
           in m) m
     in RspCheckRelationByID_unknown_fields_update (\<lambda>u. UnknownMerge rt u (RspCheckRelationByID_unknown_fields src)) m)"

definition RspCheckRelationByID_CopyFrom :: "'u wire_rt \<Rightarrow> 'u RspCheckRelationByID \<Rightarrow> 'u RspCheckRelationByID \<Rightarrow> 'u RspCheckRelationByID" where
  "RspCheckRelationByID_CopyFrom rt src m = RspCheckRelationByID_MergeFrom rt src (RspCheckRelationByID_Clear rt m)"

definition RspCheckRelationByID_IsInitialized :: "'u RspCheckRelationByID \<Rightarrow> bool" where
  "RspCheckRelationByID_IsInitialized m \<longleftrightarrow> RspCheckRelationByID_has_bits m AND 3 = 3"

text \<open>The class invariant: no presence bit beyond the fields, and a field that is not present
  holds its default.\<close>

definition RspCheckRelationByID_wf :: "'u RspCheckRelationByID \<Rightarrow> bool" where
  "RspCheckRelationByID_wf m \<longleftrightarrow>
     RspCheckRelationByID_has_bits m AND 3 = RspCheckRelationByID_has_bits m \<and>
     (\<not> RspCheckRelationByID_has_rescode m \<longrightarrow> RspCheckRelationByID_rescode m = 0) \<and>
     (\<not> RspCheckRelationByID_has_resmsg m \<longrightarrow> RspCheckRelationByID_resmsg m = [])"

definition RspCheckRelationByID_short :: "'u RspCheckRelationByID \<Rightarrow> bool" where
  "RspCheckRelationByID_short m \<longleftrightarrow> length (RspCheckRelationByID_resmsg m) < 2 ^ 31"

lemmas RspCheckRelationByID_accessors =
  RspCheckRelationByID_has_rescode_def RspCheckRelationByID_has_resmsg_def RspCheckRelationByID_set_rescode_def RspCheckRelationByID_set_resmsg_def

lemma RspCheckRelationByID_block0:
  assumes "RspCheckRelationByID_has_bits m AND 255 = 0"
  shows "\<not> RspCheckRelationByID_has_rescode m" "\<not> RspCheckRelationByID_has_resmsg m"
  using mask_zero [OF assms] by (simp_all add: RspCheckRelationByID_accessors)

lemma RspCheckRelationByID_opt_rescode:
  "if_set h (RspCheckRelationByID_set_rescode v) m =
    RspCheckRelationByID_has_bits_update (\<lambda>b. b OR (if h then 1 else 0))
      (RspCheckRelationByID_rescode_update (\<lambda>x. if h then v else x) m)"
  by (cases h) (simp_all add: RspCheckRelationByID_accessors)

lemma RspCheckRelationByID_opt_resmsg:
  "if_set h (RspCheckRelationByID_set_resmsg v) m =
    RspCheckRelationByID_has_bits_update (\<lambda>b. b OR (if h then 2 else 0))
      (RspCheckRelationByID_resmsg_update (\<lambda>x. if h then v else x) m)"
  by (cases h) (simp_all add: RspCheckRelationByID_accessors)

lemmas RspCheckRelationByID_opts =
  RspCheckRelationByID_opt_rescode RspCheckRelationByID_opt_resmsg

lemma RspCheckRelationByID_absent:
  assumes "RspCheckRelationByID_wf m"
  shows "(if RspCheckRelationByID_has_rescode m then RspCheckRelationByID_rescode m else 0) = RspCheckRelationByID_rescode m"
    "(if RspCheckRelationByID_has_resmsg m then RspCheckRelationByID_resmsg m else []) = RspCheckRelationByID_resmsg m"
  using assms by (simp_all add: RspCheckRelationByID_wf_def)

lemma RspCheckRelationByID_bits:
  assumes "RspCheckRelationByID_wf m"
  shows "(if RspCheckRelationByID_has_rescode m then 1 else 0) OR
    (if RspCheckRelationByID_has_resmsg m then 2 else 0) = RspCheckRelationByID_has_bits m"
proof -
  have "(if RspCheckRelationByID_has_rescode m then 1 else 0) OR
    (if RspCheckRelationByID_has_resmsg m then 2 else 0) = RspCheckRelationByID_has_bits m AND 3"
    unfolding RspCheckRelationByID_accessors by (simp add: flag_simps flags_join split del: if_split)
  also have "\<dots> = RspCheckRelationByID_has_bits m" using assms by (simp add: RspCheckRelationByID_wf_def)
  finally show ?thesis .
qed

lemma RspCheckRelationByID_wf_set [simp, intro]:
  assumes "RspCheckRelationByID_wf m"
  shows "RspCheckRelationByID_wf (RspCheckRelationByID_set_rescode v0 m)"
    "RspCheckRelationByID_wf (RspCheckRelationByID_set_resmsg v1 m)"
  using assms
  by (simp_all add: RspCheckRelationByID_wf_def RspCheckRelationByID_accessors set_flag_mask set_flag_other mask_or)

lemma RspCheckRelationByID_wf_unknown [simp, intro]: "RspCheckRelationByID_wf m \<Longrightarrow> RspCheckRelationByID_wf (RspCheckRelationByID_unknown_fields_update u m)"
  by (simp add: RspCheckRelationByID_wf_def RspCheckRelationByID_accessors)

lemma RspCheckRelationByID_wf_size [simp, intro]: "RspCheckRelationByID_wf m \<Longrightarrow> RspCheckRelationByID_wf (RspCheckRelationByID_cached_size_update u m)"
  by (simp add: RspCheckRelationByID_wf_def RspCheckRelationByID_accessors)

lemma RspCheckRelationByID_wf_parse:
  assumes "RspCheckRelationByID_MergePartialFromCodedStream rt s = Some (ok, s')" and "RspCheckRelationByID_wf (snd s)"
  shows "RspCheckRelationByID_wf (snd s')"
  using assms unfolding RspCheckRelationByID_MergePartialFromCodedStream_def RspCheckRelationByID_step_def
  by (rule run_invariant [where I = RspCheckRelationByID_wf, rotated])
    (rule out_merge_step [where I = RspCheckRelationByID_wf], auto simp: RspCheckRelationByID_field_def
      intro!: out_read_varint [where I = RspCheckRelationByID_wf] out_read_delimited [where I = RspCheckRelationByID_wf])

lemma RspCheckRelationByID_wf_new [simp, intro]: "RspCheckRelationByID_wf (RspCheckRelationByID_new rt)"
  by (simp add: RspCheckRelationByID_wf_def RspCheckRelationByID_new_def RspCheckRelationByID_accessors)

lemma RspCheckRelationByID_Clear_new:
  assumes "RspCheckRelationByID_wf m"
  shows "RspCheckRelationByID_Clear rt m = (RspCheckRelationByID_new rt)\<lparr>RspCheckRelationByID_cached_size := RspCheckRelationByID_cached_size m\<rparr>"
  using assms
  by (cases "RspCheckRelationByID_has_bits m AND 255 = 0"; intro RspCheckRelationByID.equality;
      simp add: RspCheckRelationByID_Clear_def RspCheckRelationByID_new_def RspCheckRelationByID_wf_def RspCheckRelationByID_block0 Let_def)

text \<open>The test of a whole block of presence bits is an optimisation.\<close>

lemma RspCheckRelationByID_MergeFrom_eq:
  "RspCheckRelationByID_MergeFrom rt src m =
    (let m = if_set (RspCheckRelationByID_has_rescode src) (RspCheckRelationByID_set_rescode (RspCheckRelationByID_rescode src)) m;
         m = if_set (RspCheckRelationByID_has_resmsg src) (RspCheckRelationByID_set_resmsg (RspCheckRelationByID_resmsg src)) m
     in RspCheckRelationByID_unknown_fields_update (\<lambda>u. UnknownMerge rt u (RspCheckRelationByID_unknown_fields src)) m)"
  by (cases "RspCheckRelationByID_has_bits src AND 255 = 0")
    (simp_all add: RspCheckRelationByID_MergeFrom_def Let_def RspCheckRelationByID_block0 split del: if_split)

context wire_format
begin

lemma RspCheckRelationByID_dec: "RspCheckRelationByID_step rt l s = Goto l' s' \<Longrightarrow> length (fst s') < length (fst s)"
  unfolding RspCheckRelationByID_step_def
  by (erule merge_step_dec [rotated]) (auto simp: RspCheckRelationByID_field_def split: if_splits dest: field_dec)

lemma RspCheckRelationByID_parser_returns: "\<exists>r. RspCheckRelationByID_MergePartialFromCodedStream rt s = Some r"
  unfolding RspCheckRelationByID_MergePartialFromCodedStream_def by (rule run_enough) (auto dest: RspCheckRelationByID_dec)

lemma RspCheckRelationByID_copy:
  assumes "RspCheckRelationByID_wf src" and "RspCheckRelationByID_wf m"
  shows "RspCheckRelationByID_CopyFrom rt src m = src\<lparr>RspCheckRelationByID_cached_size := RspCheckRelationByID_cached_size m\<rparr>"
  unfolding RspCheckRelationByID_CopyFrom_def RspCheckRelationByID_Clear_new [OF assms(2)] RspCheckRelationByID_MergeFrom_eq Let_def
  by (rule RspCheckRelationByID.equality)
    (simp_all add: RspCheckRelationByID_opts RspCheckRelationByID_new_def unknown_merge RspCheckRelationByID_absent [OF assms(1)] RspCheckRelationByID_bits [OF assms(1)]
      cong: if_cong split del: if_split)

lemma RspCheckRelationByID_size:
  assumes "RspCheckRelationByID_short m"
  shows "fst (RspCheckRelationByID_ByteSize rt m) = length (RspCheckRelationByID_SerializeWithCachedSizesToArray rt m)"
  using assms
  by (cases "RspCheckRelationByID_has_bits m AND 255 = 0")
    (simp_all add: RspCheckRelationByID_ByteSize_def RspCheckRelationByID_SerializeWithCachedSizesToArray_def RspCheckRelationByID_short_def RspCheckRelationByID_block0 Let_def int64_size int32_size
      string_size bytes_size rep_string_size rep_bytes_size unknown_size if_distrib [of length]
      cong: if_cong split del: if_split)

lemma RspCheckRelationByID_parse_print:
  assumes "RspCheckRelationByID_wf m" and "RspCheckRelationByID_short m" and "UnknownEmpty rt (RspCheckRelationByID_unknown_fields m)"
  shows "RspCheckRelationByID_MergePartialFromCodedStream rt (RspCheckRelationByID_SerializeWithCachedSizesToArray rt m, (RspCheckRelationByID_new rt)\<lparr>RspCheckRelationByID_cached_size := n\<rparr>) =
    Some (True, [], m\<lparr>RspCheckRelationByID_unknown_fields := UnknownClear rt, RspCheckRelationByID_cached_size := n\<rparr>)"
proof -
  have "runs (RspCheckRelationByID_step rt) Loop (RspCheckRelationByID_SerializeWithCachedSizesToArray rt m, (RspCheckRelationByID_new rt)\<lparr>RspCheckRelationByID_cached_size := n\<rparr>)
      (True, [], m\<lparr>RspCheckRelationByID_unknown_fields := UnknownClear rt, RspCheckRelationByID_cached_size := n\<rparr>)"
    unfolding RspCheckRelationByID_step_def RspCheckRelationByID_SerializeWithCachedSizesToArray_def
    apply (rule opt_int32_runs [where setter = RspCheckRelationByID_set_rescode and ts = "[(18, 2)]" and final = False])
    subgoal by simp subgoal by simp subgoal by simp
    subgoal by (simp add: RspCheckRelationByID_field_def) subgoal by (simp add: wiretype_defs)
    apply (rule opt_string_runs [where setter = RspCheckRelationByID_set_resmsg and ts = "[]" and final = True])
    subgoal by simp subgoal by simp subgoal by simp
    subgoal using assms(2) by (simp add: RspCheckRelationByID_short_def)
    subgoal by (simp add: RspCheckRelationByID_field_def) subgoal by (simp add: wiretype_defs)
    apply (simp only: assms(3) not_True_eq_False if_False)
    apply (rule end_runs)
    by (rule RspCheckRelationByID.equality)
      (simp_all add: RspCheckRelationByID_opts RspCheckRelationByID_new_def RspCheckRelationByID_absent [OF assms(1)] RspCheckRelationByID_bits [OF assms(1)]
        cong: if_cong split del: if_split)
  then show ?thesis
    unfolding RspCheckRelationByID_MergePartialFromCodedStream_def by (rule runs_run [rotated]) (auto dest: RspCheckRelationByID_dec)
qed

end

end
