(* ===== verification/Comet_Pb_Packet.thy ===== *)
theory Comet_Pb_Packet
  imports Pb_Wire
begin

text \<open>
  The envelope of the requests to the account service: \<open>ReqPacket\<close> and \<open>RspPacket\<close> of
  \<open>src/core/comet.pb.cc\<close> and \<open>comet.pb.h\<close>, with the same lemmas as the login messages.
\<close>

section \<open>\<open>ReqPacket\<close>\<close>

record 'u ReqPacket =
  ReqPacket_mask :: "u32"
  ReqPacket_udi :: "bytes"
  ReqPacket_action :: "bytes list"
  ReqPacket_params :: "bytes list"
  ReqPacket_reqno :: "u32"
  ReqPacket_chnno :: "u32"
  ReqPacket_chnpos :: "u32"
  ReqPacket_clientid :: "u32"
  ReqPacket_clientpos :: "u32"
  ReqPacket_clientver :: "bytes"
  ReqPacket_rsakeyver :: "bytes"
  ReqPacket_has_bits :: u32
  ReqPacket_unknown_fields :: 'u
  ReqPacket_cached_size :: nat

definition ReqPacket_new :: "'u wire_rt \<Rightarrow> 'u ReqPacket" where
  "ReqPacket_new rt =
    \<lparr>ReqPacket_mask = 0, ReqPacket_udi = [], ReqPacket_action = [], ReqPacket_params = [], ReqPacket_reqno = 0, ReqPacket_chnno = 0, ReqPacket_chnpos = 0, ReqPacket_clientid = 0, ReqPacket_clientpos = 0, ReqPacket_clientver = [], ReqPacket_rsakeyver = [],
     ReqPacket_has_bits = 0, ReqPacket_unknown_fields = UnknownClear rt, ReqPacket_cached_size = 0\<rparr>"

definition ReqPacket_has_mask :: "'u ReqPacket \<Rightarrow> bool" where
  "ReqPacket_has_mask m \<longleftrightarrow> ReqPacket_has_bits m AND 1 \<noteq> 0"

definition ReqPacket_set_mask :: "u32 \<Rightarrow> 'u ReqPacket \<Rightarrow> 'u ReqPacket" where
  "ReqPacket_set_mask v m = m\<lparr>ReqPacket_has_bits := ReqPacket_has_bits m OR 1, ReqPacket_mask := v\<rparr>"

definition ReqPacket_has_udi :: "'u ReqPacket \<Rightarrow> bool" where
  "ReqPacket_has_udi m \<longleftrightarrow> ReqPacket_has_bits m AND 2 \<noteq> 0"

definition ReqPacket_set_udi :: "bytes \<Rightarrow> 'u ReqPacket \<Rightarrow> 'u ReqPacket" where
  "ReqPacket_set_udi v m = m\<lparr>ReqPacket_has_bits := ReqPacket_has_bits m OR 2, ReqPacket_udi := v\<rparr>"

definition ReqPacket_add_action :: "bytes \<Rightarrow> 'u ReqPacket \<Rightarrow> 'u ReqPacket" where
  "ReqPacket_add_action v m = m\<lparr>ReqPacket_action := ReqPacket_action m @ [v]\<rparr>"

text \<open>The overload for a C string stops at the first NUL.\<close>

definition ReqPacket_add_action_cstr :: "bytes \<Rightarrow> 'u ReqPacket \<Rightarrow> 'u ReqPacket" where
  "ReqPacket_add_action_cstr v m = m\<lparr>ReqPacket_action := ReqPacket_action m @ [takeWhile (\<lambda>c. c \<noteq> 0) v]\<rparr>"

definition ReqPacket_add_params :: "bytes \<Rightarrow> 'u ReqPacket \<Rightarrow> 'u ReqPacket" where
  "ReqPacket_add_params v m = m\<lparr>ReqPacket_params := ReqPacket_params m @ [v]\<rparr>"

text \<open>The overload for a C string stops at the first NUL.\<close>

definition ReqPacket_add_params_cstr :: "bytes \<Rightarrow> 'u ReqPacket \<Rightarrow> 'u ReqPacket" where
  "ReqPacket_add_params_cstr v m = m\<lparr>ReqPacket_params := ReqPacket_params m @ [takeWhile (\<lambda>c. c \<noteq> 0) v]\<rparr>"

definition ReqPacket_has_reqno :: "'u ReqPacket \<Rightarrow> bool" where
  "ReqPacket_has_reqno m \<longleftrightarrow> ReqPacket_has_bits m AND 16 \<noteq> 0"

definition ReqPacket_set_reqno :: "u32 \<Rightarrow> 'u ReqPacket \<Rightarrow> 'u ReqPacket" where
  "ReqPacket_set_reqno v m = m\<lparr>ReqPacket_has_bits := ReqPacket_has_bits m OR 16, ReqPacket_reqno := v\<rparr>"

definition ReqPacket_has_chnno :: "'u ReqPacket \<Rightarrow> bool" where
  "ReqPacket_has_chnno m \<longleftrightarrow> ReqPacket_has_bits m AND 32 \<noteq> 0"

definition ReqPacket_set_chnno :: "u32 \<Rightarrow> 'u ReqPacket \<Rightarrow> 'u ReqPacket" where
  "ReqPacket_set_chnno v m = m\<lparr>ReqPacket_has_bits := ReqPacket_has_bits m OR 32, ReqPacket_chnno := v\<rparr>"

definition ReqPacket_has_chnpos :: "'u ReqPacket \<Rightarrow> bool" where
  "ReqPacket_has_chnpos m \<longleftrightarrow> ReqPacket_has_bits m AND 64 \<noteq> 0"

definition ReqPacket_set_chnpos :: "u32 \<Rightarrow> 'u ReqPacket \<Rightarrow> 'u ReqPacket" where
  "ReqPacket_set_chnpos v m = m\<lparr>ReqPacket_has_bits := ReqPacket_has_bits m OR 64, ReqPacket_chnpos := v\<rparr>"

definition ReqPacket_has_clientid :: "'u ReqPacket \<Rightarrow> bool" where
  "ReqPacket_has_clientid m \<longleftrightarrow> ReqPacket_has_bits m AND 128 \<noteq> 0"

definition ReqPacket_set_clientid :: "u32 \<Rightarrow> 'u ReqPacket \<Rightarrow> 'u ReqPacket" where
  "ReqPacket_set_clientid v m = m\<lparr>ReqPacket_has_bits := ReqPacket_has_bits m OR 128, ReqPacket_clientid := v\<rparr>"

definition ReqPacket_has_clientpos :: "'u ReqPacket \<Rightarrow> bool" where
  "ReqPacket_has_clientpos m \<longleftrightarrow> ReqPacket_has_bits m AND 256 \<noteq> 0"

definition ReqPacket_set_clientpos :: "u32 \<Rightarrow> 'u ReqPacket \<Rightarrow> 'u ReqPacket" where
  "ReqPacket_set_clientpos v m = m\<lparr>ReqPacket_has_bits := ReqPacket_has_bits m OR 256, ReqPacket_clientpos := v\<rparr>"

definition ReqPacket_has_clientver :: "'u ReqPacket \<Rightarrow> bool" where
  "ReqPacket_has_clientver m \<longleftrightarrow> ReqPacket_has_bits m AND 512 \<noteq> 0"

definition ReqPacket_set_clientver :: "bytes \<Rightarrow> 'u ReqPacket \<Rightarrow> 'u ReqPacket" where
  "ReqPacket_set_clientver v m = m\<lparr>ReqPacket_has_bits := ReqPacket_has_bits m OR 512, ReqPacket_clientver := v\<rparr>"

definition ReqPacket_has_rsakeyver :: "'u ReqPacket \<Rightarrow> bool" where
  "ReqPacket_has_rsakeyver m \<longleftrightarrow> ReqPacket_has_bits m AND 1024 \<noteq> 0"

definition ReqPacket_set_rsakeyver :: "bytes \<Rightarrow> 'u ReqPacket \<Rightarrow> 'u ReqPacket" where
  "ReqPacket_set_rsakeyver v m = m\<lparr>ReqPacket_has_bits := ReqPacket_has_bits m OR 1024, ReqPacket_rsakeyver := v\<rparr>"

definition ReqPacket_Clear :: "'u wire_rt \<Rightarrow> 'u ReqPacket \<Rightarrow> 'u ReqPacket" where
  "ReqPacket_Clear rt m =
    (let m = (if ReqPacket_has_bits m AND 255 \<noteq> 0 then m\<lparr>ReqPacket_mask := 0,
             ReqPacket_udi := if ReqPacket_has_udi m then [] else ReqPacket_udi m,
             ReqPacket_reqno := 0,
             ReqPacket_chnno := 0,
             ReqPacket_chnpos := 0,
             ReqPacket_clientid := 0\<rparr> else m);
         m = (if ReqPacket_has_bits m AND 65280 \<noteq> 0 then m\<lparr>ReqPacket_clientpos := 0,
             ReqPacket_clientver := if ReqPacket_has_clientver m then [] else ReqPacket_clientver m,
             ReqPacket_rsakeyver := if ReqPacket_has_rsakeyver m then [] else ReqPacket_rsakeyver m\<rparr> else m);
         m = m\<lparr>ReqPacket_action := [], ReqPacket_params := []\<rparr>
     in m\<lparr>ReqPacket_has_bits := 0, ReqPacket_unknown_fields := UnknownClear rt\<rparr>)"

definition ReqPacket_field :: "'u wire_rt \<Rightarrow> nat \<Rightarrow> bytes \<times> 'u ReqPacket \<Rightarrow> ('u ReqPacket) outcome" where
  "ReqPacket_field rt k =
    (if k = 1 then read_varint (ReadInt32 rt) ReqPacket_set_mask
       (expect_next rt [(18, 2)] False)
     else if k = 2 then read_delimited (ReadString rt) ReqPacket_set_udi
       (expect_next rt [(26, 3)] False)
     else if k = 3 then read_delimited (ReadString rt) ReqPacket_add_action
       (expect_next rt [(26, 3), (34, 4)] False)
     else if k = 4 then read_delimited (ReadBytes rt) ReqPacket_add_params
       (expect_next rt [(34, 4), (40, 5)] False)
     else if k = 5 then read_varint (ReadInt32 rt) ReqPacket_set_reqno
       (expect_next rt [(48, 6)] False)
     else if k = 6 then read_varint (ReadInt32 rt) ReqPacket_set_chnno
       (expect_next rt [(56, 7)] False)
     else if k = 7 then read_varint (ReadInt32 rt) ReqPacket_set_chnpos
       (expect_next rt [(64, 8)] False)
     else if k = 8 then read_varint (ReadInt32 rt) ReqPacket_set_clientid
       (expect_next rt [(72, 9)] False)
     else if k = 9 then read_varint (ReadInt32 rt) ReqPacket_set_clientpos
       (expect_next rt [(82, 10)] False)
     else if k = 10 then read_delimited (ReadString rt) ReqPacket_set_clientver
       (expect_next rt [(90, 11)] False)
     else if k = 11 then read_delimited (ReadString rt) ReqPacket_set_rsakeyver
       (expect_next rt [] True)
     else Return False)"

definition ReqPacket_step :: "'u wire_rt \<Rightarrow> label \<Rightarrow> bytes \<times> 'u ReqPacket \<Rightarrow> ('u ReqPacket) outcome" where
  "ReqPacket_step rt = merge_step rt
    [(1, WIRETYPE_VARINT), (2, WIRETYPE_LENGTH_DELIMITED), (3, WIRETYPE_LENGTH_DELIMITED), (4, WIRETYPE_LENGTH_DELIMITED), (5, WIRETYPE_VARINT), (6, WIRETYPE_VARINT), (7, WIRETYPE_VARINT), (8, WIRETYPE_VARINT), (9, WIRETYPE_VARINT), (10, WIRETYPE_LENGTH_DELIMITED), (11, WIRETYPE_LENGTH_DELIMITED)]
    (ReqPacket_field rt) ReqPacket_unknown_fields_update ReqPacket_unknown_fields"

definition ReqPacket_MergePartialFromCodedStream :: "'u wire_rt \<Rightarrow> bytes \<times> 'u ReqPacket \<Rightarrow> (bool \<times> bytes \<times> 'u ReqPacket) option" where
  "ReqPacket_MergePartialFromCodedStream rt s = run (ReqPacket_step rt) (Suc (length (fst s))) Loop s"

definition ReqPacket_SerializeWithCachedSizesToArray :: "'u wire_rt \<Rightarrow> 'u ReqPacket \<Rightarrow> bytes" where
  "ReqPacket_SerializeWithCachedSizesToArray rt m =
     (if ReqPacket_has_mask m then WriteInt32ToArray rt 1 (ReqPacket_mask m) else []) @
     (if ReqPacket_has_udi m then WriteStringToArray rt 2 (ReqPacket_udi m) else []) @
     concat (map (WriteStringToArray rt 3) (ReqPacket_action m)) @
     concat (map (WriteBytesToArray rt 4) (ReqPacket_params m)) @
     (if ReqPacket_has_reqno m then WriteInt32ToArray rt 5 (ReqPacket_reqno m) else []) @
     (if ReqPacket_has_chnno m then WriteInt32ToArray rt 6 (ReqPacket_chnno m) else []) @
     (if ReqPacket_has_chnpos m then WriteInt32ToArray rt 7 (ReqPacket_chnpos m) else []) @
     (if ReqPacket_has_clientid m then WriteInt32ToArray rt 8 (ReqPacket_clientid m) else []) @
     (if ReqPacket_has_clientpos m then WriteInt32ToArray rt 9 (ReqPacket_clientpos m) else []) @
     (if ReqPacket_has_clientver m then WriteStringToArray rt 10 (ReqPacket_clientver m) else []) @
     (if ReqPacket_has_rsakeyver m then WriteStringToArray rt 11 (ReqPacket_rsakeyver m) else []) @
     (if \<not> UnknownEmpty rt (ReqPacket_unknown_fields m) then SerializeUnknownFieldsToArray rt (ReqPacket_unknown_fields m) else [])"

definition ReqPacket_ByteSize :: "'u wire_rt \<Rightarrow> 'u ReqPacket \<Rightarrow> nat \<times> 'u ReqPacket" where
  "ReqPacket_ByteSize rt m =
    (let total_size =
         (if ReqPacket_has_bits m AND 255 \<noteq> 0 then
           (if ReqPacket_has_mask m then 1 + Int32Size rt (ReqPacket_mask m) else 0) +
           (if ReqPacket_has_udi m then 1 + StringSize rt (ReqPacket_udi m) else 0) +
           (if ReqPacket_has_reqno m then 1 + Int32Size rt (ReqPacket_reqno m) else 0) +
           (if ReqPacket_has_chnno m then 1 + Int32Size rt (ReqPacket_chnno m) else 0) +
           (if ReqPacket_has_chnpos m then 1 + Int32Size rt (ReqPacket_chnpos m) else 0) +
           (if ReqPacket_has_clientid m then 1 + Int32Size rt (ReqPacket_clientid m) else 0)
         else 0) +
         (if ReqPacket_has_bits m AND 65280 \<noteq> 0 then
           (if ReqPacket_has_clientpos m then 1 + Int32Size rt (ReqPacket_clientpos m) else 0) +
           (if ReqPacket_has_clientver m then 1 + StringSize rt (ReqPacket_clientver m) else 0) +
           (if ReqPacket_has_rsakeyver m then 1 + StringSize rt (ReqPacket_rsakeyver m) else 0)
         else 0) +
         1 * length (ReqPacket_action m) + sum_list (map (StringSize rt) (ReqPacket_action m)) +
         1 * length (ReqPacket_params m) + sum_list (map (BytesSize rt) (ReqPacket_params m)) +
         (if \<not> UnknownEmpty rt (ReqPacket_unknown_fields m) then ComputeUnknownFieldsSize rt (ReqPacket_unknown_fields m) else 0)
     in (total_size, m\<lparr>ReqPacket_cached_size := total_size\<rparr>))"

definition ReqPacket_MergeFrom :: "'u wire_rt \<Rightarrow> 'u ReqPacket \<Rightarrow> 'u ReqPacket \<Rightarrow> 'u ReqPacket" where
  "ReqPacket_MergeFrom rt src m =
    (let m = m\<lparr>ReqPacket_action := ReqPacket_action m @ ReqPacket_action src, ReqPacket_params := ReqPacket_params m @ ReqPacket_params src\<rparr>;
         m = if_set (ReqPacket_has_bits src AND 255 \<noteq> 0) (\<lambda>m.
           let m = if_set (ReqPacket_has_mask src) (ReqPacket_set_mask (ReqPacket_mask src)) m;
               m = if_set (ReqPacket_has_udi src) (ReqPacket_set_udi (ReqPacket_udi src)) m;
               m = if_set (ReqPacket_has_reqno src) (ReqPacket_set_reqno (ReqPacket_reqno src)) m;
               m = if_set (ReqPacket_has_chnno src) (ReqPacket_set_chnno (ReqPacket_chnno src)) m;
               m = if_set (ReqPacket_has_chnpos src) (ReqPacket_set_chnpos (ReqPacket_chnpos src)) m;
               m = if_set (ReqPacket_has_clientid src) (ReqPacket_set_clientid (ReqPacket_clientid src)) m
           in m) m;
         m = if_set (ReqPacket_has_bits src AND 65280 \<noteq> 0) (\<lambda>m.
           let m = if_set (ReqPacket_has_clientpos src) (ReqPacket_set_clientpos (ReqPacket_clientpos src)) m;
               m = if_set (ReqPacket_has_clientver src) (ReqPacket_set_clientver (ReqPacket_clientver src)) m;
               m = if_set (ReqPacket_has_rsakeyver src) (ReqPacket_set_rsakeyver (ReqPacket_rsakeyver src)) m
           in m) m
     in ReqPacket_unknown_fields_update (\<lambda>u. UnknownMerge rt u (ReqPacket_unknown_fields src)) m)"

definition ReqPacket_CopyFrom :: "'u wire_rt \<Rightarrow> 'u ReqPacket \<Rightarrow> 'u ReqPacket \<Rightarrow> 'u ReqPacket" where
  "ReqPacket_CopyFrom rt src m = ReqPacket_MergeFrom rt src (ReqPacket_Clear rt m)"

definition ReqPacket_IsInitialized :: "'u ReqPacket \<Rightarrow> bool" where
  "ReqPacket_IsInitialized m \<longleftrightarrow> ReqPacket_has_bits m AND 147 = 147"

text \<open>The class invariant: no presence bit beyond the fields, and a field that is not present
  holds its default.\<close>

definition ReqPacket_wf :: "'u ReqPacket \<Rightarrow> bool" where
  "ReqPacket_wf m \<longleftrightarrow>
     ReqPacket_has_bits m AND 2035 = ReqPacket_has_bits m \<and>
     (\<not> ReqPacket_has_mask m \<longrightarrow> ReqPacket_mask m = 0) \<and>
     (\<not> ReqPacket_has_udi m \<longrightarrow> ReqPacket_udi m = []) \<and>
     (\<not> ReqPacket_has_reqno m \<longrightarrow> ReqPacket_reqno m = 0) \<and>
     (\<not> ReqPacket_has_chnno m \<longrightarrow> ReqPacket_chnno m = 0) \<and>
     (\<not> ReqPacket_has_chnpos m \<longrightarrow> ReqPacket_chnpos m = 0) \<and>
     (\<not> ReqPacket_has_clientid m \<longrightarrow> ReqPacket_clientid m = 0) \<and>
     (\<not> ReqPacket_has_clientpos m \<longrightarrow> ReqPacket_clientpos m = 0) \<and>
     (\<not> ReqPacket_has_clientver m \<longrightarrow> ReqPacket_clientver m = []) \<and>
     (\<not> ReqPacket_has_rsakeyver m \<longrightarrow> ReqPacket_rsakeyver m = [])"

definition ReqPacket_short :: "'u ReqPacket \<Rightarrow> bool" where
  "ReqPacket_short m \<longleftrightarrow> length (ReqPacket_udi m) < 2 ^ 31 \<and> length (ReqPacket_clientver m) < 2 ^ 31 \<and> length (ReqPacket_rsakeyver m) < 2 ^ 31 \<and> (\<forall>d \<in> set (ReqPacket_action m). length d < 2 ^ 31) \<and> (\<forall>d \<in> set (ReqPacket_params m). length d < 2 ^ 31)"

lemmas ReqPacket_accessors =
  ReqPacket_has_mask_def ReqPacket_has_udi_def ReqPacket_has_reqno_def ReqPacket_has_chnno_def ReqPacket_has_chnpos_def ReqPacket_has_clientid_def ReqPacket_has_clientpos_def ReqPacket_has_clientver_def ReqPacket_has_rsakeyver_def ReqPacket_set_mask_def ReqPacket_set_udi_def ReqPacket_set_reqno_def ReqPacket_set_chnno_def ReqPacket_set_chnpos_def ReqPacket_set_clientid_def ReqPacket_set_clientpos_def ReqPacket_set_clientver_def ReqPacket_set_rsakeyver_def ReqPacket_add_action_def ReqPacket_add_params_def

lemma ReqPacket_block0:
  assumes "ReqPacket_has_bits m AND 255 = 0"
  shows "\<not> ReqPacket_has_mask m" "\<not> ReqPacket_has_udi m" "\<not> ReqPacket_has_reqno m" "\<not> ReqPacket_has_chnno m" "\<not> ReqPacket_has_chnpos m" "\<not> ReqPacket_has_clientid m"
  using mask_zero [OF assms] by (simp_all add: ReqPacket_accessors)

lemma ReqPacket_block1:
  assumes "ReqPacket_has_bits m AND 65280 = 0"
  shows "\<not> ReqPacket_has_clientpos m" "\<not> ReqPacket_has_clientver m" "\<not> ReqPacket_has_rsakeyver m"
  using mask_zero [OF assms] by (simp_all add: ReqPacket_accessors)

lemma ReqPacket_opt_mask:
  "if_set h (ReqPacket_set_mask v) m =
    ReqPacket_has_bits_update (\<lambda>b. b OR (if h then 1 else 0))
      (ReqPacket_mask_update (\<lambda>x. if h then v else x) m)"
  by (cases h) (simp_all add: ReqPacket_accessors)

lemma ReqPacket_opt_udi:
  "if_set h (ReqPacket_set_udi v) m =
    ReqPacket_has_bits_update (\<lambda>b. b OR (if h then 2 else 0))
      (ReqPacket_udi_update (\<lambda>x. if h then v else x) m)"
  by (cases h) (simp_all add: ReqPacket_accessors)

lemma ReqPacket_opt_reqno:
  "if_set h (ReqPacket_set_reqno v) m =
    ReqPacket_has_bits_update (\<lambda>b. b OR (if h then 16 else 0))
      (ReqPacket_reqno_update (\<lambda>x. if h then v else x) m)"
  by (cases h) (simp_all add: ReqPacket_accessors)

lemma ReqPacket_opt_chnno:
  "if_set h (ReqPacket_set_chnno v) m =
    ReqPacket_has_bits_update (\<lambda>b. b OR (if h then 32 else 0))
      (ReqPacket_chnno_update (\<lambda>x. if h then v else x) m)"
  by (cases h) (simp_all add: ReqPacket_accessors)

lemma ReqPacket_opt_chnpos:
  "if_set h (ReqPacket_set_chnpos v) m =
    ReqPacket_has_bits_update (\<lambda>b. b OR (if h then 64 else 0))
      (ReqPacket_chnpos_update (\<lambda>x. if h then v else x) m)"
  by (cases h) (simp_all add: ReqPacket_accessors)

lemma ReqPacket_opt_clientid:
  "if_set h (ReqPacket_set_clientid v) m =
    ReqPacket_has_bits_update (\<lambda>b. b OR (if h then 128 else 0))
      (ReqPacket_clientid_update (\<lambda>x. if h then v else x) m)"
  by (cases h) (simp_all add: ReqPacket_accessors)

lemma ReqPacket_opt_clientpos:
  "if_set h (ReqPacket_set_clientpos v) m =
    ReqPacket_has_bits_update (\<lambda>b. b OR (if h then 256 else 0))
      (ReqPacket_clientpos_update (\<lambda>x. if h then v else x) m)"
  by (cases h) (simp_all add: ReqPacket_accessors)

lemma ReqPacket_opt_clientver:
  "if_set h (ReqPacket_set_clientver v) m =
    ReqPacket_has_bits_update (\<lambda>b. b OR (if h then 512 else 0))
      (ReqPacket_clientver_update (\<lambda>x. if h then v else x) m)"
  by (cases h) (simp_all add: ReqPacket_accessors)

lemma ReqPacket_opt_rsakeyver:
  "if_set h (ReqPacket_set_rsakeyver v) m =
    ReqPacket_has_bits_update (\<lambda>b. b OR (if h then 1024 else 0))
      (ReqPacket_rsakeyver_update (\<lambda>x. if h then v else x) m)"
  by (cases h) (simp_all add: ReqPacket_accessors)

lemma ReqPacket_fold_action: "fold ReqPacket_add_action ds m = ReqPacket_action_update (\<lambda>xs. xs @ ds) m"
  by (induction ds arbitrary: m) (simp_all add: ReqPacket_accessors)

lemma ReqPacket_fold_params: "fold ReqPacket_add_params ds m = ReqPacket_params_update (\<lambda>xs. xs @ ds) m"
  by (induction ds arbitrary: m) (simp_all add: ReqPacket_accessors)

lemmas ReqPacket_opts =
  ReqPacket_opt_mask ReqPacket_opt_udi ReqPacket_opt_reqno ReqPacket_opt_chnno ReqPacket_opt_chnpos ReqPacket_opt_clientid ReqPacket_opt_clientpos ReqPacket_opt_clientver ReqPacket_opt_rsakeyver ReqPacket_fold_action ReqPacket_fold_params

lemma ReqPacket_absent:
  assumes "ReqPacket_wf m"
  shows "(if ReqPacket_has_mask m then ReqPacket_mask m else 0) = ReqPacket_mask m"
    "(if ReqPacket_has_udi m then ReqPacket_udi m else []) = ReqPacket_udi m"
    "(if ReqPacket_has_reqno m then ReqPacket_reqno m else 0) = ReqPacket_reqno m"
    "(if ReqPacket_has_chnno m then ReqPacket_chnno m else 0) = ReqPacket_chnno m"
    "(if ReqPacket_has_chnpos m then ReqPacket_chnpos m else 0) = ReqPacket_chnpos m"
    "(if ReqPacket_has_clientid m then ReqPacket_clientid m else 0) = ReqPacket_clientid m"
    "(if ReqPacket_has_clientpos m then ReqPacket_clientpos m else 0) = ReqPacket_clientpos m"
    "(if ReqPacket_has_clientver m then ReqPacket_clientver m else []) = ReqPacket_clientver m"
    "(if ReqPacket_has_rsakeyver m then ReqPacket_rsakeyver m else []) = ReqPacket_rsakeyver m"
  using assms by (simp_all add: ReqPacket_wf_def)

lemma ReqPacket_bits:
  assumes "ReqPacket_wf m"
  shows "((((((((if ReqPacket_has_mask m then 1 else 0) OR
    (if ReqPacket_has_udi m then 2 else 0)) OR
    (if ReqPacket_has_reqno m then 16 else 0)) OR
    (if ReqPacket_has_chnno m then 32 else 0)) OR
    (if ReqPacket_has_chnpos m then 64 else 0)) OR
    (if ReqPacket_has_clientid m then 128 else 0)) OR
    (if ReqPacket_has_clientpos m then 256 else 0)) OR
    (if ReqPacket_has_clientver m then 512 else 0)) OR
    (if ReqPacket_has_rsakeyver m then 1024 else 0) = ReqPacket_has_bits m"
proof -
  have "((((((((if ReqPacket_has_mask m then 1 else 0) OR
    (if ReqPacket_has_udi m then 2 else 0)) OR
    (if ReqPacket_has_reqno m then 16 else 0)) OR
    (if ReqPacket_has_chnno m then 32 else 0)) OR
    (if ReqPacket_has_chnpos m then 64 else 0)) OR
    (if ReqPacket_has_clientid m then 128 else 0)) OR
    (if ReqPacket_has_clientpos m then 256 else 0)) OR
    (if ReqPacket_has_clientver m then 512 else 0)) OR
    (if ReqPacket_has_rsakeyver m then 1024 else 0) = ReqPacket_has_bits m AND 2035"
    unfolding ReqPacket_accessors by (simp add: flag_simps flags_join split del: if_split)
  also have "\<dots> = ReqPacket_has_bits m" using assms by (simp add: ReqPacket_wf_def)
  finally show ?thesis .
qed

lemma ReqPacket_wf_set [simp, intro]:
  assumes "ReqPacket_wf m"
  shows "ReqPacket_wf (ReqPacket_set_mask v0 m)"
    "ReqPacket_wf (ReqPacket_set_udi v1 m)"
    "ReqPacket_wf (ReqPacket_set_reqno v2 m)"
    "ReqPacket_wf (ReqPacket_set_chnno v3 m)"
    "ReqPacket_wf (ReqPacket_set_chnpos v4 m)"
    "ReqPacket_wf (ReqPacket_set_clientid v5 m)"
    "ReqPacket_wf (ReqPacket_set_clientpos v6 m)"
    "ReqPacket_wf (ReqPacket_set_clientver v7 m)"
    "ReqPacket_wf (ReqPacket_set_rsakeyver v8 m)"
  using assms
  by (simp_all add: ReqPacket_wf_def ReqPacket_accessors set_flag_mask set_flag_other mask_or)

lemma ReqPacket_wf_add_action [simp, intro]: "ReqPacket_wf m \<Longrightarrow> ReqPacket_wf (ReqPacket_add_action v m)"
  by (simp add: ReqPacket_wf_def ReqPacket_accessors)

lemma ReqPacket_wf_add_params [simp, intro]: "ReqPacket_wf m \<Longrightarrow> ReqPacket_wf (ReqPacket_add_params v m)"
  by (simp add: ReqPacket_wf_def ReqPacket_accessors)

lemma ReqPacket_wf_unknown [simp, intro]: "ReqPacket_wf m \<Longrightarrow> ReqPacket_wf (ReqPacket_unknown_fields_update u m)"
  by (simp add: ReqPacket_wf_def ReqPacket_accessors)

lemma ReqPacket_wf_size [simp, intro]: "ReqPacket_wf m \<Longrightarrow> ReqPacket_wf (ReqPacket_cached_size_update u m)"
  by (simp add: ReqPacket_wf_def ReqPacket_accessors)

lemma ReqPacket_wf_parse:
  assumes "ReqPacket_MergePartialFromCodedStream rt s = Some (ok, s')" and "ReqPacket_wf (snd s)"
  shows "ReqPacket_wf (snd s')"
  using assms unfolding ReqPacket_MergePartialFromCodedStream_def ReqPacket_step_def
  by (rule run_invariant [where I = ReqPacket_wf, rotated])
    (rule out_merge_step [where I = ReqPacket_wf], auto simp: ReqPacket_field_def
      intro!: out_read_varint [where I = ReqPacket_wf] out_read_delimited [where I = ReqPacket_wf])

lemma ReqPacket_wf_new [simp, intro]: "ReqPacket_wf (ReqPacket_new rt)"
  by (simp add: ReqPacket_wf_def ReqPacket_new_def ReqPacket_accessors)

lemma ReqPacket_Clear_new:
  assumes "ReqPacket_wf m"
  shows "ReqPacket_Clear rt m = (ReqPacket_new rt)\<lparr>ReqPacket_cached_size := ReqPacket_cached_size m\<rparr>"
  using assms
  by (cases "ReqPacket_has_bits m AND 255 = 0"; cases "ReqPacket_has_bits m AND 65280 = 0"; intro ReqPacket.equality;
      simp add: ReqPacket_Clear_def ReqPacket_new_def ReqPacket_wf_def ReqPacket_block0 ReqPacket_block1 Let_def; simp add: ReqPacket_accessors)

text \<open>The test of a whole block of presence bits is an optimisation.\<close>

lemma ReqPacket_MergeFrom_eq:
  "ReqPacket_MergeFrom rt src m =
    (let m = m\<lparr>ReqPacket_action := ReqPacket_action m @ ReqPacket_action src, ReqPacket_params := ReqPacket_params m @ ReqPacket_params src\<rparr>;
         m = if_set (ReqPacket_has_mask src) (ReqPacket_set_mask (ReqPacket_mask src)) m;
         m = if_set (ReqPacket_has_udi src) (ReqPacket_set_udi (ReqPacket_udi src)) m;
         m = if_set (ReqPacket_has_reqno src) (ReqPacket_set_reqno (ReqPacket_reqno src)) m;
         m = if_set (ReqPacket_has_chnno src) (ReqPacket_set_chnno (ReqPacket_chnno src)) m;
         m = if_set (ReqPacket_has_chnpos src) (ReqPacket_set_chnpos (ReqPacket_chnpos src)) m;
         m = if_set (ReqPacket_has_clientid src) (ReqPacket_set_clientid (ReqPacket_clientid src)) m;
         m = if_set (ReqPacket_has_clientpos src) (ReqPacket_set_clientpos (ReqPacket_clientpos src)) m;
         m = if_set (ReqPacket_has_clientver src) (ReqPacket_set_clientver (ReqPacket_clientver src)) m;
         m = if_set (ReqPacket_has_rsakeyver src) (ReqPacket_set_rsakeyver (ReqPacket_rsakeyver src)) m
     in ReqPacket_unknown_fields_update (\<lambda>u. UnknownMerge rt u (ReqPacket_unknown_fields src)) m)"
  by (cases "ReqPacket_has_bits src AND 255 = 0"; cases "ReqPacket_has_bits src AND 65280 = 0")
    (simp_all add: ReqPacket_MergeFrom_def Let_def ReqPacket_block0 ReqPacket_block1 split del: if_split)

context wire_format
begin

lemma ReqPacket_dec: "ReqPacket_step rt l s = Goto l' s' \<Longrightarrow> length (fst s') < length (fst s)"
  unfolding ReqPacket_step_def
  by (erule merge_step_dec [rotated]) (auto simp: ReqPacket_field_def split: if_splits dest: field_dec)

lemma ReqPacket_parser_returns: "\<exists>r. ReqPacket_MergePartialFromCodedStream rt s = Some r"
  unfolding ReqPacket_MergePartialFromCodedStream_def by (rule run_enough) (auto dest: ReqPacket_dec)

lemma ReqPacket_copy:
  assumes "ReqPacket_wf src" and "ReqPacket_wf m"
  shows "ReqPacket_CopyFrom rt src m = src\<lparr>ReqPacket_cached_size := ReqPacket_cached_size m\<rparr>"
  unfolding ReqPacket_CopyFrom_def ReqPacket_Clear_new [OF assms(2)] ReqPacket_MergeFrom_eq Let_def
  by (rule ReqPacket.equality)
    (simp_all add: ReqPacket_opts ReqPacket_new_def unknown_merge ReqPacket_absent [OF assms(1)] ReqPacket_bits [OF assms(1)]
      cong: if_cong split del: if_split)

lemma ReqPacket_size:
  assumes "ReqPacket_short m"
  shows "fst (ReqPacket_ByteSize rt m) = length (ReqPacket_SerializeWithCachedSizesToArray rt m)"
  using assms
  by (cases "ReqPacket_has_bits m AND 255 = 0"; cases "ReqPacket_has_bits m AND 65280 = 0")
    (simp_all add: ReqPacket_ByteSize_def ReqPacket_SerializeWithCachedSizesToArray_def ReqPacket_short_def ReqPacket_block0 ReqPacket_block1 Let_def int64_size int32_size
      string_size bytes_size rep_string_size rep_bytes_size unknown_size if_distrib [of length]
      cong: if_cong split del: if_split)

lemma ReqPacket_parse_print:
  assumes "ReqPacket_wf m" and "ReqPacket_short m" and "UnknownEmpty rt (ReqPacket_unknown_fields m)"
  shows "ReqPacket_MergePartialFromCodedStream rt (ReqPacket_SerializeWithCachedSizesToArray rt m, (ReqPacket_new rt)\<lparr>ReqPacket_cached_size := n\<rparr>) =
    Some (True, [], m\<lparr>ReqPacket_unknown_fields := UnknownClear rt, ReqPacket_cached_size := n\<rparr>)"
proof -
  have "runs (ReqPacket_step rt) Loop (ReqPacket_SerializeWithCachedSizesToArray rt m, (ReqPacket_new rt)\<lparr>ReqPacket_cached_size := n\<rparr>)
      (True, [], m\<lparr>ReqPacket_unknown_fields := UnknownClear rt, ReqPacket_cached_size := n\<rparr>)"
    unfolding ReqPacket_step_def ReqPacket_SerializeWithCachedSizesToArray_def
    apply (rule opt_int32_runs [where setter = ReqPacket_set_mask and ts = "[(18, 2)]" and final = False])
    subgoal by simp subgoal by simp subgoal by simp
    subgoal by (simp add: ReqPacket_field_def) subgoal by (simp add: wiretype_defs)
    apply (rule opt_string_runs [where setter = ReqPacket_set_udi and ts = "[(26, 3)]" and final = False])
    subgoal by simp subgoal by simp subgoal by simp
    subgoal using assms(2) by (simp add: ReqPacket_short_def)
    subgoal by (simp add: ReqPacket_field_def) subgoal by (simp add: wiretype_defs)
    apply (rule rep_string_runs [where setter = ReqPacket_add_action and ts = "[(26, 3), (34, 4)]" and final = False])
    subgoal by simp subgoal by simp subgoal by simp
    subgoal using assms(2) by (simp add: ReqPacket_short_def)
    subgoal by (simp add: ReqPacket_field_def) subgoal by (simp add: wiretype_defs)
    apply (rule rep_bytes_runs [where setter = ReqPacket_add_params and ts = "[(34, 4), (40, 5)]" and final = False])
    subgoal by simp subgoal by simp subgoal by simp
    subgoal using assms(2) by (simp add: ReqPacket_short_def)
    subgoal by (simp add: ReqPacket_field_def) subgoal by (simp add: wiretype_defs)
    apply (rule opt_int32_runs [where setter = ReqPacket_set_reqno and ts = "[(48, 6)]" and final = False])
    subgoal by simp subgoal by simp subgoal by simp
    subgoal by (simp add: ReqPacket_field_def) subgoal by (simp add: wiretype_defs)
    apply (rule opt_int32_runs [where setter = ReqPacket_set_chnno and ts = "[(56, 7)]" and final = False])
    subgoal by simp subgoal by simp subgoal by simp
    subgoal by (simp add: ReqPacket_field_def) subgoal by (simp add: wiretype_defs)
    apply (rule opt_int32_runs [where setter = ReqPacket_set_chnpos and ts = "[(64, 8)]" and final = False])
    subgoal by simp subgoal by simp subgoal by simp
    subgoal by (simp add: ReqPacket_field_def) subgoal by (simp add: wiretype_defs)
    apply (rule opt_int32_runs [where setter = ReqPacket_set_clientid and ts = "[(72, 9)]" and final = False])
    subgoal by simp subgoal by simp subgoal by simp
    subgoal by (simp add: ReqPacket_field_def) subgoal by (simp add: wiretype_defs)
    apply (rule opt_int32_runs [where setter = ReqPacket_set_clientpos and ts = "[(82, 10)]" and final = False])
    subgoal by simp subgoal by simp subgoal by simp
    subgoal by (simp add: ReqPacket_field_def) subgoal by (simp add: wiretype_defs)
    apply (rule opt_string_runs [where setter = ReqPacket_set_clientver and ts = "[(90, 11)]" and final = False])
    subgoal by simp subgoal by simp subgoal by simp
    subgoal using assms(2) by (simp add: ReqPacket_short_def)
    subgoal by (simp add: ReqPacket_field_def) subgoal by (simp add: wiretype_defs)
    apply (rule opt_string_runs [where setter = ReqPacket_set_rsakeyver and ts = "[]" and final = True])
    subgoal by simp subgoal by simp subgoal by simp
    subgoal using assms(2) by (simp add: ReqPacket_short_def)
    subgoal by (simp add: ReqPacket_field_def) subgoal by (simp add: wiretype_defs)
    apply (simp only: assms(3) not_True_eq_False if_False)
    apply (rule end_runs)
    by (rule ReqPacket.equality)
      (simp_all add: ReqPacket_opts ReqPacket_new_def ReqPacket_absent [OF assms(1)] ReqPacket_bits [OF assms(1)]
        cong: if_cong split del: if_split)
  then show ?thesis
    unfolding ReqPacket_MergePartialFromCodedStream_def by (rule runs_run [rotated]) (auto dest: ReqPacket_dec)
qed

end

section \<open>\<open>RspPacket\<close>\<close>

record 'u RspPacket =
  RspPacket_mask :: "u32"
  RspPacket_rescode :: "u32"
  RspPacket_resmsg :: "bytes"
  RspPacket_action :: "bytes list"
  RspPacket_params :: "bytes list"
  RspPacket_has_bits :: u32
  RspPacket_unknown_fields :: 'u
  RspPacket_cached_size :: nat

definition RspPacket_new :: "'u wire_rt \<Rightarrow> 'u RspPacket" where
  "RspPacket_new rt =
    \<lparr>RspPacket_mask = 0, RspPacket_rescode = 0, RspPacket_resmsg = [], RspPacket_action = [], RspPacket_params = [],
     RspPacket_has_bits = 0, RspPacket_unknown_fields = UnknownClear rt, RspPacket_cached_size = 0\<rparr>"

definition RspPacket_has_mask :: "'u RspPacket \<Rightarrow> bool" where
  "RspPacket_has_mask m \<longleftrightarrow> RspPacket_has_bits m AND 1 \<noteq> 0"

definition RspPacket_set_mask :: "u32 \<Rightarrow> 'u RspPacket \<Rightarrow> 'u RspPacket" where
  "RspPacket_set_mask v m = m\<lparr>RspPacket_has_bits := RspPacket_has_bits m OR 1, RspPacket_mask := v\<rparr>"

definition RspPacket_has_rescode :: "'u RspPacket \<Rightarrow> bool" where
  "RspPacket_has_rescode m \<longleftrightarrow> RspPacket_has_bits m AND 2 \<noteq> 0"

definition RspPacket_set_rescode :: "u32 \<Rightarrow> 'u RspPacket \<Rightarrow> 'u RspPacket" where
  "RspPacket_set_rescode v m = m\<lparr>RspPacket_has_bits := RspPacket_has_bits m OR 2, RspPacket_rescode := v\<rparr>"

definition RspPacket_has_resmsg :: "'u RspPacket \<Rightarrow> bool" where
  "RspPacket_has_resmsg m \<longleftrightarrow> RspPacket_has_bits m AND 4 \<noteq> 0"

definition RspPacket_set_resmsg :: "bytes \<Rightarrow> 'u RspPacket \<Rightarrow> 'u RspPacket" where
  "RspPacket_set_resmsg v m = m\<lparr>RspPacket_has_bits := RspPacket_has_bits m OR 4, RspPacket_resmsg := v\<rparr>"

definition RspPacket_add_action :: "bytes \<Rightarrow> 'u RspPacket \<Rightarrow> 'u RspPacket" where
  "RspPacket_add_action v m = m\<lparr>RspPacket_action := RspPacket_action m @ [v]\<rparr>"

definition RspPacket_add_params :: "bytes \<Rightarrow> 'u RspPacket \<Rightarrow> 'u RspPacket" where
  "RspPacket_add_params v m = m\<lparr>RspPacket_params := RspPacket_params m @ [v]\<rparr>"

definition RspPacket_Clear :: "'u wire_rt \<Rightarrow> 'u RspPacket \<Rightarrow> 'u RspPacket" where
  "RspPacket_Clear rt m =
    (let m = (if RspPacket_has_bits m AND 255 \<noteq> 0 then m\<lparr>RspPacket_mask := 0,
             RspPacket_rescode := 0,
             RspPacket_resmsg := if RspPacket_has_resmsg m then [] else RspPacket_resmsg m\<rparr> else m);
         m = m\<lparr>RspPacket_action := [], RspPacket_params := []\<rparr>
     in m\<lparr>RspPacket_has_bits := 0, RspPacket_unknown_fields := UnknownClear rt\<rparr>)"

definition RspPacket_field :: "'u wire_rt \<Rightarrow> nat \<Rightarrow> bytes \<times> 'u RspPacket \<Rightarrow> ('u RspPacket) outcome" where
  "RspPacket_field rt k =
    (if k = 1 then read_varint (ReadInt32 rt) RspPacket_set_mask
       (expect_next rt [(16, 2)] False)
     else if k = 2 then read_varint (ReadInt32 rt) RspPacket_set_rescode
       (expect_next rt [(26, 3)] False)
     else if k = 3 then read_delimited (ReadString rt) RspPacket_set_resmsg
       (expect_next rt [(34, 4)] False)
     else if k = 4 then read_delimited (ReadString rt) RspPacket_add_action
       (expect_next rt [(34, 4), (42, 5)] False)
     else if k = 5 then read_delimited (ReadBytes rt) RspPacket_add_params
       (expect_next rt [(42, 5)] True)
     else Return False)"

definition RspPacket_step :: "'u wire_rt \<Rightarrow> label \<Rightarrow> bytes \<times> 'u RspPacket \<Rightarrow> ('u RspPacket) outcome" where
  "RspPacket_step rt = merge_step rt
    [(1, WIRETYPE_VARINT), (2, WIRETYPE_VARINT), (3, WIRETYPE_LENGTH_DELIMITED), (4, WIRETYPE_LENGTH_DELIMITED), (5, WIRETYPE_LENGTH_DELIMITED)]
    (RspPacket_field rt) RspPacket_unknown_fields_update RspPacket_unknown_fields"

definition RspPacket_MergePartialFromCodedStream :: "'u wire_rt \<Rightarrow> bytes \<times> 'u RspPacket \<Rightarrow> (bool \<times> bytes \<times> 'u RspPacket) option" where
  "RspPacket_MergePartialFromCodedStream rt s = run (RspPacket_step rt) (Suc (length (fst s))) Loop s"

definition RspPacket_SerializeWithCachedSizesToArray :: "'u wire_rt \<Rightarrow> 'u RspPacket \<Rightarrow> bytes" where
  "RspPacket_SerializeWithCachedSizesToArray rt m =
     (if RspPacket_has_mask m then WriteInt32ToArray rt 1 (RspPacket_mask m) else []) @
     (if RspPacket_has_rescode m then WriteInt32ToArray rt 2 (RspPacket_rescode m) else []) @
     (if RspPacket_has_resmsg m then WriteStringToArray rt 3 (RspPacket_resmsg m) else []) @
     concat (map (WriteStringToArray rt 4) (RspPacket_action m)) @
     concat (map (WriteBytesToArray rt 5) (RspPacket_params m)) @
     (if \<not> UnknownEmpty rt (RspPacket_unknown_fields m) then SerializeUnknownFieldsToArray rt (RspPacket_unknown_fields m) else [])"

definition RspPacket_ByteSize :: "'u wire_rt \<Rightarrow> 'u RspPacket \<Rightarrow> nat \<times> 'u RspPacket" where
  "RspPacket_ByteSize rt m =
    (let total_size =
         (if RspPacket_has_bits m AND 255 \<noteq> 0 then
           (if RspPacket_has_mask m then 1 + Int32Size rt (RspPacket_mask m) else 0) +
           (if RspPacket_has_rescode m then 1 + Int32Size rt (RspPacket_rescode m) else 0) +
           (if RspPacket_has_resmsg m then 1 + StringSize rt (RspPacket_resmsg m) else 0)
         else 0) +
         1 * length (RspPacket_action m) + sum_list (map (StringSize rt) (RspPacket_action m)) +
         1 * length (RspPacket_params m) + sum_list (map (BytesSize rt) (RspPacket_params m)) +
         (if \<not> UnknownEmpty rt (RspPacket_unknown_fields m) then ComputeUnknownFieldsSize rt (RspPacket_unknown_fields m) else 0)
     in (total_size, m\<lparr>RspPacket_cached_size := total_size\<rparr>))"

definition RspPacket_MergeFrom :: "'u wire_rt \<Rightarrow> 'u RspPacket \<Rightarrow> 'u RspPacket \<Rightarrow> 'u RspPacket" where
  "RspPacket_MergeFrom rt src m =
    (let m = m\<lparr>RspPacket_action := RspPacket_action m @ RspPacket_action src, RspPacket_params := RspPacket_params m @ RspPacket_params src\<rparr>;
         m = if_set (RspPacket_has_bits src AND 255 \<noteq> 0) (\<lambda>m.
           let m = if_set (RspPacket_has_mask src) (RspPacket_set_mask (RspPacket_mask src)) m;
               m = if_set (RspPacket_has_rescode src) (RspPacket_set_rescode (RspPacket_rescode src)) m;
               m = if_set (RspPacket_has_resmsg src) (RspPacket_set_resmsg (RspPacket_resmsg src)) m
           in m) m
     in RspPacket_unknown_fields_update (\<lambda>u. UnknownMerge rt u (RspPacket_unknown_fields src)) m)"

definition RspPacket_CopyFrom :: "'u wire_rt \<Rightarrow> 'u RspPacket \<Rightarrow> 'u RspPacket \<Rightarrow> 'u RspPacket" where
  "RspPacket_CopyFrom rt src m = RspPacket_MergeFrom rt src (RspPacket_Clear rt m)"

definition RspPacket_IsInitialized :: "'u RspPacket \<Rightarrow> bool" where
  "RspPacket_IsInitialized m \<longleftrightarrow> RspPacket_has_bits m AND 7 = 7"

text \<open>The class invariant: no presence bit beyond the fields, and a field that is not present
  holds its default.\<close>

definition RspPacket_wf :: "'u RspPacket \<Rightarrow> bool" where
  "RspPacket_wf m \<longleftrightarrow>
     RspPacket_has_bits m AND 7 = RspPacket_has_bits m \<and>
     (\<not> RspPacket_has_mask m \<longrightarrow> RspPacket_mask m = 0) \<and>
     (\<not> RspPacket_has_rescode m \<longrightarrow> RspPacket_rescode m = 0) \<and>
     (\<not> RspPacket_has_resmsg m \<longrightarrow> RspPacket_resmsg m = [])"

definition RspPacket_short :: "'u RspPacket \<Rightarrow> bool" where
  "RspPacket_short m \<longleftrightarrow> length (RspPacket_resmsg m) < 2 ^ 31 \<and> (\<forall>d \<in> set (RspPacket_action m). length d < 2 ^ 31) \<and> (\<forall>d \<in> set (RspPacket_params m). length d < 2 ^ 31)"

lemmas RspPacket_accessors =
  RspPacket_has_mask_def RspPacket_has_rescode_def RspPacket_has_resmsg_def RspPacket_set_mask_def RspPacket_set_rescode_def RspPacket_set_resmsg_def RspPacket_add_action_def RspPacket_add_params_def

lemma RspPacket_block0:
  assumes "RspPacket_has_bits m AND 255 = 0"
  shows "\<not> RspPacket_has_mask m" "\<not> RspPacket_has_rescode m" "\<not> RspPacket_has_resmsg m"
  using mask_zero [OF assms] by (simp_all add: RspPacket_accessors)

lemma RspPacket_opt_mask:
  "if_set h (RspPacket_set_mask v) m =
    RspPacket_has_bits_update (\<lambda>b. b OR (if h then 1 else 0))
      (RspPacket_mask_update (\<lambda>x. if h then v else x) m)"
  by (cases h) (simp_all add: RspPacket_accessors)

lemma RspPacket_opt_rescode:
  "if_set h (RspPacket_set_rescode v) m =
    RspPacket_has_bits_update (\<lambda>b. b OR (if h then 2 else 0))
      (RspPacket_rescode_update (\<lambda>x. if h then v else x) m)"
  by (cases h) (simp_all add: RspPacket_accessors)

lemma RspPacket_opt_resmsg:
  "if_set h (RspPacket_set_resmsg v) m =
    RspPacket_has_bits_update (\<lambda>b. b OR (if h then 4 else 0))
      (RspPacket_resmsg_update (\<lambda>x. if h then v else x) m)"
  by (cases h) (simp_all add: RspPacket_accessors)

lemma RspPacket_fold_action: "fold RspPacket_add_action ds m = RspPacket_action_update (\<lambda>xs. xs @ ds) m"
  by (induction ds arbitrary: m) (simp_all add: RspPacket_accessors)

lemma RspPacket_fold_params: "fold RspPacket_add_params ds m = RspPacket_params_update (\<lambda>xs. xs @ ds) m"
  by (induction ds arbitrary: m) (simp_all add: RspPacket_accessors)

lemmas RspPacket_opts =
  RspPacket_opt_mask RspPacket_opt_rescode RspPacket_opt_resmsg RspPacket_fold_action RspPacket_fold_params

lemma RspPacket_absent:
  assumes "RspPacket_wf m"
  shows "(if RspPacket_has_mask m then RspPacket_mask m else 0) = RspPacket_mask m"
    "(if RspPacket_has_rescode m then RspPacket_rescode m else 0) = RspPacket_rescode m"
    "(if RspPacket_has_resmsg m then RspPacket_resmsg m else []) = RspPacket_resmsg m"
  using assms by (simp_all add: RspPacket_wf_def)

lemma RspPacket_bits:
  assumes "RspPacket_wf m"
  shows "((if RspPacket_has_mask m then 1 else 0) OR
    (if RspPacket_has_rescode m then 2 else 0)) OR
    (if RspPacket_has_resmsg m then 4 else 0) = RspPacket_has_bits m"
proof -
  have "((if RspPacket_has_mask m then 1 else 0) OR
    (if RspPacket_has_rescode m then 2 else 0)) OR
    (if RspPacket_has_resmsg m then 4 else 0) = RspPacket_has_bits m AND 7"
    unfolding RspPacket_accessors by (simp add: flag_simps flags_join split del: if_split)
  also have "\<dots> = RspPacket_has_bits m" using assms by (simp add: RspPacket_wf_def)
  finally show ?thesis .
qed

lemma RspPacket_wf_set [simp, intro]:
  assumes "RspPacket_wf m"
  shows "RspPacket_wf (RspPacket_set_mask v0 m)"
    "RspPacket_wf (RspPacket_set_rescode v1 m)"
    "RspPacket_wf (RspPacket_set_resmsg v2 m)"
  using assms
  by (simp_all add: RspPacket_wf_def RspPacket_accessors set_flag_mask set_flag_other mask_or)

lemma RspPacket_wf_add_action [simp, intro]: "RspPacket_wf m \<Longrightarrow> RspPacket_wf (RspPacket_add_action v m)"
  by (simp add: RspPacket_wf_def RspPacket_accessors)

lemma RspPacket_wf_add_params [simp, intro]: "RspPacket_wf m \<Longrightarrow> RspPacket_wf (RspPacket_add_params v m)"
  by (simp add: RspPacket_wf_def RspPacket_accessors)

lemma RspPacket_wf_unknown [simp, intro]: "RspPacket_wf m \<Longrightarrow> RspPacket_wf (RspPacket_unknown_fields_update u m)"
  by (simp add: RspPacket_wf_def RspPacket_accessors)

lemma RspPacket_wf_size [simp, intro]: "RspPacket_wf m \<Longrightarrow> RspPacket_wf (RspPacket_cached_size_update u m)"
  by (simp add: RspPacket_wf_def RspPacket_accessors)

lemma RspPacket_wf_parse:
  assumes "RspPacket_MergePartialFromCodedStream rt s = Some (ok, s')" and "RspPacket_wf (snd s)"
  shows "RspPacket_wf (snd s')"
  using assms unfolding RspPacket_MergePartialFromCodedStream_def RspPacket_step_def
  by (rule run_invariant [where I = RspPacket_wf, rotated])
    (rule out_merge_step [where I = RspPacket_wf], auto simp: RspPacket_field_def
      intro!: out_read_varint [where I = RspPacket_wf] out_read_delimited [where I = RspPacket_wf])

lemma RspPacket_wf_new [simp, intro]: "RspPacket_wf (RspPacket_new rt)"
  by (simp add: RspPacket_wf_def RspPacket_new_def RspPacket_accessors)

lemma RspPacket_Clear_new:
  assumes "RspPacket_wf m"
  shows "RspPacket_Clear rt m = (RspPacket_new rt)\<lparr>RspPacket_cached_size := RspPacket_cached_size m\<rparr>"
  using assms
  by (cases "RspPacket_has_bits m AND 255 = 0"; intro RspPacket.equality;
      simp add: RspPacket_Clear_def RspPacket_new_def RspPacket_wf_def RspPacket_block0 Let_def)

text \<open>The test of a whole block of presence bits is an optimisation.\<close>

lemma RspPacket_MergeFrom_eq:
  "RspPacket_MergeFrom rt src m =
    (let m = m\<lparr>RspPacket_action := RspPacket_action m @ RspPacket_action src, RspPacket_params := RspPacket_params m @ RspPacket_params src\<rparr>;
         m = if_set (RspPacket_has_mask src) (RspPacket_set_mask (RspPacket_mask src)) m;
         m = if_set (RspPacket_has_rescode src) (RspPacket_set_rescode (RspPacket_rescode src)) m;
         m = if_set (RspPacket_has_resmsg src) (RspPacket_set_resmsg (RspPacket_resmsg src)) m
     in RspPacket_unknown_fields_update (\<lambda>u. UnknownMerge rt u (RspPacket_unknown_fields src)) m)"
  by (cases "RspPacket_has_bits src AND 255 = 0")
    (simp_all add: RspPacket_MergeFrom_def Let_def RspPacket_block0 split del: if_split)

context wire_format
begin

lemma RspPacket_dec: "RspPacket_step rt l s = Goto l' s' \<Longrightarrow> length (fst s') < length (fst s)"
  unfolding RspPacket_step_def
  by (erule merge_step_dec [rotated]) (auto simp: RspPacket_field_def split: if_splits dest: field_dec)

lemma RspPacket_parser_returns: "\<exists>r. RspPacket_MergePartialFromCodedStream rt s = Some r"
  unfolding RspPacket_MergePartialFromCodedStream_def by (rule run_enough) (auto dest: RspPacket_dec)

lemma RspPacket_copy:
  assumes "RspPacket_wf src" and "RspPacket_wf m"
  shows "RspPacket_CopyFrom rt src m = src\<lparr>RspPacket_cached_size := RspPacket_cached_size m\<rparr>"
  unfolding RspPacket_CopyFrom_def RspPacket_Clear_new [OF assms(2)] RspPacket_MergeFrom_eq Let_def
  by (rule RspPacket.equality)
    (simp_all add: RspPacket_opts RspPacket_new_def unknown_merge RspPacket_absent [OF assms(1)] RspPacket_bits [OF assms(1)]
      cong: if_cong split del: if_split)

lemma RspPacket_size:
  assumes "RspPacket_short m"
  shows "fst (RspPacket_ByteSize rt m) = length (RspPacket_SerializeWithCachedSizesToArray rt m)"
  using assms
  by (cases "RspPacket_has_bits m AND 255 = 0")
    (simp_all add: RspPacket_ByteSize_def RspPacket_SerializeWithCachedSizesToArray_def RspPacket_short_def RspPacket_block0 Let_def int64_size int32_size
      string_size bytes_size rep_string_size rep_bytes_size unknown_size if_distrib [of length]
      cong: if_cong split del: if_split)

lemma RspPacket_parse_print:
  assumes "RspPacket_wf m" and "RspPacket_short m" and "UnknownEmpty rt (RspPacket_unknown_fields m)"
  shows "RspPacket_MergePartialFromCodedStream rt (RspPacket_SerializeWithCachedSizesToArray rt m, (RspPacket_new rt)\<lparr>RspPacket_cached_size := n\<rparr>) =
    Some (True, [], m\<lparr>RspPacket_unknown_fields := UnknownClear rt, RspPacket_cached_size := n\<rparr>)"
proof -
  have "runs (RspPacket_step rt) Loop (RspPacket_SerializeWithCachedSizesToArray rt m, (RspPacket_new rt)\<lparr>RspPacket_cached_size := n\<rparr>)
      (True, [], m\<lparr>RspPacket_unknown_fields := UnknownClear rt, RspPacket_cached_size := n\<rparr>)"
    unfolding RspPacket_step_def RspPacket_SerializeWithCachedSizesToArray_def
    apply (rule opt_int32_runs [where setter = RspPacket_set_mask and ts = "[(16, 2)]" and final = False])
    subgoal by simp subgoal by simp subgoal by simp
    subgoal by (simp add: RspPacket_field_def) subgoal by (simp add: wiretype_defs)
    apply (rule opt_int32_runs [where setter = RspPacket_set_rescode and ts = "[(26, 3)]" and final = False])
    subgoal by simp subgoal by simp subgoal by simp
    subgoal by (simp add: RspPacket_field_def) subgoal by (simp add: wiretype_defs)
    apply (rule opt_string_runs [where setter = RspPacket_set_resmsg and ts = "[(34, 4)]" and final = False])
    subgoal by simp subgoal by simp subgoal by simp
    subgoal using assms(2) by (simp add: RspPacket_short_def)
    subgoal by (simp add: RspPacket_field_def) subgoal by (simp add: wiretype_defs)
    apply (rule rep_string_runs [where setter = RspPacket_add_action and ts = "[(34, 4), (42, 5)]" and final = False])
    subgoal by simp subgoal by simp subgoal by simp
    subgoal using assms(2) by (simp add: RspPacket_short_def)
    subgoal by (simp add: RspPacket_field_def) subgoal by (simp add: wiretype_defs)
    apply (rule rep_bytes_runs [where setter = RspPacket_add_params and ts = "[(42, 5)]" and final = True])
    subgoal by simp subgoal by simp subgoal by simp
    subgoal using assms(2) by (simp add: RspPacket_short_def)
    subgoal by (simp add: RspPacket_field_def) subgoal by (simp add: wiretype_defs)
    apply (simp only: assms(3) not_True_eq_False if_False)
    apply (rule end_runs)
    by (rule RspPacket.equality)
      (simp_all add: RspPacket_opts RspPacket_new_def RspPacket_absent [OF assms(1)] RspPacket_bits [OF assms(1)]
        cong: if_cong split del: if_split)
  then show ?thesis
    unfolding RspPacket_MergePartialFromCodedStream_def by (rule runs_run [rotated]) (auto dest: RspPacket_dec)
qed

end

end
