(* ===== verification/Pb_Lib.thy ===== *)
theory Pb_Lib
  imports Comet_Pb_Login Comet_Pb_Check Comet_Pb_Packet
begin

text \<open>
  The entry points of \<open>google::protobuf::MessageLite\<close> that the server calls on its messages. They
  are runtime code, so they are parameters next to the wire functions: one field of \<open>pb_lib\<close> for
  each message and function used by \<open>src/core/analyse_req.cc\<close> and \<open>src/core/work_thread.cc\<close>. The
  locale \<open>pb_library\<close> states their documented contract in terms of the generated member functions;
  \<open>std_pb\<close> satisfies it over the documented encoding.
\<close>

section \<open>The contract\<close>

text \<open>\<open>ParseFromArray\<close> and \<open>ParseFromString\<close> clear the message, merge the bytes into it, and report
  whether the bytes were well formed, used up, and set every required field.\<close>

definition parse_contract ::
  "('m \<Rightarrow> 'm) \<Rightarrow> (bytes \<times> 'm \<Rightarrow> (bool \<times> bytes \<times> 'm) option) \<Rightarrow> ('m \<Rightarrow> bool) \<Rightarrow>
   bytes \<Rightarrow> 'm \<Rightarrow> bool \<times> 'm" where
  "parse_contract clear merge initialized data m =
     (case merge (data, clear m) of
        None \<Rightarrow> (False, m)
      | Some (ok, rest, m') \<Rightarrow> (ok \<and> rest = [] \<and> initialized m', m'))"

text \<open>\<open>SerializeToArray\<close> stores the encoding when it fits in the given size and fails otherwise.\<close>

definition to_array_contract ::
  "('m \<Rightarrow> nat \<times> 'm) \<Rightarrow> ('m \<Rightarrow> bytes) \<Rightarrow> 'm \<Rightarrow> nat \<Rightarrow> bytes option" where
  "to_array_contract byte_size write m n =
     (case byte_size m of (k, m') \<Rightarrow> if k \<le> n then Some (write m') else None)"

text \<open>\<open>SerializePartialToString\<close> replaces the string by the encoding.\<close>

definition to_string_contract :: "('m \<Rightarrow> nat \<times> 'm) \<Rightarrow> ('m \<Rightarrow> bytes) \<Rightarrow> 'm \<Rightarrow> bytes" where
  "to_string_contract byte_size write m = write (snd (byte_size m))"

record 'u pb_lib =
  wire :: "'u wire_rt"
  C2SLogin_ParseFromArray :: "bytes \<Rightarrow> 'u C2SLogin \<Rightarrow> bool \<times> 'u C2SLogin"
  RspPacket_ParseFromArray :: "bytes \<Rightarrow> 'u RspPacket \<Rightarrow> bool \<times> 'u RspPacket"
  RspCheckTokenByID_ParseFromString :: "bytes \<Rightarrow> 'u RspCheckTokenByID \<Rightarrow> bool \<times> 'u RspCheckTokenByID"
  RspCheckRelationByID_ParseFromString :: "bytes \<Rightarrow> 'u RspCheckRelationByID \<Rightarrow> bool \<times> 'u RspCheckRelationByID"
  S2CLogin_SerializeToArray :: "'u S2CLogin \<Rightarrow> nat \<Rightarrow> bytes option"
  OnlineStatus_SerializeToArray :: "'u OnlineStatus \<Rightarrow> nat \<Rightarrow> bytes option"
  ReqCheckTokenByID_SerializePartialToString :: "'u ReqCheckTokenByID \<Rightarrow> bytes"
  ReqCheckRelationByID_SerializePartialToString :: "'u ReqCheckRelationByID \<Rightarrow> bytes"
  ReqPacket_SerializePartialToString :: "'u ReqPacket \<Rightarrow> bytes"

locale pb_library = wire_format "wire pb" for pb :: "'u pb_lib" +
  assumes C2SLogin_parse: "C2SLogin_ParseFromArray pb data c =
      parse_contract (C2SLogin_Clear (wire pb)) (C2SLogin_MergePartialFromCodedStream (wire pb))
        C2SLogin_IsInitialized data c"
    and RspPacket_parse: "RspPacket_ParseFromArray pb data p =
      parse_contract (RspPacket_Clear (wire pb)) (RspPacket_MergePartialFromCodedStream (wire pb))
        RspPacket_IsInitialized data p"
    and RspCheckTokenByID_parse: "RspCheckTokenByID_ParseFromString pb data t =
      parse_contract (RspCheckTokenByID_Clear (wire pb)) (RspCheckTokenByID_MergePartialFromCodedStream (wire pb))
        RspCheckTokenByID_IsInitialized data t"
    and RspCheckRelationByID_parse: "RspCheckRelationByID_ParseFromString pb data r =
      parse_contract (RspCheckRelationByID_Clear (wire pb)) (RspCheckRelationByID_MergePartialFromCodedStream (wire pb))
        RspCheckRelationByID_IsInitialized data r"
    and S2CLogin_to_array: "S2CLogin_SerializeToArray pb s n =
      to_array_contract (S2CLogin_ByteSize (wire pb)) (S2CLogin_SerializeWithCachedSizesToArray (wire pb)) s n"
    and OnlineStatus_to_array: "OnlineStatus_SerializeToArray pb os n =
      to_array_contract (OnlineStatus_ByteSize (wire pb)) (OnlineStatus_SerializeWithCachedSizesToArray (wire pb)) os n"
    and ReqCheckTokenByID_to_string: "ReqCheckTokenByID_SerializePartialToString pb qt =
      to_string_contract (ReqCheckTokenByID_ByteSize (wire pb)) (ReqCheckTokenByID_SerializeWithCachedSizesToArray (wire pb)) qt"
    and ReqCheckRelationByID_to_string: "ReqCheckRelationByID_SerializePartialToString pb qr =
      to_string_contract (ReqCheckRelationByID_ByteSize (wire pb)) (ReqCheckRelationByID_SerializeWithCachedSizesToArray (wire pb)) qr"
    and ReqPacket_to_string: "ReqPacket_SerializePartialToString pb qp =
      to_string_contract (ReqPacket_ByteSize (wire pb)) (ReqPacket_SerializeWithCachedSizesToArray (wire pb)) qp"
begin

text \<open>What the callers rely on: a message that was serialised is parsed back.\<close>

lemma C2SLogin_parse_ok:
  assumes "C2SLogin_wf m" "C2SLogin_short m" "UnknownEmpty (wire pb) (C2SLogin_unknown_fields m)"
    and "C2SLogin_IsInitialized m" and "C2SLogin_wf m0"
  shows "C2SLogin_ParseFromArray pb (C2SLogin_SerializeWithCachedSizesToArray (wire pb) m) m0 =
    (True, m\<lparr>C2SLogin_unknown_fields := UnknownClear (wire pb), C2SLogin_cached_size := C2SLogin_cached_size m0\<rparr>)"
  using assms(4) unfolding C2SLogin_parse parse_contract_def C2SLogin_Clear_new [OF assms(5)] C2SLogin_parse_print [OF assms(1-3)]
  by (simp add: C2SLogin_IsInitialized_def)

lemma C2SLogin_parse_wf:
  assumes "C2SLogin_wf m"
  shows "C2SLogin_wf (snd (C2SLogin_ParseFromArray pb d m))"
  using assms C2SLogin_wf_parse [of "wire pb" "(d, C2SLogin_Clear (wire pb) m)"]
  by (auto simp: C2SLogin_parse parse_contract_def C2SLogin_Clear_new split: option.splits)

lemma RspPacket_parse_ok:
  assumes "RspPacket_wf m" "RspPacket_short m" "UnknownEmpty (wire pb) (RspPacket_unknown_fields m)"
    and "RspPacket_IsInitialized m" and "RspPacket_wf m0"
  shows "RspPacket_ParseFromArray pb (RspPacket_SerializeWithCachedSizesToArray (wire pb) m) m0 =
    (True, m\<lparr>RspPacket_unknown_fields := UnknownClear (wire pb), RspPacket_cached_size := RspPacket_cached_size m0\<rparr>)"
  using assms(4) unfolding RspPacket_parse parse_contract_def RspPacket_Clear_new [OF assms(5)] RspPacket_parse_print [OF assms(1-3)]
  by (simp add: RspPacket_IsInitialized_def)

lemma RspPacket_parse_wf:
  assumes "RspPacket_wf m"
  shows "RspPacket_wf (snd (RspPacket_ParseFromArray pb d m))"
  using assms RspPacket_wf_parse [of "wire pb" "(d, RspPacket_Clear (wire pb) m)"]
  by (auto simp: RspPacket_parse parse_contract_def RspPacket_Clear_new split: option.splits)

lemma RspCheckTokenByID_parse_ok:
  assumes "RspCheckTokenByID_wf m" "RspCheckTokenByID_short m" "UnknownEmpty (wire pb) (RspCheckTokenByID_unknown_fields m)"
    and "RspCheckTokenByID_IsInitialized m" and "RspCheckTokenByID_wf m0"
  shows "RspCheckTokenByID_ParseFromString pb (RspCheckTokenByID_SerializeWithCachedSizesToArray (wire pb) m) m0 =
    (True, m\<lparr>RspCheckTokenByID_unknown_fields := UnknownClear (wire pb), RspCheckTokenByID_cached_size := RspCheckTokenByID_cached_size m0\<rparr>)"
  using assms(4) unfolding RspCheckTokenByID_parse parse_contract_def RspCheckTokenByID_Clear_new [OF assms(5)] RspCheckTokenByID_parse_print [OF assms(1-3)]
  by (simp add: RspCheckTokenByID_IsInitialized_def)

lemma RspCheckTokenByID_parse_wf:
  assumes "RspCheckTokenByID_wf m"
  shows "RspCheckTokenByID_wf (snd (RspCheckTokenByID_ParseFromString pb d m))"
  using assms RspCheckTokenByID_wf_parse [of "wire pb" "(d, RspCheckTokenByID_Clear (wire pb) m)"]
  by (auto simp: RspCheckTokenByID_parse parse_contract_def RspCheckTokenByID_Clear_new split: option.splits)

lemma RspCheckRelationByID_parse_ok:
  assumes "RspCheckRelationByID_wf m" "RspCheckRelationByID_short m" "UnknownEmpty (wire pb) (RspCheckRelationByID_unknown_fields m)"
    and "RspCheckRelationByID_IsInitialized m" and "RspCheckRelationByID_wf m0"
  shows "RspCheckRelationByID_ParseFromString pb (RspCheckRelationByID_SerializeWithCachedSizesToArray (wire pb) m) m0 =
    (True, m\<lparr>RspCheckRelationByID_unknown_fields := UnknownClear (wire pb), RspCheckRelationByID_cached_size := RspCheckRelationByID_cached_size m0\<rparr>)"
  using assms(4) unfolding RspCheckRelationByID_parse parse_contract_def RspCheckRelationByID_Clear_new [OF assms(5)] RspCheckRelationByID_parse_print [OF assms(1-3)]
  by (simp add: RspCheckRelationByID_IsInitialized_def)

lemma RspCheckRelationByID_parse_wf:
  assumes "RspCheckRelationByID_wf m"
  shows "RspCheckRelationByID_wf (snd (RspCheckRelationByID_ParseFromString pb d m))"
  using assms RspCheckRelationByID_wf_parse [of "wire pb" "(d, RspCheckRelationByID_Clear (wire pb) m)"]
  by (auto simp: RspCheckRelationByID_parse parse_contract_def RspCheckRelationByID_Clear_new split: option.splits)

end

section \<open>The contract is satisfiable\<close>

definition std_pb :: "bytes pb_lib" where
  "std_pb =
    \<lparr>wire = std_wire,
     C2SLogin_ParseFromArray = parse_contract (C2SLogin_Clear std_wire)
       (C2SLogin_MergePartialFromCodedStream std_wire) C2SLogin_IsInitialized,
     RspPacket_ParseFromArray = parse_contract (RspPacket_Clear std_wire)
       (RspPacket_MergePartialFromCodedStream std_wire) RspPacket_IsInitialized,
     RspCheckTokenByID_ParseFromString = parse_contract (RspCheckTokenByID_Clear std_wire)
       (RspCheckTokenByID_MergePartialFromCodedStream std_wire) RspCheckTokenByID_IsInitialized,
     RspCheckRelationByID_ParseFromString = parse_contract (RspCheckRelationByID_Clear std_wire)
       (RspCheckRelationByID_MergePartialFromCodedStream std_wire) RspCheckRelationByID_IsInitialized,
     S2CLogin_SerializeToArray = to_array_contract (S2CLogin_ByteSize std_wire)
       (S2CLogin_SerializeWithCachedSizesToArray std_wire),
     OnlineStatus_SerializeToArray = to_array_contract (OnlineStatus_ByteSize std_wire)
       (OnlineStatus_SerializeWithCachedSizesToArray std_wire),
     ReqCheckTokenByID_SerializePartialToString = to_string_contract (ReqCheckTokenByID_ByteSize std_wire)
       (ReqCheckTokenByID_SerializeWithCachedSizesToArray std_wire),
     ReqCheckRelationByID_SerializePartialToString = to_string_contract (ReqCheckRelationByID_ByteSize std_wire)
       (ReqCheckRelationByID_SerializeWithCachedSizesToArray std_wire),
     ReqPacket_SerializePartialToString = to_string_contract (ReqPacket_ByteSize std_wire)
       (ReqPacket_SerializeWithCachedSizesToArray std_wire)\<rparr>"

lemma wire_std_pb [simp]: "wire std_pb = std_wire"
  by (simp add: std_pb_def)

interpretation std_lib: pb_library std_pb
  by (intro pb_library.intro pb_library_axioms.intro) (simp_all add: std_pb_def std.wire_format_axioms)

section \<open>Properties\<close>

text \<open>C19: The request envelope survives the wire: the generated parser, with its jumps from field
  to field, reads what the generated serialiser wrote and restores every field, whichever of the
  eleven are present. The runtime functions keep their documented contract.\<close>

theorem ReqPacket_round_trip:
  assumes "wire_format rt" and "ReqPacket_wf m" and "ReqPacket_short m"
    and "UnknownEmpty rt (ReqPacket_unknown_fields m)"
  shows "ReqPacket_MergePartialFromCodedStream rt
      (ReqPacket_SerializeWithCachedSizesToArray rt m, ReqPacket_new rt) =
    Some (True, [], m\<lparr>ReqPacket_unknown_fields := UnknownClear rt, ReqPacket_cached_size := 0\<rparr>)"
  using wire_format.ReqPacket_parse_print [OF assms, of 0] by (simp add: ReqPacket_new_def)

definition sample_packet :: "bytes ReqPacket" where
  "sample_packet = ReqPacket_add_params [7, 0, 8] (ReqPacket_set_clientid 111 (ReqPacket_set_udi [65]
     (ReqPacket_set_mask 3 (ReqPacket_new std_wire))))"

lemma sample_packet_ok:
  "ReqPacket_wf sample_packet" "ReqPacket_short sample_packet"
  "UnknownEmpty std_wire (ReqPacket_unknown_fields sample_packet)"
proof -
  show "ReqPacket_wf sample_packet" unfolding sample_packet_def by simp
qed (simp_all add: sample_packet_def ReqPacket_short_def ReqPacket_accessors ReqPacket_new_def std_wire_def)

theorem ReqPacket_round_trip_witness:
  "ReqPacket_MergePartialFromCodedStream std_wire
      (ReqPacket_SerializeWithCachedSizesToArray std_wire sample_packet, ReqPacket_new std_wire) =
    Some (True, [], sample_packet\<lparr>ReqPacket_unknown_fields := UnknownClear std_wire, ReqPacket_cached_size := 0\<rparr>)
   \<and> ReqPacket_params sample_packet = [[7, 0, 8]] \<and> ReqPacket_clientid sample_packet = 111"
  using ReqPacket_round_trip [OF std.wire_format_axioms sample_packet_ok]
  by (simp add: sample_packet_def ReqPacket_accessors ReqPacket_new_def)



text \<open>C21: The parser of the service's answer returns on every input, well formed or not, within one
  step per byte and one, and leaves a message that satisfies the class invariant.\<close>

theorem RspPacket_parser_total:
  assumes "wire_format rt" and "RspPacket_wf m"
  shows "\<exists>ok rest m'. RspPacket_MergePartialFromCodedStream rt (data, m) = Some (ok, rest, m') \<and> RspPacket_wf m'"
proof -
  from wire_format.RspPacket_parser_returns [OF assms(1), of "(data, m)"] obtain ok rest m' where
    "RspPacket_MergePartialFromCodedStream rt (data, m) = Some (ok, rest, m')" by auto
  with RspPacket_wf_parse [OF this] assms(2) show ?thesis by auto
qed

theorem RspPacket_parser_total_witness:
  "\<exists>ok rest m'. RspPacket_MergePartialFromCodedStream std_wire ([255, 3, 200], RspPacket_new std_wire) = Some (ok, rest, m')
    \<and> RspPacket_wf m'"
  by (rule RspPacket_parser_total [OF std.wire_format_axioms RspPacket_wf_new])

text \<open>C22: Copying a message gives every field the value it has in the source, present or not.\<close>

theorem C2SLogin_CopyFrom_exact:
  assumes "wire_format rt" and "C2SLogin_wf src" and "C2SLogin_wf m"
  shows "C2SLogin_CopyFrom rt src m = src\<lparr>C2SLogin_cached_size := C2SLogin_cached_size m\<rparr>"
  using assms by (rule wire_format.C2SLogin_copy)

theorem C2SLogin_CopyFrom_exact_witness:
  "C2SLogin_CopyFrom std_wire (C2SLogin_set_token [65] (C2SLogin_new std_wire))
      (C2SLogin_set_id 5 (C2SLogin_new std_wire)) =
    C2SLogin_set_token [65] (C2SLogin_new std_wire)"
  using C2SLogin_CopyFrom_exact [OF std.wire_format_axioms, of "C2SLogin_set_token [65] (C2SLogin_new std_wire)"
      "C2SLogin_set_id 5 (C2SLogin_new std_wire)"]
  by (simp add: C2SLogin_accessors C2SLogin_new_def C2SLogin_wf_def)

end
