(* ===== verification/Analyse_Req.thy ===== *)
theory Analyse_Req
  imports Evbuffer Pb_Lib
begin

text \<open>
  The request analyser, \<open>src/core/analyse_req.cc\<close> and \<open>analyse_req.h\<close>: it cuts frames off the
  input buffer of a connection, answers heartbeats, decodes login and transfer packets, and builds
  the packets and HTTP requests the server sends. \<open>analyse_req\<close> is the class \<open>AnalyseReq\<close>; the
  member functions keep their names and return the new object. A pointer member is \<open>None\<close> when it
  is null. Every access through a pointer is bounds-checked, every fault is a value.

  A frame is a header whose length in words is in the low half of the first byte, the flags in the
  second byte, the sender and the receiver in bytes 4 to 19, then a property number, a format byte,
  the length of the payload (two bytes, or \<open>FF 00\<close> and four bytes), and the payload.
\<close>

section \<open>Data\<close>

record LoginData =
  ld_id :: u64
  ld_token :: bytes
  ld_work_thread :: "nat option"
  ld_bev :: "nat option"

text \<open>Members that the allocating code leaves unset are \<open>None\<close>. \<open>td_data\<close> is the initialised part
  of the trailing array.\<close>

record TransData =
  td_from_id :: "u64 option"
  td_to_id :: u64
  td_work_thread :: "nat option"
  td_msg_type :: "int option"
  td_data_size :: "int option"
  td_data :: bytes

definition sizeof_TransData :: int where
  "sizeof_TransData = 32"

record 'u analyse_req =
  req_login :: "'u C2SLogin"
  rsp_login :: "'u S2CLogin"
  is_heart_flag :: bool
  login_data :: "LoginData option"
  trans_data :: "TransData option"
  req :: "'u ReqPacket"
  rsp :: "'u RspPacket"
  check_id_req :: "'u ReqCheckTokenByID"
  check_id_rsp :: "'u RspCheckTokenByID"
  check_relation_req :: "'u ReqCheckRelationByID"
  check_relation_rsp :: "'u RspCheckRelationByID"
  serialize_str :: bytes

text \<open>The constructor sets the two pointers only: \<open>_is_heart\<close> starts with whatever the memory held.\<close>

definition AnalyseReq_new :: "'u pb_lib \<Rightarrow> bool \<Rightarrow> 'u analyse_req" where
  "AnalyseReq_new pb heart0 =
     \<lparr>req_login = C2SLogin_new (wire pb), rsp_login = S2CLogin_new (wire pb),
      is_heart_flag = heart0, login_data = None, trans_data = None,
      req = ReqPacket_new (wire pb), rsp = RspPacket_new (wire pb),
      check_id_req = ReqCheckTokenByID_new (wire pb), check_id_rsp = RspCheckTokenByID_new (wire pb),
      check_relation_req = ReqCheckRelationByID_new (wire pb),
      check_relation_rsp = RspCheckRelationByID_new (wire pb), serialize_str = []\<rparr>"

text \<open>The \<open>uint64_t\<close> that eight bytes in memory are on the little-endian host.\<close>

definition host_u64 :: "bytes \<Rightarrow> u64" where
  "host_u64 bs = of_nat (be_nat (rev bs))"

text \<open>A C string literal.\<close>

definition cstr :: "string \<Rightarrow> bytes" where
  "cstr s = map of_char s"

text \<open>The C string that starts at the first of some bytes.\<close>

definition c_string :: "bytes \<Rightarrow> bytes" where
  "c_string bs = takeWhile (\<lambda>c. c \<noteq> 0) bs"

text \<open>\<open>"%d"\<close>.\<close>

fun dec_nat :: "nat \<Rightarrow> bytes" where
  "dec_nat n = (if n < 10 then [of_nat (48 + n)] else dec_nat (n div 10) @ [of_nat (48 + n mod 10)])"

declare dec_nat.simps [simp del]

definition dec_int :: "int \<Rightarrow> bytes" where
  "dec_int i = (if i < 0 then 45 # dec_nat (nat (- i)) else dec_nat (nat i))"

section \<open>Incoming frames\<close>

definition analyse_login_pack :: "'u pb_lib \<Rightarrow> 'u analyse_req \<Rightarrow> bytes \<Rightarrow> bool \<times> 'u analyse_req" where
  "analyse_login_pack pb a data =
     (let m = snd (C2SLogin_ParseFromArray pb data (req_login a))
      in (True, a\<lparr>req_login := m,
                  login_data := Some \<lparr>ld_id = C2SLogin_id m, ld_token = C2SLogin_token m,
                                     ld_work_thread = None, ld_bev = None\<rparr>\<rparr>))"

text \<open>The array that \<open>new unsigned char[sizeof(TransData) + pack_size]\<close> is asked for, in
  \<open>size_t\<close>; the members are written into it, so it must at least hold them.\<close>

definition new_trans_data :: "int \<Rightarrow> unit res" where
  "new_trans_data pack_size =
     (let n = c_size (sizeof_TransData + pack_size)
      in if n \<ge> 2 ^ 63 then Inl BadAlloc
         else if int n < sizeof_TransData then Inl BufferOverflow
         else Inr ())"

definition analyse_trans_pack ::
  "'u analyse_req \<Rightarrow> evbuffer \<Rightarrow> bytes \<Rightarrow> int \<Rightarrow> (bool \<times> 'u analyse_req \<times> evbuffer) res" where
  "analyse_trans_pack a input pack_bag pack_size =
     bind_res (new_trans_data pack_size) (\<lambda>_.
     bind_res (read_range pack_bag 12 8) (\<lambda>to.
     bind_res (read_range pack_bag 4 8) (\<lambda>src.
     bind_res (evbuffer_remove (c_size pack_size) input) (\<lambda>(got, input).
       Inr (True, a\<lparr>trans_data := Some
              \<lparr>td_from_id = Some (host_u64 (rev src)), td_to_id = host_u64 (rev to),
               td_work_thread = None, td_msg_type = None, td_data_size = Some pack_size,
               td_data = (case got of None \<Rightarrow> [] | Some d \<Rightarrow> d)\<rparr>\<rparr>, input)))))"

definition analyse_property_pack ::
  "'u pb_lib \<Rightarrow> 'u analyse_req \<Rightarrow> evbuffer \<Rightarrow> bytes \<Rightarrow> nat \<Rightarrow> nat \<Rightarrow> int \<Rightarrow>
   (bool \<times> 'u analyse_req \<times> evbuffer) res" where
  "analyse_property_pack pb a input pack_bag head_len data_head_len data_len =
     bind_res (read_range pack_bag head_len 2) (\<lambda>p.
     let property_id = be_nat p;
         drain = (\<lambda>r a. bind_res (evbuffer_drain (c_size (int head_len + int data_head_len + data_len)) input)
                          (\<lambda>(_, input). Inr (r, a, input)))
     in if property_id = 1 then drain True a
        else if property_id = 10 then
          (if data_len < 0 then Inl NegativeSize
           else bind_res (read_range pack_bag (head_len + data_head_len) (nat data_len)) (\<lambda>data.
                  case analyse_login_pack pb a data of
                    (ok, a) \<Rightarrow> if \<not> ok then Inr (False, a, input) else drain True a))
        else if property_id = 12 then drain True a
        else drain False a)"

definition analyse_pack ::
  "'u pb_lib \<Rightarrow> 'u analyse_req \<Rightarrow> evbuffer \<Rightarrow> nat \<Rightarrow> nat \<Rightarrow> int \<Rightarrow> (bool \<times> 'u analyse_req \<times> evbuffer) res" where
  "analyse_pack pb a input head_len data_head_len data_len =
     (let pack_size = int head_len + int data_head_len + data_len
      in bind_res (evbuffer_pullup pack_size input) (\<lambda>(bag, input).
         case bag of
           None \<Rightarrow> Inr (False, a, input)
         | Some pack_bag \<Rightarrow>
             bind_res (read_at pack_bag 1) (\<lambda>nalu.
             if nalu AND 0x40 \<noteq> 0 then analyse_trans_pack a input pack_bag pack_size
             else analyse_property_pack pb a input pack_bag head_len data_head_len data_len)))"

text \<open>The length field behind the header: the payload length as an \<open>int32_t\<close> and the size of the
  field with what precedes it; \<open>None\<close> when not all of it has arrived.\<close>

definition read_data_len :: "int \<Rightarrow> nat \<Rightarrow> evbuffer \<Rightarrow> ((int \<times> nat) option \<times> evbuffer) res" where
  "read_data_len buffer_size head_len input =
     bind_res (evbuffer_pullup (int head_len + 5) input) (\<lambda>(data, input).
     case data of
       None \<Rightarrow> Inr (None, input)
     | Some data \<Rightarrow>
         bind_res (read_at data (head_len + 3)) (\<lambda>x.
         bind_res (read_at data (head_len + 4)) (\<lambda>y.
         if x = 0xFF \<and> y = 0 then
           (if buffer_size > int head_len + 9 then
              bind_res (evbuffer_pullup (int head_len + 9) input) (\<lambda>(data, input).
              case data of
                None \<Rightarrow> Inr (None, input)
              | Some data \<Rightarrow>
                  bind_res (read_range data (head_len + 5) 4) (\<lambda>p.
                    Inr (Some (c_int (int (be_nat p)), 9), input)))
            else Inr (None, input))
         else
           bind_res (read_range data (head_len + 3) 2) (\<lambda>p.
             Inr (Some (int (be_nat p), 5), input)))))"

definition analyse_data ::
  "'u pb_lib \<Rightarrow> 'u analyse_req \<Rightarrow> evbuffer \<Rightarrow> evbuffer \<Rightarrow> (bool \<times> 'u analyse_req \<times> evbuffer \<times> evbuffer) res" where
  "analyse_data pb a input output =
     (let buffer_size = c_int (int (evbuffer_get_length input))
      in bind_res (evbuffer_pullup 2 input) (\<lambda>(data, input).
         case data of
           None \<Rightarrow> Inr (False, a, input, output)
         | Some data \<Rightarrow>
             bind_res (read_at data 0) (\<lambda>d0.
             bind_res (read_at data 1) (\<lambda>d1.
             let head_len = unat (d0 AND 0x0F) * 4
             in if d1 AND 0x20 \<noteq> 0 then
                  bind_res (evbuffer_remove_buffer 4 input output) (\<lambda>(_, input, output).
                    Inr (True, a\<lparr>is_heart_flag := True\<rparr>, input, output))
                else if buffer_size > int head_len + 5 then
                  bind_res (read_data_len buffer_size head_len input) (\<lambda>(len, input).
                  case len of
                    None \<Rightarrow> Inr (False, a, input, output)
                  | Some (data_len, data_head_len) \<Rightarrow>
                      if \<not> int_fits (int head_len + int data_head_len + data_len) then Inl SignedOverflow
                      else if buffer_size \<ge> int head_len + int data_head_len + data_len then
                        bind_res (analyse_pack pb a input head_len data_head_len data_len) (\<lambda>(r, a, input).
                          Inr (r, a, input, output))
                      else Inr (False, a, input, output))
                else Inr (False, a, input, output)))))"

definition get_login_data :: "'u analyse_req \<Rightarrow> LoginData option \<times> 'u analyse_req" where
  "get_login_data a = (login_data a, a\<lparr>login_data := None\<rparr>)"

definition get_trans_data :: "'u analyse_req \<Rightarrow> TransData option \<times> 'u analyse_req" where
  "get_trans_data a = (trans_data a, a\<lparr>trans_data := None\<rparr>)"

definition is_heart :: "'u analyse_req \<Rightarrow> bool \<times> 'u analyse_req" where
  "is_heart a = (is_heart_flag a, a\<lparr>is_heart_flag := False\<rparr>)"

section \<open>Outgoing packets\<close>

text \<open>\<open>heap\<close> is what a fresh array holds before it is written. \<open>SerializeToArray\<close> writes nothing when
  it fails.\<close>

definition get_login_rsp ::
  "'u pb_lib \<Rightarrow> (nat \<Rightarrow> byte) \<Rightarrow> 'u analyse_req \<Rightarrow> bool \<Rightarrow> bytes \<Rightarrow> int \<Rightarrow> (bytes \<times> 'u analyse_req) res" where
  "get_login_rsp pb heap a is_success msg ping_time =
     (let m = S2CLogin_set_code (if is_success then 200 else 401) (rsp_login a);
          m = S2CLogin_set_msg msg m;
          m = S2CLogin_set_ping_time (word_of_int ping_time) m;
          (data_size, m) = S2CLogin_ByteSize (wire pb) m;
          body = (case S2CLogin_SerializeToArray pb m data_size of None \<Rightarrow> [] | Some d \<Rightarrow> d);
          rsp_len = (if data_size > 0xFF00 then 20 + 9 + data_size else 20 + 5 + data_size);
          len_and_body =
            (if data_size > 0xFF00
             then [(23, [0xFF]), (24, [0]), (25, be_bytes 4 data_size), (29, body)]
             else [(23, be_bytes 2 data_size), (25, body)]);
          header = [(0, [0x10 OR 5]), (1, [0]), (2, [0]), (3, [0]), (20, be_bytes 2 11),
                    (4, replicate 8 0), (12, replicate 8 0), (22, [1])]
      in bind_res (write_all (len_and_body @ header) (map heap [0..<rsp_len])) (\<lambda>rsp_data.
           Inr (rsp_data, a\<lparr>rsp_login := m\<rparr>)))"

text \<open>\<open>property_id\<close> is not used; byte 2 is not written.\<close>

definition pack_data :: "bytes \<Rightarrow> int \<Rightarrow> bytes \<Rightarrow> (bytes \<times> nat) res" where
  "pack_data src property_id des =
     (let src_len = length src;
          des_len = (if src_len > 0xFF00 then 20 + 9 + src_len else 20 + 5 + src_len);
          len_and_body =
            (if src_len > 0xFF00
             then [(23, [0xFF]), (24, [0]), (25, be_bytes 4 src_len), (29, src)]
             else [(23, be_bytes 2 src_len), (25, src)]);
          header = [(0, [0x10 OR 5]), (1, [0]), (3, [0]), (20, be_bytes 2 12), (22, [1]),
                    (4, replicate 8 0), (12, replicate 8 0)]
      in bind_res (write_all (len_and_body @ header) des) (\<lambda>des. Inr (des, des_len)))"

section \<open>HTTP requests to the account service\<close>

text \<open>\<open>data\<close> is the caller's buffer; the result is the number of bytes to send.\<close>

definition post_header :: "bytes \<Rightarrow> int \<Rightarrow> bytes" where
  "post_header url n =
     cstr ''POST / HTTP/1.1'' @ [13, 10] @ cstr ''Host:'' @ takeWhile (\<lambda>c. c \<noteq> 0) url @ [13, 10] @
     cstr ''Content-Length:'' @ dec_int n @ [13, 10, 13, 10]"

definition pack_post_data ::
  "'u pb_lib \<Rightarrow> 'u analyse_req \<Rightarrow> bytes \<Rightarrow> bytes \<Rightarrow> bytes \<Rightarrow> (bytes \<times> nat \<times> 'u analyse_req) res" where
  "pack_post_data pb a action url data =
     (let m = ReqPacket_Clear (wire pb) (req a);
          m = ReqPacket_set_mask 0 m;
          m = ReqPacket_set_udi (cstr ''ei=1&ai=1&bd=pada'') m;
          m = ReqPacket_set_reqno 0 m;
          m = ReqPacket_set_rsakeyver (cstr ''1'') m;
          m = ReqPacket_set_clientid 111 m;
          m = ReqPacket_add_action_cstr action m;
          m = ReqPacket_add_params_cstr (serialize_str a) m;
          str = ReqPacket_SerializePartialToString pb m;
          header = post_header url (c_int (int (length str)));
          len = length header
      in bind_res (write_all [(0, header @ [0]), (len, str)] data) (\<lambda>data.
           Inr (data, len + length str, a\<lparr>req := m, serialize_str := str\<rparr>)))"

definition get_login_post_data ::
  "'u pb_lib \<Rightarrow> 'u analyse_req \<Rightarrow> u64 \<Rightarrow> bytes \<Rightarrow> bytes \<Rightarrow> bytes \<Rightarrow> (bytes \<times> nat \<times> 'u analyse_req) res" where
  "get_login_post_data pb a ident token url data =
     (let m = ReqCheckTokenByID_Clear (wire pb) (check_id_req a);
          m = ReqCheckTokenByID_set_id ident m;
          m = ReqCheckTokenByID_set_token token m;
          a = a\<lparr>check_id_req := m, serialize_str := ReqCheckTokenByID_SerializePartialToString pb m\<rparr>
      in pack_post_data pb a (cstr ''ReqCheckTokenByID'') url data)"

definition get_relation_post_data ::
  "'u pb_lib \<Rightarrow> 'u analyse_req \<Rightarrow> u64 \<Rightarrow> u64 \<Rightarrow> bytes \<Rightarrow> bytes \<Rightarrow> (bytes \<times> nat \<times> 'u analyse_req) res" where
  "get_relation_post_data pb a from_id to_id url data =
     (let m = ReqCheckRelationByID_Clear (wire pb) (check_relation_req a);
          m = ReqCheckRelationByID_set_fromid from_id m;
          m = ReqCheckRelationByID_set_toid to_id m;
          a = a\<lparr>check_relation_req := m,
                serialize_str := ReqCheckRelationByID_SerializePartialToString pb m\<rparr>
      in pack_post_data pb a (cstr ''ReqCheckRelationByID'') url data)"

section \<open>HTTP responses of the account service\<close>

text \<open>\<open>while ((data[p] != 0x0a || data[p - 1] != 0x0d) && p > 1) p--\<close>. At position 0 the second
  test would read in front of the array.\<close>

primrec find_body :: "bytes \<Rightarrow> nat \<Rightarrow> nat res" where
  "find_body data 0 =
     bind_res (read_at data 0) (\<lambda>c. if c \<noteq> 0x0A then Inr 0 else Inl OutOfBoundsRead)"
| "find_body data (Suc n) =
     bind_res (read_at data (Suc n)) (\<lambda>c.
     bind_res (if c \<noteq> 0x0A then Inr True else bind_res (read_at data n) (\<lambda>d. Inr (d \<noteq> 0x0D))) (\<lambda>go.
     if go \<and> Suc n > 1 then find_body data n else Inr (Suc n)))"

text \<open>\<open>data\<close> is the received text followed by a NUL, \<open>len\<close> the length of the text.\<close>

definition analyse_post_data :: "'u pb_lib \<Rightarrow> 'u analyse_req \<Rightarrow> bytes \<Rightarrow> nat \<Rightarrow> (bool \<times> 'u analyse_req) res" where
  "analyse_post_data pb a data len =
     (if len = 0 then Inl OutOfBoundsRead
      else bind_res (find_body data (len - 1)) (\<lambda>start_pos.
           bind_res (read_range data (start_pos + 1) (len - start_pos - 1)) (\<lambda>body.
           let m = snd (RspPacket_ParseFromArray pb body (rsp a))
           in Inr (RspPacket_params m \<noteq> [], a\<lparr>rsp := m\<rparr>))))"

definition analyse_login_data :: "'u pb_lib \<Rightarrow> 'u analyse_req \<Rightarrow> bytes \<Rightarrow> nat \<Rightarrow> (bool \<times> 'u analyse_req) res" where
  "analyse_login_data pb a data len =
     bind_res (analyse_post_data pb a data len) (\<lambda>(ok, a).
     if \<not> ok then Inr (False, a)
     else let m = snd (RspCheckTokenByID_ParseFromString pb (RspPacket_params (rsp a) ! 0) (check_id_rsp a))
          in Inr (RspCheckTokenByID_rescode m = 0, a\<lparr>check_id_rsp := m\<rparr>))"

definition analyse_relation_data :: "'u pb_lib \<Rightarrow> 'u analyse_req \<Rightarrow> bytes \<Rightarrow> nat \<Rightarrow> (bool \<times> 'u analyse_req) res" where
  "analyse_relation_data pb a data len =
     bind_res (analyse_post_data pb a data len) (\<lambda>(ok, a).
     if \<not> ok then Inr (False, a)
     else let m = snd (RspCheckRelationByID_ParseFromString pb (RspPacket_params (rsp a) ! 0) (check_relation_rsp a))
          in Inr (RspCheckRelationByID_rescode m = 0, a\<lparr>check_relation_rsp := m\<rparr>))"

end
