(* ===== verification/Analyse_Frames.thy ===== *)
theory Analyse_Frames
  imports Analyse_Req
begin

text \<open>
  Incoming frames. \<open>frame_of\<close> says which frame a byte sequence starts with and \<open>analyse_spec\<close> what
  the analyser has to make of it; \<open>analyse_data_refines\<close> shows that \<open>analyse_data\<close> of
  \<open>src/core/analyse_req.cc\<close> does exactly that, whatever the layout of the buffer, on every frame
  that is \<open>well_framed\<close>. The transfer packets that are not are shown to make it leave its buffers.
\<close>

section \<open>The frame at the head of a byte sequence\<close>

text \<open>The specification of \<open>analyse_data\<close>: which frame the bytes of the buffer start with, as the
  protocol defines it, without reference to how the buffer holds them.\<close>

datatype frame_view = Incomplete | Heartbeat | Frame nat nat int

definition data_len_of :: "bytes \<Rightarrow> nat \<Rightarrow> (int \<times> nat) option" where
  "data_len_of bs h =
     (if bs ! (h + 3) = 0xFF \<and> bs ! (h + 4) = 0 then
        (if length bs > h + 9 then Some (c_int (int (be_nat (take 4 (drop (h + 5) bs)))), 9) else None)
      else Some (int (be_nat (take 2 (drop (h + 3) bs))), 5))"

definition head_len_of :: "bytes \<Rightarrow> nat" where
  "head_len_of bs = unat (bs ! 0 AND 0x0F) * 4"

definition frame_of :: "bytes \<Rightarrow> frame_view" where
  "frame_of bs =
     (if length bs < 2 then Incomplete
      else if bs ! 1 AND 0x20 \<noteq> 0 then Heartbeat
      else if length bs > head_len_of bs + 5 then
        (case data_len_of bs (head_len_of bs) of
           None \<Rightarrow> Incomplete
         | Some (l, dh) \<Rightarrow>
             if int (length bs) \<ge> int (head_len_of bs) + int dh + l then Frame (head_len_of bs) dh l
             else Incomplete)
      else Incomplete)"

text \<open>The transfer packet in the first \<open>n\<close> bytes.\<close>

definition trans_of :: "bytes \<Rightarrow> nat \<Rightarrow> TransData" where
  "trans_of bs n =
     \<lparr>td_from_id = Some (of_nat (be_nat (take 8 (drop 4 bs)))), td_to_id = of_nat (be_nat (take 8 (drop 12 bs))),
      td_work_thread = None, td_msg_type = None, td_data_size = Some (int n), td_data = take n bs\<rparr>"

text \<open>The result of \<open>analyse_data\<close>, the object, how many bytes are consumed, and what is sent back.\<close>

definition analyse_spec :: "'u pb_lib \<Rightarrow> 'u analyse_req \<Rightarrow> bytes \<Rightarrow> bool \<times> 'u analyse_req \<times> nat \<times> bytes" where
  "analyse_spec pb a bs =
     (case frame_of bs of
        Incomplete \<Rightarrow> (False, a, 0, [])
      | Heartbeat \<Rightarrow> (True, a\<lparr>is_heart_flag := True\<rparr>, 4, take 4 bs)
      | Frame h dh l \<Rightarrow>
          (let n = h + dh + nat l;
               property_id = be_nat (take 2 (drop h bs))
           in if bs ! 1 AND 0x40 \<noteq> 0 then (True, a\<lparr>trans_data := Some (trans_of bs n)\<rparr>, n, [])
              else if property_id = 10 then
                (True, snd (analyse_login_pack pb a (take (nat l) (drop (h + dh) bs))), n, [])
              else (property_id = 1 \<or> property_id = 12, a, n, [])))"

text \<open>The frames on which the analyser stays inside its buffers: a length that is not negative and
  does not overflow, and for a transfer packet room for the two ids.\<close>

definition well_framed :: "bytes \<Rightarrow> bool" where
  "well_framed bs \<longleftrightarrow>
     (2 \<le> length bs \<and> bs ! 1 AND 0x20 = 0 \<and> length bs > head_len_of bs + 5 \<longrightarrow>
      (case data_len_of bs (head_len_of bs) of
         None \<Rightarrow> True
       | Some (l, dh) \<Rightarrow> 0 \<le> l \<and> int (head_len_of bs) + int dh + l < 2 ^ 31 \<and>
           (bs ! 1 AND 0x40 \<noteq> 0 \<longrightarrow> 20 \<le> int (head_len_of bs) + int dh + l)))"

section \<open>Reading frames\<close>

lemma host_u64_rev [simp]: "host_u64 (rev bs) = of_nat (be_nat bs)"
  by (simp add: host_u64_def)

lemma prefix_read_at:
  assumes p: "p = take (length p) bs" and i: "i < length p"
  shows "read_at p i = Inr (bs ! i)"
proof -
  have "p ! i = take (length p) bs ! i" by (rule arg_cong [OF p])
  also have "\<dots> = bs ! i" using i by (rule nth_take)
  finally show ?thesis using i by (simp add: read_at_def)
qed

lemma prefix_read_range:
  assumes p: "p = take (length p) bs" and k: "i + k \<le> length p"
  shows "read_range p i k = Inr (take k (drop i bs))"
proof -
  have "drop i p = drop i (take (length p) bs)" by (rule arg_cong [OF p])
  then have "drop i p = take (length p - i) (drop i bs)" by (simp only: drop_take)
  with k show ?thesis by (simp add: read_range_def)
qed

text \<open>\<open>reads p n bs\<close>: through the pointer \<open>p\<close> the first \<open>n\<close> bytes of \<open>bs\<close> can be read, and nothing
  behind the end of \<open>bs\<close>.\<close>

definition reads :: "bytes \<Rightarrow> nat \<Rightarrow> bytes \<Rightarrow> bool" where
  "reads p n bs \<longleftrightarrow> n \<le> length p \<and> p = take (length p) bs"

lemma reads_at [simp]:
  assumes "reads p n bs" and "i < n"
  shows "read_at p i = Inr (bs ! i)"
proof -
  from assms(1) have p: "p = take (length p) bs" and n: "n \<le> length p" unfolding reads_def by blast+
  from assms(2) n have "i < length p" by (rule less_le_trans)
  with p show ?thesis by (rule prefix_read_at)
qed

lemma reads_at_any:
  assumes "reads p n bs"
  shows "read_at p i = (if i < length p then Inr (bs ! i) else Inl OutOfBoundsRead)"
proof -
  from assms have p: "p = take (length p) bs" unfolding reads_def by blast
  show ?thesis using prefix_read_at [OF p] by (simp add: read_at_def)
qed

lemma reads_range [simp]:
  assumes "reads p n bs" and "i + k \<le> n"
  shows "read_range p i k = Inr (take k (drop i bs))"
proof -
  from assms(1) have p: "p = take (length p) bs" and n: "n \<le> length p" unfolding reads_def by blast+
  from assms(2) n have "i + k \<le> length p" by (rule le_trans)
  with p show ?thesis by (rule prefix_read_range)
qed

lemma reads_beyond:
  assumes "reads p n bs" and "length bs < i + k"
  shows "read_range p i k = Inl OutOfBoundsRead"
proof -
  from assms(1) have p: "p = take (length p) bs" unfolding reads_def by blast
  have "length p = length (take (length p) bs)" by (rule arg_cong [OF p])
  also have "\<dots> \<le> length bs" by simp
  finally show ?thesis using assms(2) by (simp add: read_range_def)
qed

text \<open>The contents are pulled up as far as they are read.\<close>

lemma pullup_reads:
  assumes "ev_source q" and "0 < sz" and "sz \<le> int (length (ev_bytes q))"
  shows "\<exists>p q'. evbuffer_pullup sz q = Inr (Some p, q') \<and> reads p (nat sz) (ev_bytes q)
    \<and> ev_source q' \<and> ev_bytes q' = ev_bytes q"
proof -
  from assms have "0 < nat sz" "nat sz \<le> length (ev_bytes q)" by auto
  from ev.pullup [OF assms(1) this] obtain p q' where
    p: "evbuffer_pullup (int (nat sz)) q = Inr (Some p, q')" "ev_source q'" "ev_bytes q' = ev_bytes q"
    and "reads p (nat sz) (ev_bytes q)" unfolding reads_def by blast
  moreover from assms(2) have "int (nat sz) = sz" by simp
  ultimately show ?thesis by auto
qed

lemma read_data_len_ok:
  assumes q: "ev_source q" and n: "length (ev_bytes q) > h + 5"
  shows "\<exists>q'. read_data_len (int (length (ev_bytes q))) h q = Inr (data_len_of (ev_bytes q) h, q')
    \<and> ev_source q' \<and> ev_bytes q' = ev_bytes q"
proof -
  let ?bs = "ev_bytes q"
  from n have "0 < int h + 5" "int h + 5 \<le> int (length ?bs)" by simp_all
  from pullup_reads [OF q this] obtain p q' where
    p: "evbuffer_pullup (int h + 5) q = Inr (Some p, q')" "reads p (nat (int h + 5)) ?bs"
    and q': "ev_source q'" "ev_bytes q' = ?bs" by blast
  from p(2) have r: "reads p (h + 5) ?bs" by (simp add: nat_add_distrib)
  note r' = reads_at [OF r, of "h + 3"] reads_at [OF r, of "h + 4"] reads_range [OF r, of "h + 3" 2]
  show ?thesis
  proof (cases "?bs ! (h + 3) = 0xFF \<and> ?bs ! (h + 4) = 0 \<and> length ?bs > h + 9")
    case True
    with q' have "0 < int h + 9" "int h + 9 \<le> int (length (ev_bytes q'))" by simp_all
    from pullup_reads [OF q'(1) this] obtain p2 q2 where
      p2: "evbuffer_pullup (int h + 9) q' = Inr (Some p2, q2)" "reads p2 (nat (int h + 9)) ?bs"
      and q2: "ev_source q2" "ev_bytes q2 = ?bs" unfolding q'(2) by blast
    from p2(2) have "reads p2 (h + 9) ?bs" by (simp add: nat_add_distrib)
    from reads_range [OF this, of "h + 5" 4]
    have "read_range p2 (h + 5) 4 = Inr (take 4 (drop (h + 5) ?bs))" by simp
    with p(1) r' p2(1) q2 True show ?thesis
      by (simp add: read_data_len_def data_len_of_def)
  next
    case False
    with p(1) r' q' show ?thesis by (auto simp: read_data_len_def data_len_of_def)
  qed
qed

lemma head_len_le: "head_len_of bs \<le> 60"
proof -
  have "bs ! 0 AND 0x0F \<le> 0x0F" by (rule word_and_le1)
  then have "unat (bs ! 0 AND 0x0F) \<le> 15" by (simp add: word_le_nat_alt)
  then show ?thesis by (simp add: head_len_of_def)
qed

lemma data_len_of_bounds: "data_len_of bs h = Some (l, dh) \<Longrightarrow> dh = 5 \<or> dh = 9"
  by (auto simp: data_len_of_def split: if_splits)

lemma new_trans_data_ok: "0 \<le> n \<Longrightarrow> n < 2 ^ 31 \<Longrightarrow> new_trans_data n = Inr ()"
  by (simp add: new_trans_data_def c_size_nonneg sizeof_TransData_def Let_def nat_less_iff)

lemma analyse_trans_pack_ok:
  assumes q: "ev_source q" and p: "reads p n (ev_bytes q)" and n: "20 \<le> n" "n < 2 ^ 31"
  shows "\<exists>q'. analyse_trans_pack a q p (int n) = Inr (True, a\<lparr>trans_data := Some (trans_of (ev_bytes q) n)\<rparr>, q')
    \<and> ev_source q' \<and> ev_bytes q' = drop n (ev_bytes q)"
proof -
  from n have c: "c_size (int n) = n" by (simp add: c_size_nonneg)
  from ev.remove [OF q, of n] obtain q' where q': "evbuffer_remove n q = Inr (Some (take n (ev_bytes q)), q')"
    "ev_source q'" "ev_bytes q' = drop n (ev_bytes q)" by blast
  have "read_range p 12 8 = Inr (take 8 (drop 12 (ev_bytes q)))"
    "read_range p 4 8 = Inr (take 8 (drop 4 (ev_bytes q)))" using p n by simp_all
  with q' n c show ?thesis
    by (simp add: analyse_trans_pack_def new_trans_data_ok trans_of_def)
qed

lemma analyse_property_pack_ok:
  assumes q: "ev_source q" and p: "reads p (h + dh + n) (ev_bytes q)" and n: "h + dh + n < 2 ^ 31" "2 \<le> dh"
  shows "\<exists>q'. analyse_property_pack pb a q p h dh (int n) =
      (let property_id = be_nat (take 2 (drop h (ev_bytes q)))
       in if property_id = 10 then
            Inr (True, snd (analyse_login_pack pb a (take n (drop (h + dh) (ev_bytes q)))), q')
          else Inr (property_id = 1 \<or> property_id = 12, a, q'))
    \<and> ev_source q' \<and> ev_bytes q' = drop (h + dh + n) (ev_bytes q)"
proof -
  have "int h + int dh + int n = int (h + dh + n)" by simp
  with n have c: "c_size (int h + int dh + int n) = h + dh + n" by (simp only: c_size_nonneg) simp
  from ev.drain [OF q, of "h + dh + n"] obtain q' where q': "evbuffer_drain (h + dh + n) q = Inr (True, q')"
    "ev_source q'" "ev_bytes q' = drop (h + dh + n) (ev_bytes q)" by blast
  have "read_range p h 2 = Inr (take 2 (drop h (ev_bytes q)))"
    "read_range p (h + dh) n = Inr (take n (drop (h + dh) (ev_bytes q)))" using p n by simp_all
  with q' c show ?thesis
    by (auto simp: analyse_property_pack_def analyse_login_pack_def Let_def)
qed

lemma analyse_pack_ok:
  assumes q: "ev_source q" and n: "h + dh + n \<le> length (ev_bytes q)" "h + dh + n < 2 ^ 31" "2 \<le> dh"
    and t: "ev_bytes q ! 1 AND 0x40 \<noteq> 0 \<longrightarrow> 20 \<le> h + dh + n"
  shows "\<exists>q'. analyse_pack pb a q h dh (int n) =
      (if ev_bytes q ! 1 AND 0x40 \<noteq> 0
       then Inr (True, a\<lparr>trans_data := Some (trans_of (ev_bytes q) (h + dh + n))\<rparr>, q')
       else let property_id = be_nat (take 2 (drop h (ev_bytes q)))
            in if property_id = 10 then
                 Inr (True, snd (analyse_login_pack pb a (take n (drop (h + dh) (ev_bytes q)))), q')
               else Inr (property_id = 1 \<or> property_id = 12, a, q'))
    \<and> ev_source q' \<and> ev_bytes q' = drop (h + dh + n) (ev_bytes q)"
proof -
  let ?n = "h + dh + n"
  have i: "int h + int dh + int n = int ?n" by simp
  from n have "0 < int ?n" "int ?n \<le> int (length (ev_bytes q))" by simp_all
  from pullup_reads [OF q this] obtain p q1 where p: "evbuffer_pullup (int ?n) q = Inr (Some p, q1)"
    "reads p ?n (ev_bytes q1)" and q1: "ev_source q1" "ev_bytes q1 = ev_bytes q" by (metis nat_int)
  have "read_at p 1 = Inr (ev_bytes q ! 1)" using p(2) q1(2) n by simp
  with p(1) have e: "analyse_pack pb a q h dh (int n) =
      (if ev_bytes q ! 1 AND 0x40 \<noteq> 0 then analyse_trans_pack a q1 p (int ?n)
       else analyse_property_pack pb a q1 p h dh (int n))"
    unfolding analyse_pack_def Let_def i by simp
  show ?thesis
  proof (cases "ev_bytes q ! 1 AND 0x40 \<noteq> 0")
    case True
    with analyse_trans_pack_ok [OF q1(1) p(2), of a] t n e q1(2) show ?thesis by simp
  next
    case False
    with analyse_property_pack_ok [OF q1(1) p(2) n(2,3), of pb a, unfolded q1(2)] e show ?thesis by simp
  qed
qed

text \<open>The head of \<open>analyse_data\<close>: the first two bytes are looked at and the case is the one of
  \<open>frame_of\<close>.\<close>

lemma analyse_data_short:
  assumes "ev_source q" and "length (ev_bytes q) < 2"
  shows "analyse_data pb a q out = Inr (False, a, q, out)"
  using ev.pullup_short [OF assms(1), of 2] assms(2) by (simp add: analyse_data_def)

lemma analyse_data_heartbeat:
  assumes q: "ev_source q" and out: "ev_sink out" and bs: "2 \<le> length (ev_bytes q)" "ev_bytes q ! 1 AND 0x20 \<noteq> 0"
  shows "\<exists>q' out'. analyse_data pb a q out = Inr (True, a\<lparr>is_heart_flag := True\<rparr>, q', out')
    \<and> ev_source q' \<and> ev_sink out' \<and> ev_bytes q' = drop 4 (ev_bytes q)
    \<and> ev_bytes out' = ev_bytes out @ take 4 (ev_bytes q)"
proof -
  from pullup_reads [OF q, of 2] bs obtain p q1 where p: "evbuffer_pullup 2 q = Inr (Some p, q1)"
    "reads p 2 (ev_bytes q)" and q1: "ev_source q1" "ev_bytes q1 = ev_bytes q" by auto
  from ev.move [OF q1(1) out, of 4] obtain q2 out2 k where
    "evbuffer_remove_buffer 4 q1 out = Inr (k, q2, out2)" "ev_source q2" "ev_sink out2"
    "ev_bytes q2 = drop 4 (ev_bytes q)" "ev_bytes out2 = ev_bytes out @ take 4 (ev_bytes q)"
    unfolding q1(2) by auto
  moreover have "read_at p 0 = Inr (ev_bytes q ! 0)" "read_at p 1 = Inr (ev_bytes q ! 1)"
    using p(2) by simp_all
  ultimately show ?thesis using p(1) bs(2) by (simp add: analyse_data_def)
qed

lemma analyse_data_frame:
  assumes q: "ev_source q" and len: "2 \<le> length (ev_bytes q)" "length (ev_bytes q) < 2 ^ 31"
    and nh: "ev_bytes q ! 1 AND 0x20 = 0"
  shows "\<exists>q'. ev_source q' \<and> ev_bytes q' = ev_bytes q \<and>
    analyse_data pb a q out =
      (if length (ev_bytes q) > head_len_of (ev_bytes q) + 5 then
         (case data_len_of (ev_bytes q) (head_len_of (ev_bytes q)) of
            None \<Rightarrow> Inr (False, a, q', out)
          | Some (l, dh) \<Rightarrow>
              if \<not> int_fits (int (head_len_of (ev_bytes q)) + int dh + l) then Inl SignedOverflow
              else if int (length (ev_bytes q)) \<ge> int (head_len_of (ev_bytes q)) + int dh + l then
                bind_res (analyse_pack pb a q' (head_len_of (ev_bytes q)) dh l) (\<lambda>(r, a, q). Inr (r, a, q, out))
              else Inr (False, a, q', out))
       else Inr (False, a, q', out))"
proof -
  let ?bs = "ev_bytes q" and ?h = "head_len_of (ev_bytes q)"
  from pullup_reads [OF q, of 2] len obtain p q1 where p: "evbuffer_pullup 2 q = Inr (Some p, q1)"
    "reads p 2 ?bs" and q1: "ev_source q1" "ev_bytes q1 = ?bs" by auto
  have b: "read_at p 0 = Inr (?bs ! 0)" "read_at p 1 = Inr (?bs ! 1)" using p(2) by simp_all
  have c: "c_int (int (evbuffer_get_length q)) = int (length ?bs)"
    using ev.get_length [OF q] len(2) by (simp add: int_fits_def)
  have h: "uint (?bs ! 0 AND 0x0F) * 4 = int ?h" by (simp add: head_len_of_def)
  show ?thesis
  proof (cases "length ?bs > ?h + 5")
    case True
    with read_data_len_ok [OF q1(1), of ?h, unfolded q1(2)] obtain q2 where
      q2: "read_data_len (int (length ?bs)) ?h q1 = Inr (data_len_of ?bs ?h, q2)" "ev_source q2"
        "ev_bytes q2 = ?bs" by blast
    show ?thesis
      by (rule exI [of _ q2])
        (use p(1) b c nh True q2 in \<open>simp add: analyse_data_def Let_def h head_len_of_def [symmetric] split: option.splits\<close>)
  next
    case False
    then show ?thesis
      by (intro exI [of _ q1]) (use p(1) b c nh q1 in \<open>simp add: analyse_data_def Let_def h head_len_of_def [symmetric]\<close>)
  qed
qed

text \<open>The analyser does what the specification says, on every buffer layout.\<close>

lemma analyse_data_refines:
  assumes q: "ev_source q" and out: "ev_sink out" and len: "length (ev_bytes q) < 2 ^ 31"
    and wf: "well_framed (ev_bytes q)" and spec: "analyse_spec pb a (ev_bytes q) = (r, a', k, e)"
  shows "\<exists>q' out'. analyse_data pb a q out = Inr (r, a', q', out') \<and> ev_source q' \<and> ev_sink out'
    \<and> ev_bytes q' = drop k (ev_bytes q) \<and> ev_bytes out' = ev_bytes out @ e"
proof -
  let ?bs = "ev_bytes q" and ?h = "head_len_of (ev_bytes q)"
  consider (short) "length ?bs < 2" | (heart) "2 \<le> length ?bs" "?bs ! 1 AND 0x20 \<noteq> 0"
    | (frame) "2 \<le> length ?bs" "?bs ! 1 AND 0x20 = 0" by linarith
  then show ?thesis
  proof cases
    case short
    then have "analyse_spec pb a ?bs = (False, a, 0, [])" by (simp add: analyse_spec_def frame_of_def)
    with analyse_data_short [OF q short, of pb a out] spec q out show ?thesis by auto
  next
    case heart
    then have "analyse_spec pb a ?bs = (True, a\<lparr>is_heart_flag := True\<rparr>, 4, take 4 ?bs)"
      by (simp add: analyse_spec_def frame_of_def)
    with analyse_data_heartbeat [OF q out heart, of pb a] spec show ?thesis by simp
  next
    case frame
    from analyse_data_frame [OF q frame(1) len frame(2), of pb a out] obtain q' where q': "ev_source q'"
      "ev_bytes q' = ?bs" and e: "analyse_data pb a q out =
      (if length ?bs > ?h + 5 then
         (case data_len_of ?bs ?h of
            None \<Rightarrow> Inr (False, a, q', out)
          | Some (l, dh) \<Rightarrow>
              if \<not> int_fits (int ?h + int dh + l) then Inl SignedOverflow
              else if int (length ?bs) \<ge> int ?h + int dh + l then
                bind_res (analyse_pack pb a q' ?h dh l) (\<lambda>(r, a, q). Inr (r, a, q, out))
              else Inr (False, a, q', out))
       else Inr (False, a, q', out))" by blast
    show ?thesis
    proof (cases "\<exists>l dh. frame_of ?bs = Frame ?h dh l")
      case False
      with frame have i: "frame_of ?bs = Incomplete"
        by (auto simp: frame_of_def split: option.splits)
      with spec have "r = False" "a' = a" "k = 0" "e = []" by (auto simp: analyse_spec_def)
      moreover have "analyse_data pb a q out = Inr (False, a, q', out)"
        using i frame wf unfolding e
        by (auto simp: frame_of_def well_framed_def int_fits_def split: option.splits if_splits)
      ultimately show ?thesis using q' out by simp
    next
      case True
      then obtain l dh where fr: "frame_of ?bs = Frame ?h dh l" by blast
      with frame have d: "length ?bs > ?h + 5" "data_len_of ?bs ?h = Some (l, dh)"
        "int (length ?bs) \<ge> int ?h + int dh + l"
        by (auto simp: frame_of_def split: option.splits if_splits)
      with wf frame have l: "0 \<le> l" "int ?h + int dh + l < 2 ^ 31"
        "?bs ! 1 AND 0x40 \<noteq> 0 \<longrightarrow> 20 \<le> int ?h + int dh + l" by (auto simp: well_framed_def)
      then obtain n where n: "l = int n" by (metis nonneg_int_cases)
      from data_len_of_bounds [OF d(2)] have dh: "2 \<le> dh" by auto
      have "?h + dh + n \<le> length (ev_bytes q')" "?h + dh + n < 2 ^ 31"
        "ev_bytes q' ! 1 AND 0x40 \<noteq> 0 \<longrightarrow> 20 \<le> ?h + dh + n"
        using d(3) l unfolding n q'(2) by auto
      from analyse_pack_ok [OF q'(1) this(1,2) dh this(3), of pb a, unfolded q'(2)] obtain q2 where
        "analyse_pack pb a q' ?h dh l = Inr (r, a', q2)" "ev_source q2" "ev_bytes q2 = drop k ?bs" "e = []"
        using spec fr unfolding n by (auto simp: analyse_spec_def Let_def split: if_splits)
      moreover from d l have "analyse_data pb a q out =
          bind_res (analyse_pack pb a q' ?h dh l) (\<lambda>(r, a, q). Inr (r, a, q, out))"
        unfolding e by (simp add: int_fits_def)
      ultimately show ?thesis using out by simp
    qed
  qed
qed

text \<open>A frame that is accepted consumes input.\<close>

lemma analyse_spec_progress:
  assumes "analyse_spec pb a bs = (True, a', k, e)"
  shows "4 \<le> k"
proof (cases "frame_of bs")
  case (Frame h dh l)
  then have "5 \<le> dh"
    using data_len_of_bounds [of bs "head_len_of bs"] by (fastforce simp: frame_of_def split: if_splits option.splits)
  with Frame assms show ?thesis by (auto simp: analyse_spec_def Let_def split: if_splits)
qed (use assms in \<open>simp_all add: analyse_spec_def\<close>)

section \<open>Malformed transfer packets\<close>

lemma analyse_data_to_pack:
  assumes q: "ev_source q" and len: "length (ev_bytes q) < 2 ^ 31" and fr: "frame_of (ev_bytes q) = Frame h dh l"
    and fits: "int_fits (int h + int dh + l)"
  shows "\<exists>q'. ev_source q' \<and> ev_bytes q' = ev_bytes q \<and> int h + int dh + l \<le> int (length (ev_bytes q)) \<and>
    2 \<le> length (ev_bytes q) \<and>
    analyse_data pb a q out = bind_res (analyse_pack pb a q' h dh l) (\<lambda>(r, a, q). Inr (r, a, q, out))"
proof -
  from fr have "2 \<le> length (ev_bytes q)" "ev_bytes q ! 1 AND 0x20 = 0" "h = head_len_of (ev_bytes q)"
    "length (ev_bytes q) > h + 5" "data_len_of (ev_bytes q) h = Some (l, dh)"
    "int h + int dh + l \<le> int (length (ev_bytes q))"
    by (auto simp: frame_of_def split: if_splits option.splits)
  with analyse_data_frame [OF q this(1) len this(2), of pb a out] fits show ?thesis by auto
qed

lemma trans_short_fault:
  assumes q: "ev_source q" and len: "length (ev_bytes q) < 20"
    and fr: "frame_of (ev_bytes q) = Frame h dh l" "0 < int h + int dh + l" and t: "ev_bytes q ! 1 AND 0x40 \<noteq> 0"
  shows "analyse_data pb a q out = Inl OutOfBoundsRead"
proof -
  from fr have "int h + int dh + l \<le> int (length (ev_bytes q))"
    by (auto simp: frame_of_def split: if_splits option.splits)
  with len fr(2) have fits: "int_fits (int h + int dh + l)" by (simp add: int_fits_def)
  have "length (ev_bytes q) < 2 ^ 31" using len by simp
  from analyse_data_to_pack [OF q this fr(1) fits, of pb a out] obtain q' where q': "ev_source q'"
    "ev_bytes q' = ev_bytes q" "int h + int dh + l \<le> int (length (ev_bytes q))" "2 \<le> length (ev_bytes q)"
    "analyse_data pb a q out = bind_res (analyse_pack pb a q' h dh l) (\<lambda>(r, a, q). Inr (r, a, q, out))"
    by blast
  from pullup_reads [OF q'(1) fr(2)] q' obtain p q2 where
    p: "evbuffer_pullup (int h + int dh + l) q' = Inr (Some p, q2)"
      and r: "reads p (nat (int h + int dh + l)) (ev_bytes q)" by auto
  have "analyse_trans_pack a q2 p (int h + int dh + l) = Inl OutOfBoundsRead"
    using reads_beyond [OF r, of 12 8] len fr(2) q'(3) by (simp add: analyse_trans_pack_def new_trans_data_ok)
  with p q'(5) t show ?thesis
    by (simp add: analyse_pack_def reads_at_any [OF r])
qed

lemma new_trans_data_neg:
  assumes "n < 0" and "- (2 ^ 31) \<le> n"
  shows "new_trans_data n = Inl (if sizeof_TransData + n < 0 then BadAlloc else BufferOverflow)"
proof (cases "sizeof_TransData + n < 0")
  case True
  with assms have "2 ^ 63 < c_size (sizeof_TransData + n)"
    by (intro c_size_neg) (simp_all add: sizeof_TransData_def)
  with True show ?thesis by (simp add: new_trans_data_def)
next
  case False
  with assms show ?thesis by (simp add: new_trans_data_def sizeof_TransData_def Let_def le_nat_iff)
qed

lemma trans_negative_fault:
  assumes q: "ev_source q" and len: "length (ev_bytes q) < 2 ^ 31"
    and fr: "frame_of (ev_bytes q) = Frame h dh l" "int h + int dh + l < 0" and t: "ev_bytes q ! 1 AND 0x40 \<noteq> 0"
  shows "analyse_data pb a q out =
    Inl (if sizeof_TransData + (int h + int dh + l) < 0 then BadAlloc else BufferOverflow)"
proof -
  have "- (2 ^ 31) \<le> l"
  proof -
    from fr(1) have d: "data_len_of (ev_bytes q) h = Some (l, dh)"
      by (auto simp: frame_of_def split: if_splits option.splits)
    have "- (2 ^ 31) \<le> c_int x" for x
      unfolding c_int_def using sint_ge [of "word_of_int x :: 32 word"] by simp
    with d show ?thesis by (auto simp: data_len_of_def split: if_splits)
  qed
  then have low: "- (2 ^ 31) \<le> int h + int dh + l" by simp
  with fr(2) have fits: "int_fits (int h + int dh + l)" by (simp add: int_fits_def)
  from analyse_data_to_pack [OF q len fr(1) fits, of pb a out] obtain q' where q': "ev_source q'"
    "ev_bytes q' = ev_bytes q" "2 \<le> length (ev_bytes q)"
    "analyse_data pb a q out = bind_res (analyse_pack pb a q' h dh l) (\<lambda>(r, a, q). Inr (r, a, q, out))"
    by blast
  have "0 < int (length (ev_bytes q'))" using q'(2,3) by auto
  from pullup_reads [OF q'(1) this] ev.pullup_neg [OF q'(1) fr(2)] q'(2) obtain p q2 where
    p: "evbuffer_pullup (int h + int dh + l) q' = Inr (Some p, q2)" "reads p (length (ev_bytes q)) (ev_bytes q)"
    by auto
  have "read_at p 1 = Inr (ev_bytes q ! 1)" using p(2) q'(3) by simp
  with p(1) q'(4) t new_trans_data_neg [OF fr(2) low] show ?thesis
    by (simp add: analyse_pack_def analyse_trans_pack_def)
qed

end
