(* ===== verification/Analyse_Packets.thy ===== *)
theory Analyse_Packets
  imports Analyse_Frames
begin

text \<open>
  Outgoing packets and the HTTP exchange of \<open>src/core/analyse_req.cc\<close>. \<open>packet\<close> is the layout that
  \<open>pack_data\<close> and \<open>get_login_rsp\<close> produce; a packet is read back by \<open>frame_of\<close>. The second half is
  about the requests to the account service and the search for the body of its answers.
\<close>

section \<open>The layout of outgoing packets\<close>

text \<open>What both packet builders produce, byte by byte; \<open>b2\<close> is the third header byte.\<close>

definition packet :: "byte \<Rightarrow> nat \<Rightarrow> bytes \<Rightarrow> bytes" where
  "packet b2 property_id body =
     [0x15, 0, b2, 0] @ replicate 16 0 @ be_bytes 2 property_id @ [1] @
     (if length body > 0xFF00 then [0xFF, 0] @ be_bytes 4 (length body) else be_bytes 2 (length body)) @ body"

lemma length_packet: "length (packet b2 property_id body) =
    (if length body > 0xFF00 then 29 + length body else 25 + length body)"
  by (simp add: packet_def)

lemma be_bytes_2: "be_bytes 2 n = [of_nat (n div 256 mod 256), of_nat (n mod 256)]"
proof -
  have "be_bytes (Suc (Suc 0)) n = [of_nat (n div 256 mod 256), of_nat (n mod 256)]" by simp
  then show ?thesis by (simp only: numeral_2_eq_2)
qed

lemma nat_4: "4 = Suc (Suc (Suc (Suc 0)))"
  by simp

lemma be_bytes_4: "be_bytes 4 n =
    [of_nat (n div 256 div 256 div 256 mod 256), of_nat (n div 256 div 256 mod 256),
     of_nat (n div 256 mod 256), of_nat (n mod 256)]"
  unfolding nat_4 by (simp only: be_bytes.simps append.simps)

text \<open>A buffer cut into the fields of a packet, so that each write replaces one of them.\<close>

lemma cut_list:
  assumes "sum_list ns \<le> length xs"
  shows "\<exists>segs rest. map length segs = ns \<and> xs = concat segs @ rest"
  using assms
proof (induction ns arbitrary: xs)
  case (Cons n ns)
  then have "sum_list ns \<le> length (drop n xs)" by simp
  from Cons.IH [OF this] obtain segs rest where "map length segs = ns" "drop n xs = concat segs @ rest"
    by blast
  with Cons.prems show ?case
    by (intro exI [of _ "take n xs # segs"] exI [of _ rest]) (simp, metis append_take_drop_id)
qed auto

lemma memcpy_seg:
  assumes "k < length segs" and "length src = length (segs ! k)"
  shows "memcpy_at (sum_list (map length (take k segs))) src (concat segs @ rest) =
    Inr (concat (segs[k := src]) @ rest)"
proof -
  have "concat segs = concat (take k segs) @ segs ! k @ concat (drop (Suc k) segs)"
    by (metis assms(1) concat.simps(2) concat_append id_take_nth_drop)
  moreover have "concat (segs[k := src]) = concat (take k segs) @ src @ concat (drop (Suc k) segs)"
    using assms(1) by (simp add: upd_conv_take_nth_drop)
  ultimately show ?thesis using assms(2) by (simp add: memcpy_at_def length_concat)
qed

lemma write_segs:
  assumes "map length segs = lens" and "\<forall>(k, src) \<in> set kws. k < length lens \<and> length src = lens ! k"
  shows "write_all (map (\<lambda>(k, src). (sum_list (take k lens), src)) kws) (concat segs @ rest) =
    Inr (concat (fold (\<lambda>(k, src) s. s[k := src]) kws segs) @ rest)"
  using assms
proof (induction kws arbitrary: segs)
  case (Cons w kws)
  obtain k src where w: "w = (k, src)" by (cases w)
  with Cons.prems(2) have kl: "k < length lens" "length src = lens ! k" by simp_all
  then have "lens[k := length src] = lens" by (simp only: list_update_id)
  then have m: "map length (segs[k := src]) = lens" by (simp only: map_update Cons.prems(1))
  have k: "k < length segs" "length src = length (segs ! k)"
    using kl unfolding Cons.prems(1) [symmetric] by simp_all
  from Cons.IH [OF m] Cons.prems(2)
  have "write_all (map (\<lambda>(k, src). (sum_list (take k lens), src)) kws) (concat (segs[k := src]) @ rest) =
      Inr (concat (fold (\<lambda>(k, src) s. s[k := src]) kws (segs[k := src])) @ rest)" by simp
  moreover have "sum_list (take k lens) = sum_list (map length (take k segs))"
    unfolding Cons.prems(1) [symmetric] by (simp only: take_map)
  ultimately show ?case using w memcpy_seg [OF k, of rest] by simp
qed simp

lemma write_fields:
  assumes "sum_list lens \<le> length des" and "\<forall>(k, src) \<in> set kws. k < length lens \<and> length src = lens ! k"
  shows "\<exists>segs. map length segs = lens \<and> des = concat segs @ drop (sum_list lens) des \<and>
    write_all (map (\<lambda>(k, src). (sum_list (take k lens), src)) kws) des =
      Inr (concat (fold (\<lambda>(k, src) s. s[k := src]) kws segs) @ drop (sum_list lens) des)"
proof -
  from cut_list [OF assms(1)] obtain segs rest where segs: "map length segs = lens"
    and d: "des = concat segs @ rest" by (elim exE conjE)
  have "drop (sum_list lens) des = rest" unfolding d by (simp add: length_concat segs)
  with write_segs [OF segs assms(2), of rest] segs d show ?thesis by auto
qed

lemma zero_16: "replicate 16 (0 :: byte) = replicate 8 0 @ replicate 8 0"
  by (simp flip: replicate_add)

text \<open>The fields of a packet with a two-byte and with a four-byte length, in the order in which
  \<open>pack_data\<close> and \<open>get_login_rsp\<close> write them.\<close>

abbreviation short_fields :: "nat \<Rightarrow> nat list" where
  "short_fields n \<equiv> [1, 1, 1, 1, 8, 8, 2, 1, 2, n]"

abbreviation long_fields :: "nat \<Rightarrow> nat list" where
  "long_fields n \<equiv> [1, 1, 1, 1, 8, 8, 2, 1, 1, 1, 4, n]"

lemma singleton_list: "length xs = Suc 0 \<Longrightarrow> [xs ! 0] = xs"
  by (cases xs) auto

lemma pack_data_short:
  assumes "25 + length src \<le> length des" and "length src \<le> 0xFF00"
  shows "pack_data src property_id des =
    Inr (packet (des ! 2) 12 src @ drop (25 + length src) des, 25 + length src)"
proof -
  let ?lens = "short_fields (length src)"
    and ?kws = "[(8, be_bytes 2 (length src)), (9, src)] @ [(0, [0x15]), (1, [0]), (3, [0]), (6, be_bytes 2 12), (7, [1]),
      (4, replicate 8 0), (5, replicate 8 0)]"
  have "sum_list ?lens \<le> length des" "\<forall>(k, src) \<in> set ?kws. k < length ?lens \<and> length src = ?lens ! k"
    using assms(1) by simp_all
  from write_fields [OF this] obtain segs where s: "map length segs = ?lens"
    and d: "des = concat segs @ drop (sum_list ?lens) des"
    and w: "write_all (map (\<lambda>(k, src). (sum_list (take k ?lens), src)) ?kws) des =
      Inr (concat (fold (\<lambda>(k, src) s. s[k := src]) ?kws segs) @ drop (sum_list ?lens) des)" by (elim exE conjE)
  from s obtain b0 b1 b2 b3 b4 b5 b6 b7 b8 b9 where b: "segs = [b0, b1, b2, b3, b4, b5, b6, b7, b8, b9]"
    "length b0 = 1" "length b1 = 1" "length b2 = 1" by (auto simp: map_eq_Cons_conv)
  then have "[des ! 2] = b2" by (subst d) (simp add: nth_append singleton_list)
  then have "b2 = [des ! 2]" ..
  with b(1) w assms(2) show ?thesis
    by (simp add: pack_data_def packet_def zero_16 Let_def numeral_3_eq_3 nat_4 del: write_all_Cons)
qed

lemma pack_data_long:
  assumes "29 + length src \<le> length des" and "length src > 0xFF00"
  shows "pack_data src property_id des =
    Inr (packet (des ! 2) 12 src @ drop (29 + length src) des, 29 + length src)"
proof -
  let ?lens = "long_fields (length src)"
    and ?kws = "[(8, [0xFF]), (9, [0]), (10, be_bytes 4 (length src)), (11, src)] @ [(0, [0x15]), (1, [0]), (3, [0]), (6, be_bytes 2 12), (7, [1]),
      (4, replicate 8 0), (5, replicate 8 0)]"
  have "sum_list ?lens \<le> length des" "\<forall>(k, src) \<in> set ?kws. k < length ?lens \<and> length src = ?lens ! k"
    using assms(1) by simp_all
  from write_fields [OF this] obtain segs where s: "map length segs = ?lens"
    and d: "des = concat segs @ drop (sum_list ?lens) des"
    and w: "write_all (map (\<lambda>(k, src). (sum_list (take k ?lens), src)) ?kws) des =
      Inr (concat (fold (\<lambda>(k, src) s. s[k := src]) ?kws segs) @ drop (sum_list ?lens) des)" by (elim exE conjE)
  from s obtain b0 b1 b2 b3 b4 b5 b6 b7 b8 b9 b10 b11 where b: "segs = [b0, b1, b2, b3, b4, b5, b6, b7, b8, b9, b10, b11]"
    "length b0 = 1" "length b1 = 1" "length b2 = 1" by (auto simp: map_eq_Cons_conv)
  then have "[des ! 2] = b2" by (subst d) (simp add: nth_append singleton_list)
  then have "b2 = [des ! 2]" ..
  with b(1) w assms(2) show ?thesis
    by (simp add: pack_data_def packet_def zero_16 Let_def numeral_3_eq_3 nat_4 del: write_all_Cons)
qed

lemma login_rsp_short:
  assumes "length body = n" and "n \<le> 0xFF00" and "length des = 25 + n"
  shows "write_all ((if n > 0xFF00 then [(23, [0xFF]), (24, [0]), (25, be_bytes 4 n), (29, body)]
        else [(23, be_bytes 2 n), (25, body)]) @
      [(0, [0x10 OR 5]), (1, [0]), (2, [0]), (3, [0]), (20, be_bytes 2 11), (4, replicate 8 0),
       (12, replicate 8 0), (22, [1])]) des = Inr (packet 0 11 body)"
proof -
  let ?lens = "short_fields n"
    and ?kws = "[(8, be_bytes 2 n), (9, body)] @ [(0, [0x15]), (1, [0]), (2, [0]), (3, [0]), (6, be_bytes 2 11),
      (4, replicate 8 0), (5, replicate 8 0), (7, [1])]"
  have "sum_list ?lens \<le> length des" "\<forall>(k, src) \<in> set ?kws. k < length ?lens \<and> length src = ?lens ! k"
    using assms(1,3) by simp_all
  from write_fields [OF this] obtain segs where s: "map length segs = ?lens"
    and w: "write_all (map (\<lambda>(k, src). (sum_list (take k ?lens), src)) ?kws) des =
      Inr (concat (fold (\<lambda>(k, src) s. s[k := src]) ?kws segs) @ drop (sum_list ?lens) des)" by (elim exE conjE)
  from s obtain b0 b1 b2 b3 b4 b5 b6 b7 b8 b9 where "segs = [b0, b1, b2, b3, b4, b5, b6, b7, b8, b9]"
    by (auto simp: map_eq_Cons_conv)
  with w assms show ?thesis
    by (simp add: packet_def zero_16 numeral_2_eq_2 numeral_3_eq_3 nat_4 del: write_all_Cons)
qed

lemma login_rsp_long:
  assumes "length body = n" and "n > 0xFF00" and "length des = 29 + n"
  shows "write_all ((if n > 0xFF00 then [(23, [0xFF]), (24, [0]), (25, be_bytes 4 n), (29, body)]
        else [(23, be_bytes 2 n), (25, body)]) @
      [(0, [0x10 OR 5]), (1, [0]), (2, [0]), (3, [0]), (20, be_bytes 2 11), (4, replicate 8 0),
       (12, replicate 8 0), (22, [1])]) des = Inr (packet 0 11 body)"
proof -
  let ?lens = "long_fields n"
    and ?kws = "[(8, [0xFF]), (9, [0]), (10, be_bytes 4 n), (11, body)] @ [(0, [0x15]), (1, [0]), (2, [0]), (3, [0]), (6, be_bytes 2 11),
      (4, replicate 8 0), (5, replicate 8 0), (7, [1])]"
  have "sum_list ?lens \<le> length des" "\<forall>(k, src) \<in> set ?kws. k < length ?lens \<and> length src = ?lens ! k"
    using assms(1,3) by simp_all
  from write_fields [OF this] obtain segs where s: "map length segs = ?lens"
    and w: "write_all (map (\<lambda>(k, src). (sum_list (take k ?lens), src)) ?kws) des =
      Inr (concat (fold (\<lambda>(k, src) s. s[k := src]) ?kws segs) @ drop (sum_list ?lens) des)" by (elim exE conjE)
  from s obtain b0 b1 b2 b3 b4 b5 b6 b7 b8 b9 b10 b11 where "segs = [b0, b1, b2, b3, b4, b5, b6, b7, b8, b9, b10, b11]"
    by (auto simp: map_eq_Cons_conv)
  with w assms show ?thesis
    by (simp add: packet_def zero_16 numeral_2_eq_2 numeral_3_eq_3 nat_4 del: write_all_Cons)
qed

lemma pack_data_ok:
  assumes "length (packet 0 12 src) \<le> length des"
  shows "pack_data src property_id des =
    Inr (packet (des ! 2) 12 src @ drop (length (packet 0 12 src)) des, length (packet 0 12 src))"
  using assms pack_data_short [of src des property_id] pack_data_long [of src des property_id]
  by (cases "length src > 0xFF00") (simp_all add: length_packet)

text \<open>A destination that is too small is overrun.\<close>

lemma pack_data_overflow:
  assumes "length des < length (packet 0 12 src)"
  shows "pack_data src property_id des = Inl BufferOverflow"
proof (cases "length src > 0xFF00")
  case True
  with assms have "length des < 29 + length src" by (simp add: length_packet)
  with write_all_overflow [of 29 src _ des] True show ?thesis
    by (simp add: pack_data_def Let_def del: write_all_Cons)
next
  case False
  with assms have "length des < 25 + length src" by (simp add: length_packet)
  with write_all_overflow [of 25 src _ des] False show ?thesis
    by (simp add: pack_data_def Let_def del: write_all_Cons)
qed

section \<open>What was packed is read back\<close>

lemma length_marker:
  assumes "n \<le> 0xFF00" and "n \<noteq> 0xFF00"
  shows "\<not> (of_nat (n div 256 mod 256) = (0xFF :: byte) \<and> of_nat (n mod 256) = (0 :: byte))"
proof
  assume m: "of_nat (n div 256 mod 256) = (0xFF :: byte) \<and> of_nat (n mod 256) = (0 :: byte)"
  have u: "unat (of_nat k :: byte) = k" if "k < 256" for k using that by (simp add: unat_of_nat)
  from m have "unat (of_nat (n div 256 mod 256) :: byte) = 255" "unat (of_nat (n mod 256) :: byte) = 0" by simp_all
  then have "n div 256 mod 256 = 255" "n mod 256 = 0" by (simp_all only: u mod_less_divisor)
  moreover from assms(1) have "n div 256 \<le> 255" by simp
  ultimately have "n div 256 = 255" "n mod 256 = 0" by simp_all
  then have "n = 0xFF00" using div_mult_mod_eq [of n 256] by simp
  with assms(2) show False by simp
qed

lemma packet_parts:
  "packet b p body ! 0 = 0x15" "packet b p body ! 1 = 0"
  "take 2 (drop 20 (packet b p body)) = be_bytes 2 p"
  by (simp_all add: packet_def)

lemma frame_of_packet:
  assumes "length body \<noteq> 0xFF00" and "length body < 2 ^ 31" and "body \<noteq> [] \<or> rest \<noteq> []"
  shows "frame_of (packet b p body @ rest) =
    Frame 20 (if length body > 0xFF00 then 9 else 5) (int (length body))"
proof -
  let ?bs = "packet b p body @ rest" and ?n = "length body"
  have h: "head_len_of ?bs = 20" by (simp add: head_len_of_def packet_def)
  have len: "length ?bs > 25" using assms(3) by (auto simp: length_packet)
  have d: "data_len_of ?bs 20 = Some (int ?n, if ?n > 0xFF00 then 9 else 5)"
  proof (cases "?n > 0xFF00")
    case True
    then have "take 4 (drop 25 ?bs) = be_bytes 4 ?n" "?bs ! 23 = 0xFF" "?bs ! 24 = 0"
      by (simp_all add: packet_def nth_append)
    moreover have "length ?bs > 29" using True by (auto simp: length_packet)
    moreover have "be_nat (be_bytes 4 ?n) = ?n" using assms(2) by (simp add: be_nat_be_bytes)
    moreover have "c_int (int ?n) = int ?n" using assms(2) by (simp add: int_fits_def)
    ultimately show ?thesis using True by (simp add: data_len_of_def)
  next
    case False
    then have "take 2 (drop 23 ?bs) = be_bytes 2 ?n" "?bs ! 23 = of_nat (?n div 256 mod 256)"
      "?bs ! 24 = of_nat (?n mod 256)"
      by (simp_all add: packet_def nth_append be_bytes_2)
    moreover have "be_nat (be_bytes 2 ?n) = ?n" using False by (simp add: be_nat_be_bytes)
    ultimately show ?thesis using False length_marker [of ?n] assms(1) by (simp add: data_len_of_def)
  qed
  have "?bs ! 1 = 0" "length ?bs \<ge> (if ?n > 0xFF00 then 29 else 25) + ?n"
    by (simp_all add: packet_def)
  with h len d show ?thesis by (auto simp: frame_of_def length_packet)
qed

text \<open>A length of exactly \<open>0xFF00\<close> is written in two bytes that read as the marker of the long form:
  the reader takes the length from the first four bytes of the payload.\<close>

lemma data_len_of_boundary:
  assumes "length body = 0xFF00"
  shows "data_len_of (packet b p body @ rest) 20 = Some (c_int (int (be_nat (take 4 body))), 9)"
proof -
  let ?bs = "packet b p body @ rest"
  have "?bs ! 23 = 0xFF" "?bs ! 24 = 0" "length ?bs > 29" "take 4 (drop 25 ?bs) = take 4 body"
    using assms by (simp_all add: packet_def nth_append be_bytes_2)
  then show ?thesis by (simp add: data_len_of_def)
qed

section \<open>The login exchange\<close>

lemma S2CLogin_write_size [simp]:
  "S2CLogin_SerializeWithCachedSizesToArray rt (m\<lparr>S2CLogin_cached_size := n\<rparr>) =
   S2CLogin_SerializeWithCachedSizesToArray rt m"
  by (simp add: S2CLogin_SerializeWithCachedSizesToArray_def S2CLogin_accessors)

lemma S2CLogin_ByteSize_snd: "\<exists>n. snd (S2CLogin_ByteSize rt m) = m\<lparr>S2CLogin_cached_size := n\<rparr>"
  by (auto simp: S2CLogin_ByteSize_def Let_def)

text \<open>The message of \<open>get_login_rsp\<close>.\<close>

definition login_rsp_msg :: "bool \<Rightarrow> bytes \<Rightarrow> int \<Rightarrow> 'u S2CLogin \<Rightarrow> 'u S2CLogin" where
  "login_rsp_msg is_success msg ping_time m =
     S2CLogin_set_ping_time (word_of_int ping_time) (S2CLogin_set_msg msg
       (S2CLogin_set_code (if is_success then 200 else 401) m))"

lemma login_rsp_msg_fields:
  "S2CLogin_code (login_rsp_msg s msg pt m) = (if s then 200 else 401)"
  "S2CLogin_msg (login_rsp_msg s msg pt m) = msg"
  "S2CLogin_ping_time (login_rsp_msg s msg pt m) = word_of_int pt"
  "S2CLogin_unknown_fields (login_rsp_msg s msg pt m) = S2CLogin_unknown_fields m"
  "S2CLogin_wf m \<Longrightarrow> S2CLogin_wf (login_rsp_msg s msg pt m)"
  unfolding login_rsp_msg_def by (simp_all) (simp_all add: S2CLogin_accessors)

context pb_library
begin

lemma login_rsp_is_packet:
  assumes "length msg < 2 ^ 31"
  shows "\<exists>n. get_login_rsp pb heap a s msg pt =
    Inr (packet 0 11 (S2CLogin_SerializeWithCachedSizesToArray (wire pb) (login_rsp_msg s msg pt (rsp_login a))),
      a\<lparr>rsp_login := (login_rsp_msg s msg pt (rsp_login a))\<lparr>S2CLogin_cached_size := n\<rparr>\<rparr>)"
proof -
  let ?m = "login_rsp_msg s msg pt (rsp_login a)"
  let ?body = "S2CLogin_SerializeWithCachedSizesToArray (wire pb) ?m"
  obtain k m1 where bs: "S2CLogin_ByteSize (wire pb) ?m = (k, m1)" by force
  with S2CLogin_ByteSize_snd [of "wire pb" ?m] obtain n where m1: "m1 = ?m\<lparr>S2CLogin_cached_size := n\<rparr>" by auto
  have short: "S2CLogin_short ?m" using assms by (simp add: S2CLogin_short_def login_rsp_msg_fields)
  from S2CLogin_size [OF this] bs have k: "length ?body = k" by simp
  have short1: "S2CLogin_short m1" using short by (simp add: m1 S2CLogin_short_def)
  obtain k2 m2 where bs2: "S2CLogin_ByteSize (wire pb) m1 = (k2, m2)" by force
  with S2CLogin_ByteSize_snd [of "wire pb" m1] obtain n2 where m2: "m2 = m1\<lparr>S2CLogin_cached_size := n2\<rparr>" by auto
  from S2CLogin_size [OF short1] bs2 k have "k2 = k" by (simp add: m1)
  then have ser: "S2CLogin_SerializeToArray pb m1 k = Some ?body"
    using bs2 by (simp add: S2CLogin_to_array to_array_contract_def m2) (simp add: m1)
  have w: "write_all ((if k > 0xFF00 then [(23, [0xFF]), (24, [0]), (25, be_bytes 4 k), (29, ?body)]
        else [(23, be_bytes 2 k), (25, ?body)]) @
      [(0, [0x10 OR 5]), (1, [0]), (2, [0]), (3, [0]), (20, be_bytes 2 11), (4, replicate 8 0),
       (12, replicate 8 0), (22, [1])])
      (map heap [0..<if k > 0xFF00 then 20 + 9 + k else 20 + 5 + k]) = Inr (packet 0 11 ?body)"
    using login_rsp_short [OF k] login_rsp_long [OF k] by (cases "k > 0xFF00") (simp_all del: write_all_Cons)
  show ?thesis
    using w ser bs m1 unfolding get_login_rsp_def login_rsp_msg_def Let_def
    by (auto simp del: write_all_Cons)
qed

end

end
