(* ===== verification/Analyse_Service.thy ===== *)
theory Analyse_Service
  imports Analyse_Packets
begin

text \<open>
  The exchange of \<open>src/core/analyse_req.cc\<close> with the account service over HTTP, and the properties of
  the request analyser. A request is a fixed header and a serialised \<open>ReqPacket\<close>; the body of an
  answer is what follows the last line break of the text received, a \<open>RspPacket\<close> whose first
  parameter is the answer to the check.
\<close>

section \<open>The body of an answer\<close>

text \<open>No CR LF inside the bytes.\<close>

definition no_crlf :: "bytes \<Rightarrow> bool" where
  "no_crlf bs \<longleftrightarrow> (\<forall>i. Suc i < length bs \<longrightarrow> \<not> (bs ! i = 0x0D \<and> bs ! Suc i = 0x0A))"

lemma find_body_stops:
  assumes "p < length data" and "data ! Suc p = 0x0A" and "data ! p = 0x0D" and "Suc p \<le> n" and "n < length data"
    and "\<And>j. p < j \<Longrightarrow> j < n \<Longrightarrow> \<not> (data ! j = 0x0D \<and> data ! Suc j = 0x0A)"
  shows "find_body data n = Inr (Suc p)"
  using assms(4-6)
proof (induction n)
  case (Suc n)
  show ?case
  proof (cases "n = p")
    case True
    with assms Suc.prems show ?thesis by (simp add: read_at_def)
  next
    case False
    with Suc.prems have "p < n" "find_body data n = Inr (Suc p)" by (simp_all add: Suc.IH)
    moreover from this Suc.prems have "\<not> (data ! n = 0x0D \<and> data ! Suc n = 0x0A)" by simp
    ultimately show ?thesis using Suc.prems by (auto simp: read_at_def)
  qed
qed simp

lemma find_body_text:
  assumes "no_crlf body"
  shows "find_body (hdr @ [0x0D, 0x0A] @ body @ [0]) (length hdr + 1 + length body) = Inr (length hdr + 1)"
proof -
  let ?d = "hdr @ [0x0D, 0x0A] @ body @ [0]"
  have at: "?d ! length hdr = 0x0D" "?d ! Suc (length hdr) = 0x0A" by (simp_all add: nth_append)
  have "\<not> (?d ! j = 0x0D \<and> ?d ! Suc j = 0x0A)"
    if j: "length hdr < j" "j < length hdr + 1 + length body" for j
  proof (cases "j = Suc (length hdr)")
    case True
    with at(2) show ?thesis by simp
  next
    case False
    define i where "i = j - length hdr - 2"
    from j False have i: "j = length hdr + 2 + i" "Suc i < length body" by (simp_all add: i_def)
    then have "?d ! j = body ! i" "?d ! Suc j = body ! Suc i" by (simp_all add: nth_append)
    with assms i(2) show ?thesis by (simp add: no_crlf_def)
  qed
  then show ?thesis using find_body_stops [of "length hdr" ?d "length hdr + 1 + length body"] at by simp
qed

lemma analyse_post_data_text:
  assumes "no_crlf body" and "len = length hdr + 2 + length body"
  shows "analyse_post_data pb a (hdr @ [0x0D, 0x0A] @ body @ [0]) len =
    (let m = snd (RspPacket_ParseFromArray pb body (rsp a)) in Inr (RspPacket_params m \<noteq> [], a\<lparr>rsp := m\<rparr>))"
proof -
  have "read_range (hdr @ [0x0D, 0x0A] @ body @ [0]) (length hdr + 1 + 1) (length body) = Inr body"
    by (simp add: read_range_def)
  with find_body_text [OF assms(1), of hdr] assms(2) show ?thesis
    by (simp add: analyse_post_data_def del: append_Cons)
qed

section \<open>Requests\<close>

text \<open>The envelope of \<open>pack_post_data\<close>.\<close>

definition post_packet :: "'u pb_lib \<Rightarrow> bytes \<Rightarrow> bytes \<Rightarrow> 'u ReqPacket \<Rightarrow> 'u ReqPacket" where
  "post_packet pb action param m =
     ReqPacket_add_params_cstr param (ReqPacket_add_action_cstr action (ReqPacket_set_clientid 111
       (ReqPacket_set_rsakeyver (cstr ''1'') (ReqPacket_set_reqno 0 (ReqPacket_set_udi (cstr ''ei=1&ai=1&bd=pada'')
         (ReqPacket_set_mask 0 (ReqPacket_Clear (wire pb) m)))))))"

lemma ReqPacket_add_cstr:
  "ReqPacket_add_action_cstr v m = ReqPacket_add_action (takeWhile (\<lambda>c. c \<noteq> 0) v) m"
  "ReqPacket_add_params_cstr v m = ReqPacket_add_params (takeWhile (\<lambda>c. c \<noteq> 0) v) m"
  by (simp_all add: ReqPacket_add_action_cstr_def ReqPacket_add_params_cstr_def ReqPacket_accessors)

lemma post_packet_fields:
  assumes "ReqPacket_wf m"
  shows "ReqPacket_action (post_packet pb action param m) = [takeWhile (\<lambda>c. c \<noteq> 0) action]"
    "ReqPacket_params (post_packet pb action param m) = [takeWhile (\<lambda>c. c \<noteq> 0) param]"
    "ReqPacket_unknown_fields (post_packet pb action param m) = UnknownClear (wire pb)"
    "ReqPacket_wf (post_packet pb action param m)"
  unfolding post_packet_def ReqPacket_add_cstr ReqPacket_Clear_new [OF assms]
  by simp_all (simp_all add: ReqPacket_accessors ReqPacket_new_def)

lemma post_packet_short:
  assumes "ReqPacket_wf m" and "length param < 2 ^ 31" and "length action < 2 ^ 31"
  shows "ReqPacket_short (post_packet pb action param m)"
proof -
  have t: "length (takeWhile P xs) < 2147483648" if "length xs < 2 ^ 31" for P and xs :: bytes
    using length_takeWhile_le [of P xs] that by simp
  show ?thesis
    unfolding ReqPacket_short_def post_packet_fields [OF assms(1)]
    by (simp add: post_packet_def ReqPacket_add_cstr ReqPacket_Clear_new [OF assms(1)])
      (simp add: t [OF assms(2)] t [OF assms(3)] ReqPacket_accessors ReqPacket_new_def cstr_def)
qed

lemma ReqPacket_write_size [simp]:
  "ReqPacket_SerializeWithCachedSizesToArray rt (m\<lparr>ReqPacket_cached_size := n\<rparr>) =
   ReqPacket_SerializeWithCachedSizesToArray rt m"
  by (simp add: ReqPacket_SerializeWithCachedSizesToArray_def ReqPacket_accessors)

lemma post_write:
  assumes "length h + length str \<le> length data" and "length h < length data"
  shows "write_all [(0, h @ [0]), (length h, str)] data =
    Inr (h @ str @ (if str = [] then [0] else []) @ drop (length h + max 1 (length str)) data)"
proof (cases str)
  case Nil
  with assms show ?thesis by (simp add: memcpy_at_def)
next
  case (Cons c cs)
  with assms have "length h + length cs \<le> length data - 1" by simp
  with assms Cons show ?thesis by (simp add: memcpy_at_def add.commute)
qed

context pb_library
begin

lemma ReqPacket_string: "ReqPacket_SerializePartialToString pb m = ReqPacket_SerializeWithCachedSizesToArray (wire pb) m"
  by (simp add: ReqPacket_to_string to_string_contract_def ReqPacket_ByteSize_def Let_def)

lemma pack_post_data_ok:
  assumes "str = ReqPacket_SerializeWithCachedSizesToArray (wire pb) (post_packet pb action (serialize_str a) (req a))"
    and "length (post_header url (c_int (int (length str)))) + length str < length data"
  shows "\<exists>data'. pack_post_data pb a action url data =
      Inr (data', length (post_header url (c_int (int (length str)))) + length str,
           a\<lparr>req := post_packet pb action (serialize_str a) (req a), serialize_str := str\<rparr>)
    \<and> take (length (post_header url (c_int (int (length str)))) + length str) data' =
        post_header url (c_int (int (length str))) @ str"
  using assms post_write [of "post_header url (c_int (int (length str)))" str data]
  by (simp add: pack_post_data_def ReqPacket_string post_packet_def Let_def del: write_all_Cons)

lemma post_packet_length:
  assumes "ReqPacket_wf m" and "length param < 2 ^ 31" and "length action < 2 ^ 31"
  shows "length (takeWhile (\<lambda>c. c \<noteq> 0) param) \<le>
    length (ReqPacket_SerializeWithCachedSizesToArray (wire pb) (post_packet pb action param m))"
proof -
  let ?p = "takeWhile (\<lambda>c. c \<noteq> 0) param"
  have "length ?p < 2 ^ 31" using length_takeWhile_le [of "\<lambda>c. c \<noteq> 0" param] assms(2) by linarith
  then have "length (WriteBytesToArray (wire pb) 4 ?p) = 1 + BytesSize (wire pb) ?p" by (intro bytes_size) simp_all
  then have "length ?p \<le> length (concat (map (WriteBytesToArray (wire pb) 4) [?p]))"
    using bytes_size_content [of ?p] by simp
  then show ?thesis
    unfolding ReqPacket_SerializeWithCachedSizesToArray_def post_packet_fields [OF assms(1)] length_append
    by linarith
qed

end

text \<open>The message of \<open>get_login_post_data\<close>.\<close>

definition login_check_msg :: "'u pb_lib \<Rightarrow> u64 \<Rightarrow> bytes \<Rightarrow> 'u ReqCheckTokenByID \<Rightarrow> 'u ReqCheckTokenByID" where
  "login_check_msg pb ident token m =
     ReqCheckTokenByID_set_token token (ReqCheckTokenByID_set_id ident (ReqCheckTokenByID_Clear (wire pb) m))"

lemma login_check_msg_fields:
  assumes "ReqCheckTokenByID_wf m"
  shows "ReqCheckTokenByID_wf (login_check_msg pb i token m)"
    "ReqCheckTokenByID_id (login_check_msg pb i token m) = i"
    "ReqCheckTokenByID_token (login_check_msg pb i token m) = token"
    "ReqCheckTokenByID_unknown_fields (login_check_msg pb i token m) = UnknownClear (wire pb)"
  unfolding login_check_msg_def ReqCheckTokenByID_Clear_new [OF assms]
  by simp_all (simp_all add: ReqCheckTokenByID_accessors ReqCheckTokenByID_new_def)

lemma ReqCheckTokenByID_write_size [simp]:
  "ReqCheckTokenByID_SerializeWithCachedSizesToArray rt (m\<lparr>ReqCheckTokenByID_cached_size := n\<rparr>) =
   ReqCheckTokenByID_SerializeWithCachedSizesToArray rt m"
  by (simp add: ReqCheckTokenByID_SerializeWithCachedSizesToArray_def ReqCheckTokenByID_accessors)

context pb_library
begin

lemma ReqCheckTokenByID_string:
  "ReqCheckTokenByID_SerializePartialToString pb m = ReqCheckTokenByID_SerializeWithCachedSizesToArray (wire pb) m"
  by (simp add: ReqCheckTokenByID_to_string to_string_contract_def ReqCheckTokenByID_ByteSize_def Let_def)

lemma get_login_post_data_eq:
  "get_login_post_data pb a i token url data =
    pack_post_data pb (a\<lparr>check_id_req := login_check_msg pb i token (check_id_req a),
        serialize_str := ReqCheckTokenByID_SerializeWithCachedSizesToArray (wire pb)
          (login_check_msg pb i token (check_id_req a))\<rparr>) (cstr ''ReqCheckTokenByID'') url data"
  by (simp add: get_login_post_data_def login_check_msg_def ReqCheckTokenByID_string Let_def)

lemma pack_post_data_overflow:
  assumes "ReqPacket_wf (req a)" and "length (serialize_str a) < 2 ^ 31" and "length action < 2 ^ 31"
    and "length data < length (takeWhile (\<lambda>c. c \<noteq> 0) (serialize_str a))"
  shows "pack_post_data pb a action url data = Inl BufferOverflow"
proof -
  let ?m = "post_packet pb action (serialize_str a) (req a)"
  let ?str = "ReqPacket_SerializeWithCachedSizesToArray (wire pb) ?m"
  let ?h = "post_header url (c_int (int (length ?str)))"
  from post_packet_length [OF assms(1-3)] assms(4) have "length data < length ?h + length ?str" by linarith
  then have "write_all [(0, ?h @ [0]), (length ?h, ?str)] data = Inl BufferOverflow"
    by (intro write_all_overflow [of "length ?h" ?str]) simp_all
  then show ?thesis
    by (simp add: pack_post_data_def ReqPacket_string post_packet_def Let_def del: write_all_Cons)
qed

end

lemma cstr_no_nul [simp]:
  "takeWhile (\<lambda>c. c \<noteq> 0) (cstr ''ReqCheckTokenByID'') = cstr ''ReqCheckTokenByID''"
  by (simp add: cstr_def)

lemma packet_payload:
  "drop (20 + (if length body > 0xFF00 then 9 else 5)) (packet b p body @ rest) = body @ rest"
  by (simp add: packet_def)

lemma packet_well_framed:
  assumes "length body \<noteq> 0xFF00" and "length body < 2 ^ 31 - 40" and "body \<noteq> []"
  shows "well_framed (packet b p body @ rest)"
proof -
  let ?bs = "packet b p body @ rest"
  have "frame_of ?bs = Frame 20 (if length body > 0xFF00 then 9 else 5) (int (length body))"
    using assms by (intro frame_of_packet) simp_all
  then have "data_len_of ?bs (head_len_of ?bs) = Some (int (length body), if length body > 0xFF00 then 9 else 5)"
    "head_len_of ?bs = 20"
    by (auto simp: frame_of_def split: if_splits option.splits)
  with assms(2) show ?thesis by (auto simp: well_framed_def)
qed

section \<open>Properties\<close>

text \<open>C3: On every buffer layout and every well-framed content, \<open>analyse_data\<close> does what the
  protocol says of the bytes alone: it recognises the frame at their head, consumes exactly that
  frame and nothing of an incomplete one, echoes a heartbeat of four bytes, and stores the login or
  transfer data of the packet.\<close>

theorem analyse_data_implements_protocol:
  assumes "ev_source input" and "ev_sink output" and "length (ev_bytes input) < 2 ^ 31"
    and "well_framed (ev_bytes input)" and "analyse_spec pb a (ev_bytes input) = (r, a', k, echo)"
  shows "\<exists>input' output'. analyse_data pb a input output = Inr (r, a', input', output')
    \<and> ev_source input' \<and> ev_sink output'
    \<and> ev_bytes input' = drop k (ev_bytes input) \<and> ev_bytes output' = ev_bytes output @ echo"
  using assms by (rule analyse_data_refines)

lemma heartbeat_frame:
  "well_framed [0x11, 0x20, 0, 0, 7]"
  "analyse_spec pb (AnalyseReq_new pb h) [0x11, 0x20, 0, 0, 7] = (True, AnalyseReq_new pb True, 4, [0x11, 0x20, 0, 0])"
  by (simp_all add: well_framed_def analyse_spec_def frame_of_def AnalyseReq_new_def)

theorem analyse_data_implements_protocol_witness:
  "\<exists>input' output'. analyse_data std_pb (AnalyseReq_new std_pb False) (one_chain [0x11, 0x20, 0, 0, 7]) (one_chain [1]) =
      Inr (True, AnalyseReq_new std_pb True, input', output')
    \<and> ev_source input' \<and> ev_sink output' \<and> ev_bytes input' = [7] \<and> ev_bytes output' = [1, 0x11, 0x20, 0, 0]"
  using analyse_data_implements_protocol [of "one_chain [0x11, 0x20, 0, 0, 7]" "one_chain [1]" std_pb
      "AnalyseReq_new std_pb False" True "AnalyseReq_new std_pb True" 4 "[0x11, 0x20, 0, 0]"]
    one_chain_ok [of "[0x11, 0x20, 0, 0, 7]"] one_chain_ok [of "[1]"] 
  by (simp add: heartbeat_frame)

text \<open>C35: A transfer packet of fewer than 20 bytes is accepted as complete, and the sender and
  receiver are then read behind the end of the bytes received: the code never checks that the
  packet has room for the two ids.\<close>

theorem short_transfer_reads_outside:
  assumes "ev_source input" and "length (ev_bytes input) < 20"
    and "frame_of (ev_bytes input) = Frame h dh l" and "0 < int h + int dh + l"
    and "ev_bytes input ! 1 AND 0x40 \<noteq> 0"
  shows "analyse_data pb a input output = Inl OutOfBoundsRead"
  using assms by (rule trans_short_fault)

theorem short_transfer_reads_outside_witness:
  "analyse_data std_pb (AnalyseReq_new std_pb False) (one_chain [0x11, 0x40, 0, 0, 0, 12, 1, 0, 1, 9]) (one_chain [1]) =
     Inl OutOfBoundsRead"
  by (rule short_transfer_reads_outside [of _ 4 5 1])
    (use one_chain_ok [of "[0x11, 0x40, 0, 0, 0, 12, 1, 0, 1, 9]"] in
      \<open>simp_all add: frame_of_def head_len_of_def data_len_of_def be_nat_def\<close>)

text \<open>C36: A transfer packet whose length field is negative passes the test that the packet is
  complete; the allocation that follows is then too large to succeed, or too small for the members
  written into it.\<close>

theorem negative_transfer_faults:
  assumes "ev_source input" and "length (ev_bytes input) < 2 ^ 31"
    and "frame_of (ev_bytes input) = Frame h dh l" and "int h + int dh + l < 0"
    and "ev_bytes input ! 1 AND 0x40 \<noteq> 0"
  shows "analyse_data pb a input output =
    Inl (if sizeof_TransData + (int h + int dh + l) < 0 then BadAlloc else BufferOverflow)"
  using assms by (rule trans_negative_fault)

theorem negative_transfer_faults_witness:
  "analyse_data std_pb (AnalyseReq_new std_pb False)
     (one_chain [0x11, 0x40, 0, 0, 0, 12, 1, 0xFF, 0, 0xFF, 0xFF, 0xFF, 0xE0, 1]) (one_chain [1]) = Inl BufferOverflow"
  using negative_transfer_faults [of "one_chain [0x11, 0x40, 0, 0, 0, 12, 1, 0xFF, 0, 0xFF, 0xFF, 0xFF, 0xE0, 1]" 4 9 "- 32"]
    one_chain_ok [of "[0x11, 0x40, 0, 0, 0, 12, 1, 0xFF, 0, 0xFF, 0xFF, 0xFF, 0xE0, 1]"]
  by (simp add: frame_of_def head_len_of_def data_len_of_def be_nat_def c_int_def sizeof_TransData_def)

text \<open>C23: What \<open>pack_data\<close> writes is a frame of the protocol: read back, it is a packet of property
  12 whose payload is the data that was packed; behind the packet the destination is unchanged. The
  length may be anything but \<open>0xFF00\<close>.\<close>

theorem pack_data_read_back:
  assumes "length src + 29 \<le> length des" and "src \<noteq> []" and "length src \<noteq> 0xFF00" and "length src < 2 ^ 31"
  shows "\<exists>des' n dh. pack_data src property_id des = Inr (des', n)
    \<and> length des' = length des \<and> drop n des' = drop n des
    \<and> frame_of (take n des') = Frame 20 dh (int (length src))
    \<and> be_nat (take 2 (drop 20 des')) = 12 \<and> drop (20 + dh) (take n des') = src"
proof -
  let ?p = "packet (des ! 2) 12 src" and ?dh = "if length src > 0xFF00 then 9 else 5"
  have len: "length ?p = length (packet 0 12 src)" "length ?p \<le> length des"
    using assms(1) by (simp_all add: length_packet)
  then have "pack_data src property_id des = Inr (?p @ drop (length ?p) des, length ?p)"
    using pack_data_ok [of src des property_id] by simp
  moreover have "frame_of ?p = Frame 20 ?dh (int (length src))"
    using frame_of_packet [of src "[]" "des ! 2" 12] assms by simp
  moreover have "drop (20 + ?dh) ?p = src" using packet_payload [of src "des ! 2" 12 "[]"] by simp
  moreover have "be_nat (take 2 (drop 20 (?p @ drop (length ?p) des))) = 12"
    by (simp add: packet_def be_nat_be_bytes)
  ultimately show ?thesis using len(2)
    by (intro exI [of _ "?p @ drop (length ?p) des"] exI [of _ "length ?p"] exI [of _ ?dh]) simp
qed

theorem pack_data_read_back_witness:
  "\<exists>des' n dh. pack_data [1, 2] 3 (replicate 40 9) = Inr (des', n)
    \<and> length des' = 40 \<and> drop n des' = drop n (replicate 40 9) \<and> frame_of (take n des') = Frame 20 dh 2
    \<and> be_nat (take 2 (drop 20 des')) = 12 \<and> drop (20 + dh) (take n des') = [1, 2]"
  using pack_data_read_back [of "[1, 2]" "replicate 40 9" 3] by simp

text \<open>C24: \<open>pack_data\<close> trusts its caller with the size of the destination: it succeeds exactly when
  header and payload fit, and overruns the array otherwise.\<close>

theorem pack_data_fits_or_overruns:
  "pack_data src property_id des =
    (if length src + (if length src > 0xFF00 then 29 else 25) \<le> length des
     then Inr (packet (des ! 2) 12 src @ drop (length (packet 0 12 src)) des, length (packet 0 12 src))
     else Inl BufferOverflow)"
proof (cases "length (packet 0 12 src) \<le> length des")
  case True
  from pack_data_ok [OF this, of property_id] True show ?thesis by (simp add: length_packet split: if_splits)
next
  case False
  with pack_data_overflow [of des src property_id] show ?thesis by (simp add: length_packet split: if_splits)
qed

text \<open>C37: The one length that is not read back: a payload of exactly \<open>0xFF00\<close> bytes is packed with the
  two-byte length \<open>FF 00\<close>, which the reader takes for the mark of a four-byte length, so it reads
  the length from the first bytes of the payload.\<close>

theorem pack_data_boundary_misread:
  assumes "length src = 0xFF00" and "length src + 29 \<le> length des"
  shows "\<exists>des' n. pack_data src property_id des = Inr (des', n)
    \<and> data_len_of (take n des') 20 = Some (c_int (int (be_nat (take 4 src))), 9)"
proof -
  let ?p = "packet (des ! 2) 12 src"
  have "pack_data src property_id des = Inr (?p @ drop (length ?p) des, length ?p)"
    using pack_data_ok [of src des property_id] assms by (simp add: length_packet)
  moreover have "data_len_of ?p 20 = Some (c_int (int (be_nat (take 4 src))), 9)"
    using data_len_of_boundary [OF assms(1), of "des ! 2" 12 "[]"] by simp
  ultimately show ?thesis by (intro exI [of _ "?p @ drop (length ?p) des"] exI [of _ "length ?p"]) simp
qed

theorem pack_data_boundary_misread_witness:
  "\<exists>des' n. pack_data (replicate 0xFF00 1) 3 (replicate 70000 9) = Inr (des', n)
    \<and> data_len_of (take n des') 20 = Some (16843009, 9)"
proof -
  have "take 4 (replicate 0xFF00 1) = replicate 4 (1 :: byte)" by (simp add: take_replicate)
  then have "be_nat (take 4 (replicate 0xFF00 1)) = 16843009" by (simp add: be_nat_def nat_4)
  then show ?thesis
    using pack_data_boundary_misread [of "replicate 0xFF00 1" "replicate 70000 9" 3] by (simp add: c_int_def)
qed

text \<open>C25: A login packet built from a complete \<open>C2SLogin\<close> message is recognised, whatever follows
  it in the buffer: the login data hold the id and the token of the message, the packet is
  consumed and nothing is sent.\<close>

theorem login_packet_decoded:
  assumes lib: "pb_library pb" and wf: "C2SLogin_wf m" "C2SLogin_short m"
    "UnknownEmpty (wire pb) (C2SLogin_unknown_fields m)" "C2SLogin_IsInitialized m" "C2SLogin_wf (req_login a)"
    and body: "body = C2SLogin_SerializeWithCachedSizesToArray (wire pb) m" "body \<noteq> []" "length body \<noteq> 0xFF00"
    and buf: "ev_source input" "ev_sink output" "ev_bytes input = packet 0 10 body @ rest"
      "length (ev_bytes input) < 2 ^ 31 - 40"
  shows "\<exists>a' input' output'. analyse_data pb a input output = Inr (True, a', input', output')
    \<and> login_data a' = Some \<lparr>ld_id = C2SLogin_id m, ld_token = C2SLogin_token m, ld_work_thread = None, ld_bev = None\<rparr>
    \<and> ev_source input' \<and> ev_sink output' \<and> ev_bytes input' = rest \<and> ev_bytes output' = ev_bytes output"
proof -
  let ?bs = "packet 0 10 body @ rest" and ?dh = "if length body > 0xFF00 then 9 else 5"
  have len: "length body < 2 ^ 31 - 40" using buf(3,4) by (simp add: length_packet split: if_splits)
  have fr: "frame_of ?bs = Frame 20 ?dh (int (length body))"
    using body len by (intro frame_of_packet) simp_all
  have parts: "?bs ! 1 = 0" "be_nat (take 2 (drop 20 ?bs)) = 10" "20 + ?dh + length body = length (packet 0 10 body)"
    by (simp_all add: packet_def be_nat_be_bytes)
  have pay: "take (length body) (drop (20 + ?dh) ?bs) = body" unfolding packet_payload by simp
  define a' where "a' = snd (analyse_login_pack pb a body)"
  have "analyse_spec pb a ?bs = (True, a', length (packet 0 10 body), [])"
    unfolding analyse_spec_def fr using parts pay by (simp add: a'_def Let_def)
  moreover have "login_data a' = Some \<lparr>ld_id = C2SLogin_id m, ld_token = C2SLogin_token m,
      ld_work_thread = None, ld_bev = None\<rparr>"
    using pb_library.C2SLogin_parse_ok [OF lib wf] by (simp add: a'_def analyse_login_pack_def body(1) Let_def)
  moreover have "well_framed ?bs" using body len by (intro packet_well_framed)
  ultimately show ?thesis using analyse_data_refines [OF buf(1,2), of pb a True a'] buf(3,4) by fastforce
qed

lemma enc_varint_small: "n < 128 \<Longrightarrow> enc_varint n = [of_nat n]"
  by (simp add: enc_varint.simps)

definition sample_login :: "bytes C2SLogin" where
  "sample_login = C2SLogin_set_token [65] (C2SLogin_set_id 5 (C2SLogin_new std_wire))"

lemma sample_login_ok:
  "C2SLogin_wf sample_login" "C2SLogin_short sample_login"
  "UnknownEmpty std_wire (C2SLogin_unknown_fields sample_login)" "C2SLogin_IsInitialized sample_login"
  "C2SLogin_id sample_login = 5" "C2SLogin_token sample_login = [65]"
proof -
  show "C2SLogin_wf sample_login" unfolding sample_login_def by simp
qed (simp_all add: sample_login_def C2SLogin_short_def C2SLogin_accessors C2SLogin_new_def std_wire_def
    C2SLogin_IsInitialized_def)

lemma sample_login_bytes:
  "C2SLogin_SerializeWithCachedSizesToArray std_wire sample_login = [8, 5, 18, 1, 65]"
  by (simp add: sample_login_def C2SLogin_SerializeWithCachedSizesToArray_def C2SLogin_accessors C2SLogin_new_def
      std_wire_def enc_len_def enc_varint_small)

theorem login_packet_decoded_witness:
  "\<exists>a' input' output'. analyse_data std_pb (AnalyseReq_new std_pb False)
      (one_chain (packet 0 10 [8, 5, 18, 1, 65] @ [3])) (one_chain [1]) = Inr (True, a', input', output')
    \<and> login_data a' = Some \<lparr>ld_id = 5, ld_token = [65], ld_work_thread = None, ld_bev = None\<rparr>
    \<and> ev_source input' \<and> ev_sink output' \<and> ev_bytes input' = [3] \<and> ev_bytes output' = [1]"
proof -
  have "ev_source (one_chain (packet 0 10 [8, 5, 18, 1, 65] @ [3]))" "ev_sink (one_chain [1])"
    using one_chain_ok [of "packet 0 10 [8, 5, 18, 1, 65] @ [3]"] one_chain_ok [of "[1]"]
    by (simp_all add: length_packet)
  from login_packet_decoded [OF std_lib.pb_library_axioms sample_login_ok(1-2) _ sample_login_ok(4) _ _ _ _ this,
      of "AnalyseReq_new std_pb False" "[8, 5, 18, 1, 65]" "[3]"] sample_login_ok
  show ?thesis by (simp add: sample_login_bytes AnalyseReq_new_def length_packet)
qed




text \<open>C28: A login is accepted exactly when the account service says so: from an HTTP answer whose
  body is a complete \<open>RspPacket\<close> with the answer to the check as its first parameter, the analyser
  extracts whether the result code of that answer is zero.\<close>

theorem login_answer_decides:
  assumes lib: "pb_library pb"
    and t: "RspCheckTokenByID_wf t" "RspCheckTokenByID_short t"
      "UnknownEmpty (wire pb) (RspCheckTokenByID_unknown_fields t)" "RspCheckTokenByID_IsInitialized t"
      "RspCheckTokenByID_wf (check_id_rsp a)"
    and p: "RspPacket_wf p" "RspPacket_short p" "UnknownEmpty (wire pb) (RspPacket_unknown_fields p)"
      "RspPacket_IsInitialized p" "RspPacket_wf (rsp a)"
    and params: "RspPacket_params p = RspCheckTokenByID_SerializeWithCachedSizesToArray (wire pb) t # ps"
    and body: "body = RspPacket_SerializeWithCachedSizesToArray (wire pb) p" "no_crlf body"
  shows "\<exists>a'. analyse_login_data pb a (hdr @ [0x0D, 0x0A] @ body @ [0]) (length hdr + 2 + length body) =
    Inr (RspCheckTokenByID_rescode t = 0, a')"
  using pb_library.RspCheckTokenByID_parse_ok [OF lib t] pb_library.RspPacket_parse_ok [OF lib p] params
    analyse_post_data_text [OF body(2) refl, of pb a hdr]
  by (simp add: analyse_login_data_def body(1) Let_def del: append_Cons)

definition sample_check :: "bytes RspCheckTokenByID" where
  "sample_check = RspCheckTokenByID_set_resmsg [] (RspCheckTokenByID_set_rescode 0 (RspCheckTokenByID_new std_wire))"

lemma sample_check_ok:
  "RspCheckTokenByID_wf sample_check" "RspCheckTokenByID_short sample_check"
  "UnknownEmpty std_wire (RspCheckTokenByID_unknown_fields sample_check)" "RspCheckTokenByID_IsInitialized sample_check"
  "RspCheckTokenByID_rescode sample_check = 0"
  "RspCheckTokenByID_SerializeWithCachedSizesToArray std_wire sample_check = [8, 0, 18, 0]"
proof -
  show "RspCheckTokenByID_wf sample_check" unfolding sample_check_def by simp
qed (simp_all add: sample_check_def RspCheckTokenByID_short_def RspCheckTokenByID_accessors RspCheckTokenByID_new_def
    std_wire_def RspCheckTokenByID_IsInitialized_def RspCheckTokenByID_SerializeWithCachedSizesToArray_def
    enc_len_def enc_varint.simps)

definition sample_answer :: "bytes RspPacket" where
  "sample_answer = RspPacket_add_params [8, 0, 18, 0] (RspPacket_set_resmsg [] (RspPacket_set_rescode 0
     (RspPacket_set_mask 0 (RspPacket_new std_wire))))"

lemma sample_answer_ok:
  "RspPacket_wf sample_answer" "RspPacket_short sample_answer"
  "UnknownEmpty std_wire (RspPacket_unknown_fields sample_answer)" "RspPacket_IsInitialized sample_answer"
  "RspPacket_params sample_answer = [[8, 0, 18, 0]]"
proof -
  show "RspPacket_wf sample_answer" unfolding sample_answer_def by simp
qed (simp_all add: sample_answer_def RspPacket_short_def RspPacket_accessors RspPacket_new_def
    std_wire_def RspPacket_IsInitialized_def)

lemma sample_answer_bytes:
  "no_crlf (RspPacket_SerializeWithCachedSizesToArray std_wire sample_answer)"
  by (simp add: sample_answer_def RspPacket_SerializeWithCachedSizesToArray_def
    RspPacket_accessors RspPacket_new_def std_wire_def enc_len_def enc_varint.simps no_crlf_def nth_Cons split: nat.splits)

theorem login_answer_decides_witness:
  "\<exists>a'. analyse_login_data std_pb (AnalyseReq_new std_pb False)
      ([72, 10] @ [0x0D, 0x0A] @ RspPacket_SerializeWithCachedSizesToArray std_wire sample_answer @ [0])
      (length [72, 10 :: byte] + 2 + length (RspPacket_SerializeWithCachedSizesToArray std_wire sample_answer)) = Inr (True, a')"
proof -
  have "RspCheckTokenByID_wf (check_id_rsp (AnalyseReq_new std_pb False))"
    "RspPacket_wf (rsp (AnalyseReq_new std_pb False))" by (simp_all add: AnalyseReq_new_def)
  with login_answer_decides [OF std_lib.pb_library_axioms sample_check_ok(1-2) _ sample_check_ok(4) _
      sample_answer_ok(1-2) _ sample_answer_ok(4), of "AnalyseReq_new std_pb False" "[]"
      "RspPacket_SerializeWithCachedSizesToArray std_wire sample_answer" "[72, 10]"]
    sample_check_ok sample_answer_ok sample_answer_bytes
  show ?thesis by simp
qed

text \<open>C38: The body of an answer is looked for from the end of the text, so a body that itself
  contains CR LF is cut: only the part behind its last CR LF is parsed.\<close>

theorem answer_with_crlf_is_cut:
  assumes "no_crlf post"
  shows "analyse_post_data pb a (hdr @ [0x0D, 0x0A] @ (pre @ [0x0D, 0x0A] @ post) @ [0])
      (length hdr + 2 + length (pre @ [0x0D, 0x0A] @ post)) =
    (let m = snd (RspPacket_ParseFromArray pb post (rsp a)) in Inr (RspPacket_params m \<noteq> [], a\<lparr>rsp := m\<rparr>))"
  using analyse_post_data_text [OF assms refl, of pb a "hdr @ [0x0D, 0x0A] @ pre"] by (simp add: add.assoc)

theorem answer_with_crlf_is_cut_witness:
  "analyse_post_data std_pb (AnalyseReq_new std_pb False) ([72] @ [0x0D, 0x0A] @ ([8, 1] @ [0x0D, 0x0A] @ [7]) @ [0])
      (length [72 :: byte] + 2 + length ([8, 1] @ [0x0D, 0x0A] @ [7 :: byte])) =
    (let m = snd (RspPacket_ParseFromArray std_pb [7] (rsp (AnalyseReq_new std_pb False)))
     in Inr (RspPacket_params m \<noteq> [], (AnalyseReq_new std_pb False)\<lparr>rsp := m\<rparr>))"
  by (rule answer_with_crlf_is_cut) (simp add: no_crlf_def)

text \<open>C27: A login check reaches the account service intact: when it fits the caller's buffer, the bytes
  sent are the HTTP header with the length of the body and a body that parses to the action
  \<open>ReqCheckTokenByID\<close> with one parameter, from which the id and the token are recovered. (The
  parameter is passed as a C string, so it must not contain a zero byte.)\<close>

theorem login_check_round_trip:
  assumes lib: "pb_library pb" and wf: "ReqPacket_wf (req a)" "ReqCheckTokenByID_wf (check_id_req a)"
    and token: "length token < 2 ^ 31"
    and param: "param = ReqCheckTokenByID_SerializeWithCachedSizesToArray (wire pb) (login_check_msg pb i token (check_id_req a))"
      "length param < 2 ^ 31" "0 \<notin> set param"
    and body: "body = ReqPacket_SerializeWithCachedSizesToArray (wire pb)
        (post_packet pb (cstr ''ReqCheckTokenByID'') param (req a))"
      "length (post_header url (c_int (int (length body)))) + length body < length data"
  shows "\<exists>data' n a' m t. get_login_post_data pb a i token url data = Inr (data', n, a')
    \<and> take n data' = post_header url (c_int (int (length body))) @ body
    \<and> ReqPacket_MergePartialFromCodedStream (wire pb) (body, ReqPacket_new (wire pb)) = Some (True, [], m)
    \<and> ReqPacket_action m = [cstr ''ReqCheckTokenByID''] \<and> ReqPacket_params m = [param]
    \<and> ReqCheckTokenByID_MergePartialFromCodedStream (wire pb) (param, ReqCheckTokenByID_new (wire pb)) = Some (True, [], t)
    \<and> ReqCheckTokenByID_id t = i \<and> ReqCheckTokenByID_token t = token"
proof -
  let ?t = "login_check_msg pb i token (check_id_req a)"
  let ?m = "post_packet pb (cstr ''ReqCheckTokenByID'') param (req a)"
  from lib have wire: "wire_format (wire pb)" by (simp add: pb_library_def)
  have "ReqCheckTokenByID_short ?t" using token by (simp add: ReqCheckTokenByID_short_def login_check_msg_fields wf)
  with wire_format.ReqCheckTokenByID_parse_print [OF wire, of ?t 0]
  have t: "ReqCheckTokenByID_MergePartialFromCodedStream (wire pb) (param, ReqCheckTokenByID_new (wire pb)) =
      Some (True, [], ?t\<lparr>ReqCheckTokenByID_unknown_fields := UnknownClear (wire pb), ReqCheckTokenByID_cached_size := 0\<rparr>)"
    by (simp add: param(1) login_check_msg_fields wf wire_format.unknown_clear_empty [OF wire] ReqCheckTokenByID_new_def)
  have "ReqPacket_short ?m" using wf(1) param(2) by (intro post_packet_short) (simp_all add: cstr_def)
  with wire_format.ReqPacket_parse_print [OF wire, of ?m 0]
  have m: "ReqPacket_MergePartialFromCodedStream (wire pb) (body, ReqPacket_new (wire pb)) =
      Some (True, [], ?m\<lparr>ReqPacket_unknown_fields := UnknownClear (wire pb), ReqPacket_cached_size := 0\<rparr>)"
    by (simp add: body(1) post_packet_fields wf wire_format.unknown_clear_empty [OF wire] ReqPacket_new_def)
  have p: "takeWhile (\<lambda>c. c \<noteq> 0) param = param" using param(3) by (induction param) auto
  obtain data' n a' where d: "get_login_post_data pb a i token url data = Inr (data', n, a')"
    "take n data' = post_header url (c_int (int (length body))) @ body"
    using pb_library.pack_post_data_ok [OF lib, of body "cstr ''ReqCheckTokenByID''"
        "a\<lparr>check_id_req := ?t, serialize_str := param\<rparr>" url data] body
    unfolding pb_library.get_login_post_data_eq [OF lib] param(1) [symmetric] by auto
  show ?thesis
    by (rule exI [of _ data'], rule exI [of _ n], rule exI [of _ a'],
        rule exI [of _ "?m\<lparr>ReqPacket_unknown_fields := UnknownClear (wire pb), ReqPacket_cached_size := 0\<rparr>"],
        rule exI [of _ "?t\<lparr>ReqCheckTokenByID_unknown_fields := UnknownClear (wire pb), ReqCheckTokenByID_cached_size := 0\<rparr>"])
      (use d t m p in \<open>simp add: post_packet_fields [OF wf(1)] login_check_msg_fields [OF wf(2)]\<close>)
qed

lemma sample_check_request:
  "ReqCheckTokenByID_SerializeWithCachedSizesToArray std_wire
     (login_check_msg std_pb 5 token (ReqCheckTokenByID_new std_wire)) = [8, 5, 18] @ enc_varint (length token) @ token"
  "length (ReqPacket_SerializeWithCachedSizesToArray std_wire
     (post_packet std_pb (cstr ''ReqCheckTokenByID'') [8, 5, 18, 1, 65] (ReqPacket_new std_wire))) = 54"
  by (simp_all add: login_check_msg_def ReqCheckTokenByID_Clear_new ReqCheckTokenByID_SerializeWithCachedSizesToArray_def
      ReqCheckTokenByID_accessors ReqCheckTokenByID_new_def std_wire_def enc_len_def enc_varint_small cstr_def
      post_packet_def ReqPacket_Clear_new ReqPacket_add_cstr ReqPacket_SerializeWithCachedSizesToArray_def
      ReqPacket_accessors ReqPacket_new_def ReqCheckTokenByID_Clear_def ReqPacket_Clear_def)

theorem login_check_round_trip_witness:
  "\<exists>data' n a' m t. get_login_post_data std_pb (AnalyseReq_new std_pb False) 5 [65] [] (replicate 1024 0) = Inr (data', n, a')
    \<and> take n data' = post_header [] 54 @ ReqPacket_SerializeWithCachedSizesToArray std_wire
        (post_packet std_pb (cstr ''ReqCheckTokenByID'') [8, 5, 18, 1, 65] (ReqPacket_new std_wire))
    \<and> ReqPacket_MergePartialFromCodedStream std_wire (ReqPacket_SerializeWithCachedSizesToArray std_wire
        (post_packet std_pb (cstr ''ReqCheckTokenByID'') [8, 5, 18, 1, 65] (ReqPacket_new std_wire)), ReqPacket_new std_wire) =
          Some (True, [], m)
    \<and> ReqPacket_action m = [cstr ''ReqCheckTokenByID''] \<and> ReqPacket_params m = [[8, 5, 18, 1, 65]]
    \<and> ReqCheckTokenByID_MergePartialFromCodedStream std_wire ([8, 5, 18, 1, 65], ReqCheckTokenByID_new std_wire) = Some (True, [], t)
    \<and> ReqCheckTokenByID_id t = 5 \<and> ReqCheckTokenByID_token t = [65]"
proof -
  have new: "req (AnalyseReq_new std_pb False) = ReqPacket_new std_wire"
    "check_id_req (AnalyseReq_new std_pb False) = ReqCheckTokenByID_new std_wire" by (simp_all add: AnalyseReq_new_def)
  have "length (post_header [] 54) < 100" by (simp add: post_header_def cstr_def dec_int_def dec_nat.simps)
  with login_check_round_trip [OF std_lib.pb_library_axioms, of "AnalyseReq_new std_pb False" "[65]" "[8, 5, 18, 1, 65]" 5
      "ReqPacket_SerializeWithCachedSizesToArray std_wire
        (post_packet std_pb (cstr ''ReqCheckTokenByID'') [8, 5, 18, 1, 65] (ReqPacket_new std_wire))" "[]" "replicate 1024 0"]
  show ?thesis by (simp add: new sample_check_request enc_varint_small c_int_def)
qed

text \<open>C39: The buffer for a check is the caller's and its size is not passed: a check whose parameter
  alone, up to its first zero byte, is longer than the buffer overruns it.\<close>

theorem login_check_overruns:
  assumes "pb_library pb" and "ReqPacket_wf (req a)"
    and "param = ReqCheckTokenByID_SerializeWithCachedSizesToArray (wire pb) (login_check_msg pb i token (check_id_req a))"
    and "length param < 2 ^ 31" and "length data < length (takeWhile (\<lambda>c. c \<noteq> 0) param)"
  shows "get_login_post_data pb a i token url data = Inl BufferOverflow"
  unfolding pb_library.get_login_post_data_eq [OF assms(1)] assms(3) [symmetric]
  by (rule pb_library.pack_post_data_overflow [OF assms(1)]) (use assms in \<open>simp_all add: cstr_def\<close>)

theorem login_check_overruns_witness:
  "get_login_post_data std_pb (AnalyseReq_new std_pb False) 5 (replicate 2000 65) [] (replicate 1024 0) = Inl BufferOverflow"
proof -
  have "enc_varint 2000 = [208, 15]" by (simp add: enc_varint.simps)
  then show ?thesis
    by (intro login_check_overruns [OF std_lib.pb_library_axioms _ refl])
      (simp_all add: AnalyseReq_new_def sample_check_request)
qed

end
