(* ===== verification/Comet_Subscriber.thy ===== *)
theory Comet_Subscriber
  imports Comet_Prelude
begin

text \<open>
  A logged-in client, \<open>src/core/subscriber.cc\<close> and \<open>subscriber.h\<close>: its id, its connection and the
  time of its last heartbeat. Addresses are natural numbers, \<open>0\<close> is the null pointer. The clock is
  the argument \<open>now\<close>, \<open>None\<close> when \<open>gettimeofday\<close> fails.
\<close>

type_synonym ptr = nat

record Subscriber =
  last_heartbeat_time :: int
  sub_id :: u64
  sub_bev :: ptr

definition Subscriber_new :: Subscriber where
  "Subscriber_new = \<lparr>last_heartbeat_time = 0, sub_id = 0, sub_bev = 0\<rparr>"

definition update_heartbeat :: "int option \<Rightarrow> Subscriber \<Rightarrow> Subscriber" where
  "update_heartbeat now s = (case now of None \<Rightarrow> s | Some tv_sec \<Rightarrow> s\<lparr>last_heartbeat_time := tv_sec\<rparr>)"

definition set_id_bev :: "int option \<Rightarrow> u64 \<Rightarrow> ptr \<Rightarrow> Subscriber \<Rightarrow> Subscriber" where
  "set_id_bev now i bev s = update_heartbeat now (s\<lparr>sub_id := i, sub_bev := bev\<rparr>)"

definition is_valid :: "Subscriber \<Rightarrow> bool" where
  "is_valid s \<longleftrightarrow> sub_id s \<noteq> 0"

definition get_bev :: "Subscriber \<Rightarrow> ptr" where
  "get_bev s = sub_bev s"

definition get_heartbeat_time :: "Subscriber \<Rightarrow> int" where
  "get_heartbeat_time s = last_heartbeat_time s"

lemma update_heartbeat_keeps [simp]:
  "sub_id (update_heartbeat now s) = sub_id s" "sub_bev (update_heartbeat now s) = sub_bev s"
  by (simp_all add: update_heartbeat_def split: option.split)

lemma set_id_bev_fields [simp]:
  "sub_id (set_id_bev now i bev s) = i" "sub_bev (set_id_bev now i bev s) = bev"
  by (simp_all add: set_id_bev_def)

lemma set_id_bev_time: "get_heartbeat_time (set_id_bev (Some t) i bev s) = t"
  by (simp add: set_id_bev_def update_heartbeat_def get_heartbeat_time_def)

end
