(* ===== verification/Evbuffer_Io.thy ===== *)
theory Evbuffer_Io
  imports Evbuffer
begin

text \<open>
  Socket input and output of an event buffer: \<open>_evbuffer_expand_fast\<close>, \<open>_evbuffer_read_setup_vecs\<close>,
  \<open>evbuffer_read\<close>, \<open>evbuffer_write_iovec\<close> and \<open>evbuffer_write_atmost\<close> of \<open>buffer.c\<close>, in the build with
  vectored input and output. What \<open>ioctl(FIONREAD)\<close>, \<open>readv\<close> and \<open>writev\<close> return are parameters.

  A read that delivers what \<open>FIONREAD\<close> announced appends the bytes and keeps the form in which every
  chain holds data; a write sends a prefix of the contents and drops exactly what was sent.
\<close>

section \<open>Space for a read\<close>

definition evbuffer_unfreeze :: "bool \<Rightarrow> evbuffer \<Rightarrow> evbuffer" where
  "evbuffer_unfreeze start b =
     (if start then b\<lparr>freeze_start := False\<rparr> else b\<lparr>freeze_end := False\<rparr>)"

definition CHAIN_SPACE_LEN :: "chain \<Rightarrow> nat" where
  "CHAIN_SPACE_LEN c = buffer_len c - (misalign c + off c)"

definition NUM_READ_IOVEC :: nat where
  "NUM_READ_IOVEC = 4"

definition NUM_WRITE_IOVEC :: nat where
  "NUM_WRITE_IOVEC = 128"

definition EVBUFFER_MAX_READ :: int where
  "EVBUFFER_MAX_READ = 4096"

text \<open>The loop of \<open>_evbuffer_expand_fast\<close> from \<open>last_with_datap\<close> on: whether the space is enough, the
  number of chains used, the space, and the chains, of which the empty ones are realigned.\<close>

fun scan_space :: "nat \<Rightarrow> nat \<Rightarrow> bool \<Rightarrow> nat \<Rightarrow> nat \<Rightarrow> chain list \<Rightarrow> (bool \<times> nat \<times> nat \<times> chain list) res" where
  "scan_space n datlen is_last used avail [] = Inr (False, used, avail, [])"
| "scan_space n datlen is_last used avail (c # cs) =
     (if has_data c \<and> \<not> is_last then Inl AssertFailed
      else let space = (if has_data c then CHAIN_SPACE_LEN c else buffer_len c);
               c = (if has_data c then c else c\<lparr>misalign := 0\<rparr>);
               used = (if has_data c \<and> space = 0 then used else Suc used);
               avail = avail + space
           in if datlen \<le> avail then Inr (True, used, avail, c # cs)
              else if used = n then Inr (False, used, avail, c # cs)
              else bind_res (scan_space n datlen False used avail cs) (\<lambda>(enough, used, avail, cs).
                     Inr (enough, used, avail, c # cs)))"

text \<open>All empty chains behind the data are replaced by one that is large enough.\<close>

definition replace_empty :: "nat \<Rightarrow> evbuffer \<Rightarrow> (bool \<times> evbuffer) res" where
  "replace_empty datlen b =
     (let l = last_with_datap b; c = chains b ! l; rmv_all = (off c = 0);
          avail = (if rmv_all then 0 else CHAIN_SPACE_LEN c);
          keep = take (if rmv_all then l else Suc l) (chains b)
      in if rmv_all \<and> l \<noteq> 0 then Inl AssertFailed
         else if \<not> evbuffer_chains_all_empty (drop (length keep) (chains b)) then Inl AssertFailed
         else case evbuffer_chain_new (mm_malloc b) (datlen - avail) of
                None \<Rightarrow> Inr (False, if rmv_all then ZERO_CHAIN b else b\<lparr>chains := keep\<rparr>)
              | Some tmp \<Rightarrow> Inr (True, b\<lparr>chains := keep @ [tmp], last_with_datap := (if rmv_all then 0 else l)\<rparr>))"

definition evbuffer_expand_fast :: "nat \<Rightarrow> nat \<Rightarrow> evbuffer \<Rightarrow> (bool \<times> evbuffer) res" where
  "evbuffer_expand_fast datlen n b =
     (if n < 2 then Inl AssertFailed
      else if chains b = [] then
        (case evbuffer_chain_new (mm_malloc b) datlen of
           None \<Rightarrow> Inr (False, b)
         | Some c \<Rightarrow> bind_res (evbuffer_chain_insert c b) (\<lambda>b. Inr (True, b)))
      else
        bind_res (scan_space n datlen True 0 0 (drop (last_with_datap b) (chains b))) (\<lambda>(enough, used, avail, cs).
        let b = b\<lparr>chains := take (last_with_datap b) (chains b) @ cs\<rparr>
        in if enough then Inr (True, b)
           else if used < n then
             (case evbuffer_chain_new (mm_malloc b) (datlen - avail) of
                None \<Rightarrow> Inr (False, b)
              | Some tmp \<Rightarrow> Inr (True, b\<lparr>chains := chains b @ [tmp]\<rparr>))
           else replace_empty datlen b))"

section \<open>Read\<close>

text \<open>The sizes of the vectors, from the first chain with space on; \<open>left\<close> is \<open>howmuch - so_far\<close>.\<close>

primrec setup_vecs :: "bool \<Rightarrow> nat \<Rightarrow> nat \<Rightarrow> chain list \<Rightarrow> nat list res" where
  "setup_vecs exact 0 left cs = Inr []"
| "setup_vecs exact (Suc n) left cs =
     (if left = 0 then Inr []
      else case cs of
        [] \<Rightarrow> Inl NullDeref
      | c # cs \<Rightarrow>
          let avail = (if CHAIN_SPACE_LEN c > left \<and> exact then left else CHAIN_SPACE_LEN c)
          in bind_res (setup_vecs exact n (left - avail) cs) (\<lambda>vs. Inr (avail # vs)))"

text \<open>The index of the first chain and the vectors.\<close>

definition evbuffer_read_setup_vecs :: "nat \<Rightarrow> nat \<Rightarrow> bool \<Rightarrow> evbuffer \<Rightarrow> (nat \<times> nat list) res" where
  "evbuffer_read_setup_vecs howmuch n_vecs_avail exact b =
     bind_res (read_at (chains b) (last_with_datap b)) (\<lambda>c.
     let first = (if CHAIN_SPACE_LEN c = 0 then Suc (last_with_datap b) else last_with_datap b)
     in bind_res (setup_vecs exact n_vecs_avail howmuch (drop first (chains b))) (\<lambda>vs. Inr (first, vs)))"

text \<open>The bytes that arrived are accounted to the chains; the chain that takes the last of them becomes
  \<open>last_with_datap\<close>. \<open>i\<close> is the index of the first chain of the list.\<close>

primrec commit_read :: "nat \<Rightarrow> nat \<Rightarrow> bytes \<Rightarrow> chain list \<Rightarrow> (nat option \<times> chain list) res" where
  "commit_read 0 i d cs = Inr (None, cs)"
| "commit_read (Suc n) i d cs =
     (case cs of
        [] \<Rightarrow> Inl NullDeref
      | c # cs \<Rightarrow>
          if CHAIN_SPACE_LEN c < length d then
            bind_res (commit_read n (Suc i) (drop (CHAIN_SPACE_LEN c) d) cs) (\<lambda>(l, cs).
              Inr (l, c\<lparr>ch_data := ch_data c @ take (CHAIN_SPACE_LEN c) d\<rparr> # cs))
          else Inr (Some i, c\<lparr>ch_data := ch_data c @ d\<rparr> # cs))"

text \<open>\<open>readable\<close> is the result of \<open>get_n_bytes_readable_on_socket\<close>. \<open>readv\<close> gives the bytes that the
  kernel has for vectors of some total size, or \<open>None\<close> for the result -1; the kernel never returns
  more than fits.\<close>

definition read_size :: "int \<Rightarrow> int \<Rightarrow> nat" where
  "read_size readable howmuch =
     (let n = (if readable \<le> 0 \<or> readable > EVBUFFER_MAX_READ then EVBUFFER_MAX_READ else readable)
      in nat (if howmuch < 0 \<or> howmuch > n then n else howmuch))"

definition evbuffer_read :: "int \<Rightarrow> (nat \<Rightarrow> bytes option) \<Rightarrow> int \<Rightarrow> evbuffer \<Rightarrow> (int \<times> evbuffer) res" where
  "evbuffer_read readable readv howmuch b =
     (if freeze_end b then Inr (-1, b)
      else let size = read_size readable howmuch
      in bind_res (evbuffer_expand_fast size NUM_READ_IOVEC b) (\<lambda>(ok, b).
         if \<not> ok then Inr (-1, b)
         else bind_res (evbuffer_read_setup_vecs size NUM_READ_IOVEC True b) (\<lambda>(first, vecs).
         case readv (sum_list vecs) of
           None \<Rightarrow> Inr (-1, b)
         | Some d \<Rightarrow>
             let d = take (sum_list vecs) d
             in if d = [] then Inr (0, b)
                else bind_res (commit_read (length vecs) first d (drop first (chains b))) (\<lambda>(l, cs).
                     Inr (int (length d),
                          b\<lparr>chains := take first (chains b) @ cs,
                            last_with_datap := (case l of None \<Rightarrow> last_with_datap b | Some i \<Rightarrow> i),
                            total_len := total_len b + length d\<rparr>)))))"

section \<open>Write\<close>

text \<open>The vectors of \<open>evbuffer_write_iovec\<close>.\<close>

primrec gather :: "nat \<Rightarrow> nat \<Rightarrow> chain list \<Rightarrow> bytes list" where
  "gather i howmuch [] = []"
| "gather i howmuch (c # cs) =
     (if i < NUM_WRITE_IOVEC \<and> howmuch \<noteq> 0
      then if off c \<le> howmuch then ch_data c # gather (Suc i) (howmuch - off c) cs
           else [take howmuch (ch_data c)]
      else [])"

text \<open>\<open>writev\<close> says how many bytes of some vectors the kernel takes, or -1.\<close>

definition evbuffer_write_iovec :: "(bytes list \<Rightarrow> int) \<Rightarrow> int \<Rightarrow> evbuffer \<Rightarrow> int \<times> bytes" where
  "evbuffer_write_iovec writev howmuch b =
     (if howmuch < 0 then (-1, [])
      else let iov = gather 0 (nat howmuch) (chains b)
           in if iov = [] then (0, [])
              else (writev iov, take (nat (writev iov)) (concat iov)))"

text \<open>The result, the bytes sent, and the buffer.\<close>

definition evbuffer_write_atmost :: "(bytes list \<Rightarrow> int) \<Rightarrow> int \<Rightarrow> evbuffer \<Rightarrow> (int \<times> bytes \<times> evbuffer) res" where
  "evbuffer_write_atmost writev howmuch b =
     (if freeze_start b then Inr (-1, [], b)
      else let howmuch = (if howmuch < 0 \<or> howmuch > int (total_len b) then int (total_len b) else howmuch);
               r = (if howmuch > 0 then evbuffer_write_iovec writev howmuch b else (-1, []))
           in if fst r > 0
              then bind_res (evbuffer_drain (nat (fst r)) b) (\<lambda>(_, b). Inr (fst r, snd r, b))
              else Inr (fst r, [], b))"

section \<open>A read appends\<close>

lemma evbuffer_wf_last:
  assumes "evbuffer_wf b" and "chains b \<noteq> []"
  obtains xs c where "chains b = xs @ [c]" "last_with_datap b = length xs" "\<And>x. x \<in> set xs \<Longrightarrow> has_data x" "chain_wf c"
proof -
  obtain xs c where xs: "chains b = xs @ [c]" using assms(2) by (metis append_butlast_last_id)
  moreover have "last_with_datap b = length xs" using assms(1) xs by (simp add: evbuffer_wf_def)
  moreover have "has_data x" if "x \<in> set xs" for x using assms(1) xs that by (auto simp: evbuffer_wf_def)
  moreover have "chain_wf c" using assms(1) xs by (simp add: evbuffer_wf_def)
  ultimately show ?thesis using that by blast
qed

text \<open>Where the next \<open>n\<close> bytes go in a buffer of that form: into the last chain, or into the last chain
  and a new one.\<close>

definition read_space :: "nat \<Rightarrow> evbuffer \<Rightarrow> evbuffer \<Rightarrow> bool" where
  "read_space n b b' \<longleftrightarrow> (\<exists>xs c es. chains b' = xs @ c # es \<and> last_with_datap b' = length xs \<and>
     (\<forall>x \<in> set xs. has_data x \<and> chain_wf x) \<and> chain_wf c \<and> (has_data c \<or> xs = [] \<and> misalign c = 0) \<and>
     concat (map ch_data xs) @ ch_data c = ev_bytes b \<and> total_len b' = total_len b \<and> ev_frame b' = ev_frame b \<and>
     (es = [] \<and> n \<le> CHAIN_SPACE_LEN c \<or>
      (\<exists>t. es = [t] \<and> ch_data t = [] \<and> misalign t = 0 \<and> CHAIN_SPACE_LEN c < n \<and> n \<le> CHAIN_SPACE_LEN c + buffer_len t)))"

lemma evbuffer_expand_fast_ok:
  assumes wf: "evbuffer_wf b" and mm: "\<forall>k. mm_malloc b k" and n: "0 < n"
  shows "\<exists>b'. evbuffer_expand_fast n NUM_READ_IOVEC b = Inr (True, b') \<and> read_space n b b'"
proof (cases "chains b = []")
  case True
  from evbuffer_chain_new_ok [OF mm] obtain c where c: "evbuffer_chain_new (mm_malloc b) n = Some c" by blast
  with True wf evbuffer_chain_new_Some [OF c] show ?thesis
    by (auto simp: evbuffer_expand_fast_def NUM_READ_IOVEC_def evbuffer_chain_insert_def read_space_def evbuffer_wf_def ev_bytes_def
        ev_frame_def CHAIN_SPACE_LEN_def chain_wf_def)
next
  case False
  from evbuffer_wf_last [OF wf False] obtain xs c where b: "chains b = xs @ [c]" "last_with_datap b = length xs"
    "\<And>x. x \<in> set xs \<Longrightarrow> has_data x" "chain_wf c" by blast
  let ?c = "if has_data c then c else c\<lparr>misalign := 0\<rparr>"
  let ?space = "CHAIN_SPACE_LEN ?c"
  have data: "has_data c \<or> xs = []" using wf b(1) by (auto simp: evbuffer_wf_def)
  have wfx: "chain_wf x" if "x \<in> set xs" for x using wf b(1) that by (auto simp: evbuffer_wf_def)
  have wfc: "chain_wf ?c" using b(4) by (auto simp: chain_wf_def)
  have scan: "\<exists>used. used < 2 \<and> scan_space NUM_READ_IOVEC n True 0 0 [c] = Inr (n \<le> ?space, used, ?space, [?c])"
    by (auto simp: NUM_READ_IOVEC_def CHAIN_SPACE_LEN_def Let_def)
  show ?thesis
  proof (cases "n \<le> ?space")
    case True
    let ?b = "b\<lparr>chains := xs @ [?c]\<rparr>"
    from scan True b have "evbuffer_expand_fast n NUM_READ_IOVEC b = Inr (True, ?b)"
      by (auto simp: evbuffer_expand_fast_def NUM_READ_IOVEC_def)
    moreover have "read_space n b ?b"
      unfolding read_space_def using b data wfx wfc True
      by (intro exI [of _ xs] exI [of _ ?c] exI [of _ "[]"]) (auto simp: ev_bytes_def ev_frame_def)
    ultimately show ?thesis by blast
  next
    case no: False
    from evbuffer_chain_new_ok [OF mm] obtain t where t: "evbuffer_chain_new (mm_malloc b) (n - ?space) = Some t" by blast
    let ?b = "b\<lparr>chains := xs @ [?c, t]\<rparr>"
    from scan no b t have "evbuffer_expand_fast n NUM_READ_IOVEC b = Inr (True, ?b)"
      by (auto simp: evbuffer_expand_fast_def NUM_READ_IOVEC_def)
    moreover have "read_space n b ?b"
      unfolding read_space_def using b data wfx wfc no evbuffer_chain_new_Some [OF t]
      by (intro exI [of _ xs] exI [of _ ?c] exI [of _ "[t]"]) (auto simp: ev_bytes_def ev_frame_def)
    ultimately show ?thesis by blast
  qed
qed

text \<open>A read of as many bytes as there is space for.\<close>

lemma read_space_commit:
  assumes sp: "read_space n b b'" and d: "length d = n" "d \<noteq> []" and tl: "total_len b = length (ev_bytes b)"
  shows "\<exists>first vecs l cs. evbuffer_read_setup_vecs n NUM_READ_IOVEC True b' = Inr (first, vecs) \<and> sum_list vecs = n \<and>
    commit_read (length vecs) first d (drop first (chains b')) = Inr (Some l, cs) \<and>
    evbuffer_wf (b'\<lparr>chains := take first (chains b') @ cs, last_with_datap := l, total_len := total_len b' + n\<rparr>) \<and>
    concat (map ch_data (take first (chains b') @ cs)) = ev_bytes b @ d \<and> ev_frame b' = ev_frame b"
proof -
  from sp obtain xs c es where b: "chains b' = xs @ c # es" "last_with_datap b' = length xs"
    "\<forall>x \<in> set xs. has_data x \<and> chain_wf x" "chain_wf c" "has_data c \<or> xs = [] \<and> misalign c = 0"
    "concat (map ch_data xs) @ ch_data c = ev_bytes b" "total_len b' = total_len b" "ev_frame b' = ev_frame b"
    and es: "es = [] \<and> n \<le> CHAIN_SPACE_LEN c \<or>
      (\<exists>t. es = [t] \<and> ch_data t = [] \<and> misalign t = 0 \<and> CHAIN_SPACE_LEN c < n \<and> n \<le> CHAIN_SPACE_LEN c + buffer_len t)"
    unfolding read_space_def by blast
  have bytes: "length (ev_bytes b) = length (concat (map ch_data xs)) + off c" using b(6) by (metis length_append)
  have n: "0 < n" using d by auto
  from es show ?thesis
  proof (elim disjE exE conjE)
    assume e: "es = []" "n \<le> CHAIN_SPACE_LEN c"
    then have fit: "misalign c + (off c + n) \<le> buffer_len c" using n by (simp add: CHAIN_SPACE_LEN_def)
    have "CHAIN_SPACE_LEN c \<noteq> 0" using e n by linarith
    then have v: "evbuffer_read_setup_vecs n NUM_READ_IOVEC True b' = Inr (length xs, [n])"
      using e n b by (auto simp: evbuffer_read_setup_vecs_def NUM_READ_IOVEC_def eval_nat_numeral)
    have "commit_read 1 (length xs) d (drop (length xs) (chains b')) = Inr (Some (length xs), [c\<lparr>ch_data := ch_data c @ d\<rparr>])"
      using e d b by simp
    with v show ?thesis using b d fit tl bytes e
      by (intro exI [of _ "length xs"] exI [of _ "[n]"]) (auto simp: evbuffer_wf_def ev_bytes_def chain_wf_def)
  next
    fix t
    assume e: "es = [t]" "ch_data t = []" "misalign t = 0" "CHAIN_SPACE_LEN c < n" "n \<le> CHAIN_SPACE_LEN c + buffer_len t"
    have st: "CHAIN_SPACE_LEN t = buffer_len t" using e by (simp add: CHAIN_SPACE_LEN_def)
    have cw: "misalign c + (off c + CHAIN_SPACE_LEN c) \<le> buffer_len c" using b(4) by (simp add: CHAIN_SPACE_LEN_def chain_wf_def)
    show ?thesis
    proof (cases "CHAIN_SPACE_LEN c = 0")
      case True
      with b(4,5) have dc: "has_data c" by (auto simp: CHAIN_SPACE_LEN_def chain_wf_def)
      have v: "evbuffer_read_setup_vecs n NUM_READ_IOVEC True b' = Inr (Suc (length xs), [n])"
        using e n b st True by (auto simp: evbuffer_read_setup_vecs_def NUM_READ_IOVEC_def eval_nat_numeral)
      have k: "commit_read 1 (Suc (length xs)) d (drop (Suc (length xs)) (chains b'))
          = Inr (Some (Suc (length xs)), [t\<lparr>ch_data := d\<rparr>])"
        using e d b st True by simp
      have "evbuffer_wf (b'\<lparr>chains := xs @ [c, t\<lparr>ch_data := d\<rparr>], last_with_datap := Suc (length xs), total_len := total_len b' + n\<rparr>)"
        using b d dc e n True tl bytes by (auto simp: evbuffer_wf_def ev_bytes_def chain_wf_def)
      with v k b e show ?thesis by (intro exI [of _ "Suc (length xs)"] exI [of _ "[n]"]) simp
    next
      case False
      let ?k = "CHAIN_SPACE_LEN c"
      let ?cs = "[c\<lparr>ch_data := ch_data c @ take ?k d\<rparr>, t\<lparr>ch_data := drop ?k d\<rparr>]"
      have v: "evbuffer_read_setup_vecs n NUM_READ_IOVEC True b' = Inr (length xs, [?k, n - ?k])"
        using e n b st False by (auto simp: evbuffer_read_setup_vecs_def NUM_READ_IOVEC_def eval_nat_numeral Let_def)
      have k: "commit_read (length [?k, n - ?k]) (length xs) d (drop (length xs) (chains b')) = Inr (Some (Suc (length xs)), ?cs)"
        using e d b st by simp
      have "evbuffer_wf (b'\<lparr>chains := xs @ ?cs, last_with_datap := Suc (length xs), total_len := total_len b' + n\<rparr>)"
        using b d e n cw False tl bytes by (auto simp: evbuffer_wf_def ev_bytes_def chain_wf_def)
      then have wf: "evbuffer_wf (b'\<lparr>chains := take (length xs) (chains b') @ ?cs, last_with_datap := Suc (length xs),
          total_len := total_len b' + n\<rparr>)" using b(1) by simp
      have bs: "concat (map ch_data (take (length xs) (chains b') @ ?cs)) = ev_bytes b @ d" using b(1,6) by simp
      have sum: "sum_list [?k, n - ?k] = n" using e(4) by simp
      show ?thesis by (intro exI conjI, rule v, rule sum, rule k, rule wf, rule bs, rule b(8))
    qed
  qed
qed

text \<open>A socket that delivers what was announced.\<close>

lemma evbuffer_read_ok:
  assumes wf: "evbuffer_wf b" and mm: "\<forall>k. mm_malloc b k" and fr: "\<not> freeze_end b"
    and d: "readv (read_size readable howmuch) = Some d" "length d = read_size readable howmuch" "d \<noteq> []"
  shows "\<exists>b'. evbuffer_read readable readv howmuch b = Inr (int (length d), b') \<and> evbuffer_wf b'
    \<and> ev_bytes b' = ev_bytes b @ d \<and> ev_frame b' = ev_frame b"
proof -
  let ?n = "read_size readable howmuch"
  have n: "0 < ?n" using d(2,3) by (metis length_greater_0_conv)
  from evbuffer_expand_fast_ok [OF wf mm n] obtain b1 where b1: "evbuffer_expand_fast ?n NUM_READ_IOVEC b = Inr (True, b1)"
    "read_space ?n b b1" by blast
  from read_space_commit [OF b1(2) d(2,3) evbuffer_wfD(1) [OF wf]] obtain first vecs l cs where
    v: "evbuffer_read_setup_vecs ?n NUM_READ_IOVEC True b1 = Inr (first, vecs)" "sum_list vecs = ?n"
      "commit_read (length vecs) first d (drop first (chains b1)) = Inr (Some l, cs)"
      "evbuffer_wf (b1\<lparr>chains := take first (chains b1) @ cs, last_with_datap := l, total_len := total_len b1 + ?n\<rparr>)"
      "concat (map ch_data (take first (chains b1) @ cs)) = ev_bytes b @ d" "ev_frame b1 = ev_frame b" by blast
  let ?b = "b1\<lparr>chains := take first (chains b1) @ cs, last_with_datap := l, total_len := total_len b1 + ?n\<rparr>"
  have "evbuffer_read readable readv howmuch b = Inr (int (length d), ?b)"
    using fr b1 v d by (simp add: evbuffer_read_def Let_def)
  moreover have "ev_frame ?b = ev_frame b" using v(6) by (simp add: ev_frame_def)
  ultimately show ?thesis using v(4,5) by (simp add: ev_bytes_def)
qed

section \<open>A write sends a prefix\<close>

lemma gather_prefix: "\<exists>rest. concat (map ch_data cs) = concat (gather i n cs) @ rest"
proof (induction cs arbitrary: i n)
  case (Cons c cs)
  from Cons [of "Suc i" "n - off c"] obtain rest where "concat (map ch_data cs) = concat (gather (Suc i) (n - off c) cs) @ rest" by blast
  then show ?case by (auto intro: exI [of _ "drop n (ch_data c) @ concat (map ch_data cs)"])
qed simp

lemma gather_length: "length (concat (gather i n cs)) \<le> n"
proof (induction cs arbitrary: i n)
  case (Cons c cs)
  show ?case using Cons [of "Suc i" "n - off c"] by (auto simp: le_diff_conv2)
qed simp

text \<open>The kernel takes at most what it is given.\<close>

definition writev_ok :: "(bytes list \<Rightarrow> int) \<Rightarrow> bool" where
  "writev_ok writev \<longleftrightarrow> (\<forall>iov. writev iov \<le> int (length (concat iov)))"

lemma evbuffer_write_atmost_ok:
  assumes wf: "evbuffer_wf b" and fr: "\<not> freeze_start b" and k: "writev_ok writev"
  shows "\<exists>n sent b'. evbuffer_write_atmost writev howmuch b = Inr (n, sent, b') \<and> evbuffer_wf b' \<and> ev_frame b' = ev_frame b
    \<and> ev_bytes b = sent @ ev_bytes b' \<and> (0 < n \<longrightarrow> n = int (length sent)) \<and> (n \<le> 0 \<longrightarrow> sent = [])
    \<and> (0 \<le> howmuch \<longrightarrow> int (length sent) \<le> howmuch)"
proof -
  define h where "h = (if howmuch < 0 \<or> howmuch > int (total_len b) then int (total_len b) else howmuch)"
  let ?iov = "gather 0 (nat h) (chains b)"
  let ?w = "writev ?iov"
  show ?thesis
  proof (cases "0 < h \<and> ?iov \<noteq> [] \<and> 0 < ?w")
    case True
    have len: "?w \<le> int (length (concat ?iov))" using k by (simp add: writev_ok_def)
    from gather_prefix [of "chains b" 0 "nat h"] obtain rest where g: "ev_bytes b = concat ?iov @ rest" by (auto simp: ev_bytes_def)
    from evbuffer_drain_ok [OF wf fr, of "nat ?w"] obtain b' where b': "evbuffer_drain (nat ?w) b = Inr (True, b')" "evbuffer_wf b'"
      "ev_bytes b' = drop (nat ?w) (ev_bytes b)" "ev_frame b' = ev_frame b" by blast
    have sent: "take (nat ?w) (concat ?iov) = take (nat ?w) (ev_bytes b)" using len g by simp
    have "length (concat ?iov) \<le> nat h" by (rule gather_length)
    then have "0 \<le> howmuch \<longrightarrow> int (length (take (nat ?w) (concat ?iov))) \<le> howmuch" using True by (auto simp: h_def)
    moreover have "evbuffer_write_atmost writev howmuch b = Inr (?w, take (nat ?w) (concat ?iov), b')"
      using True fr b'(1) by (simp add: evbuffer_write_atmost_def evbuffer_write_iovec_def h_def [symmetric] Let_def)
    moreover have "?w = int (length (take (nat ?w) (concat ?iov)))" using len True by simp
    ultimately show ?thesis using b' sent True
      by (intro exI [of _ ?w] exI [of _ "take (nat ?w) (concat ?iov)"] exI [of _ b']) auto
  next
    case False
    then have "\<exists>n \<le> 0. evbuffer_write_atmost writev howmuch b = Inr (n, [], b)"
      using fr by (auto simp: evbuffer_write_atmost_def evbuffer_write_iovec_def h_def [symmetric] Let_def)
    with wf show ?thesis by fastforce
  qed
qed

end
