(* ===== verification/Bufferevent_Sock.thy ===== *)
theory Bufferevent_Sock
  imports Evbuffer_Io
begin

text \<open>
  Socket bufferevents, \<open>bufferevent_sock.c\<close> and the parts of \<open>bufferevent.c\<close> it uses: a read or write
  event of the socket moves bytes between the socket and the event buffers and runs the callbacks of
  the user. The read event ends with the callback, so \<open>bufferevent_readcb\<close> returns the call to make;
  the write event can run the event callback in the middle, and goes on with what it left.

  Rate limits give \<open>read_max\<close> and \<open>write_max\<close>, which are 16384 when there are none. Locks, reference
  counts, deferred callbacks and the IOCP variant are left out.
\<close>

section \<open>State\<close>

definition BEV_EVENT_WRITING :: u16 where "BEV_EVENT_WRITING = 0x02"
definition BEV_EVENT_EOF :: u16 where "BEV_EVENT_EOF = 0x10"
definition BEV_EVENT_ERROR :: u16 where "BEV_EVENT_ERROR = 0x20"
definition BEV_EVENT_TIMEOUT :: u16 where "BEV_EVENT_TIMEOUT = 0x40"
definition BEV_EVENT_CONNECTED :: u16 where "BEV_EVENT_CONNECTED = 0x80"

record bufev =
  bf_input :: evbuffer
  bf_output :: evbuffer
  wm_read_low :: nat
  wm_read_high :: nat
  wm_write_low :: nat
  enabled_read :: bool
  enabled_write :: bool
  ev_read :: bool
  ev_write :: bool
  read_suspended :: bool
  write_suspended :: bool
  connecting :: bool
  connection_refused :: bool

datatype bev_call = RunReadCb | RunWriteCb | RunEventCb u16

text \<open>What the socket and the rate limits give during one event.\<close>

record sock_io =
  io_readable :: int
  io_readv :: "nat \<Rightarrow> bytes option"
  io_writev :: "bytes list \<Rightarrow> int"
  io_retriable :: bool
  io_connected :: int
  read_max :: int
  write_max :: int

definition MAX_TO_READ_EVER :: int where "MAX_TO_READ_EVER = 16384"
definition MAX_TO_WRITE_EVER :: int where "MAX_TO_WRITE_EVER = 16384"

section \<open>Enabling\<close>

text \<open>\<open>be_socket_disable\<close>, which does not stop a connect that is under way.\<close>

definition be_socket_disable :: "bool \<Rightarrow> bool \<Rightarrow> bufev \<Rightarrow> bufev" where
  "be_socket_disable rd wr b =
     (let b = (if rd then b\<lparr>ev_read := False\<rparr> else b)
      in if wr \<and> \<not> connecting b then b\<lparr>ev_write := False\<rparr> else b)"

text \<open>\<open>add_ok\<close> says whether the event can be added, \<open>add_ok False\<close> for the read and \<open>add_ok True\<close> for the
  write event.\<close>

definition be_socket_enable :: "(bool \<Rightarrow> bool) \<Rightarrow> bool \<Rightarrow> bool \<Rightarrow> bufev \<Rightarrow> bool \<times> bufev" where
  "be_socket_enable add_ok rd wr b =
     (if rd \<and> \<not> add_ok False then (False, b)
      else let b = (if rd then b\<lparr>ev_read := True\<rparr> else b)
           in if wr \<and> \<not> add_ok True then (False, b)
              else (True, if wr then b\<lparr>ev_write := True\<rparr> else b))"

definition bufferevent_enable :: "(bool \<Rightarrow> bool) \<Rightarrow> bool \<Rightarrow> bool \<Rightarrow> bufev \<Rightarrow> bool \<times> bufev" where
  "bufferevent_enable add_ok rd wr b =
     (let impl_rd = (rd \<and> \<not> read_suspended b);
          impl_wr = (wr \<and> \<not> write_suspended b);
          b = b\<lparr>enabled_read := enabled_read b \<or> rd, enabled_write := enabled_write b \<or> wr\<rparr>
      in if impl_rd \<or> impl_wr then be_socket_enable add_ok impl_rd impl_wr b else (True, b))"

text \<open>A new descriptor: both events are deleted, assigned to it and enabled again.\<close>

definition be_socket_setfd :: "(bool \<Rightarrow> bool) \<Rightarrow> int \<Rightarrow> bufev \<Rightarrow> bufev" where
  "be_socket_setfd add_ok fd b =
     (let b = b\<lparr>ev_read := False, ev_write := False\<rparr>
      in if fd \<ge> 0 then snd (bufferevent_enable add_ok (enabled_read b) (enabled_write b) b) else b)"

definition bufferevent_disable :: "bool \<Rightarrow> bool \<Rightarrow> bufev \<Rightarrow> bufev" where
  "bufferevent_disable rd wr b =
     be_socket_disable rd wr
       (b\<lparr>enabled_read := enabled_read b \<and> \<not> rd, enabled_write := enabled_write b \<and> \<not> wr\<rparr>)"


definition bufferevent_socket_outbuf_cb :: "bool \<Rightarrow> nat \<Rightarrow> bufev \<Rightarrow> bufev" where
  "bufferevent_socket_outbuf_cb add_ok n_added b =
     (if n_added \<noteq> 0 \<and> enabled_write b \<and> \<not> ev_write b \<and> \<not> write_suspended b
      then if add_ok then b\<lparr>ev_write := True\<rparr> else b
      else b)"

section \<open>Events of the socket\<close>


definition write_error :: "u16 \<Rightarrow> bufev \<Rightarrow> bev_call list \<times> bufev" where
  "write_error what b = ([RunEventCb what], bufferevent_disable False True b)"


text \<open>The part of the write event behind the connect; \<open>connected\<close> says that a connect has just ended.
  The result has the bytes sent.\<close>

definition flush_output :: "sock_io \<Rightarrow> bool \<Rightarrow> bufev \<Rightarrow> (bev_call list \<times> bytes \<times> bufev) res" where
  "flush_output io connected b =
     (if write_suspended b then Inr ([], [], b)
      else bind_res
        (if evbuffer_get_length (bf_output b) \<noteq> 0 then
           bind_res (evbuffer_write_atmost (io_writev io) (write_max io) (evbuffer_unfreeze True (bf_output b)))
             (\<lambda>(res, sent, output). Inr (res, sent, b\<lparr>bf_output := evbuffer_freeze True output\<rparr>))
         else Inr (0, [], b)) (\<lambda>(res, sent, b').
        if evbuffer_get_length (bf_output b) \<noteq> 0 \<and> res = -1 \<and> io_retriable io then
          Inr ([], sent, if evbuffer_get_length (bf_output b') = 0 then b'\<lparr>ev_write := False\<rparr> else b')
        else if evbuffer_get_length (bf_output b) \<noteq> 0 \<and> res = -1 then
          (case write_error (BEV_EVENT_WRITING OR BEV_EVENT_ERROR) b' of (calls, b') \<Rightarrow> Inr (calls, sent, b'))
        else if evbuffer_get_length (bf_output b) \<noteq> 0 \<and> res \<le> 0 then
          (case write_error (if res = 0 then BEV_EVENT_WRITING OR BEV_EVENT_EOF else BEV_EVENT_WRITING) b' of
             (calls, b') \<Rightarrow> Inr (calls, sent, b'))
        else
          let b' = (if evbuffer_get_length (bf_output b') = 0 then b'\<lparr>ev_write := False\<rparr> else b')
          in Inr (if (res \<noteq> 0 \<or> \<not> connected) \<and> evbuffer_get_length (bf_output b') \<le> wm_write_low b' then [RunWriteCb] else [],
                  sent, b')))"

text \<open>\<open>user\<close> is what the event callback does to the bufferevent when it is told about the connection.\<close>

definition bufferevent_writecb ::
  "sock_io \<Rightarrow> bool \<Rightarrow> (bufev \<Rightarrow> bufev res) \<Rightarrow> bufev \<Rightarrow> (bev_call list \<times> bytes \<times> bufev) res" where
  "bufferevent_writecb io timeout user b =
     (if timeout then
        (case write_error (BEV_EVENT_WRITING OR BEV_EVENT_TIMEOUT) b of (calls, b) \<Rightarrow> Inr (calls, [], b))
      else if connecting b then
        let c = (if connection_refused b then - 1 else io_connected io);
            b = b\<lparr>connection_refused := False\<rparr>
        in if c = 0 then Inr ([], [], b)
           else let b = b\<lparr>connecting := False\<rparr>
                in if c < 0 then Inr ([RunEventCb BEV_EVENT_ERROR], [], b\<lparr>ev_write := False, ev_read := False\<rparr>)
                   else bind_res (user b) (\<lambda>b.
                        if \<not> enabled_write b \<or> write_suspended b then
                          Inr ([RunEventCb BEV_EVENT_CONNECTED], [], b\<lparr>ev_write := False\<rparr>)
                        else bind_res (flush_output io True b) (\<lambda>(calls, sent, b).
                          Inr (RunEventCb BEV_EVENT_CONNECTED # calls, sent, b)))
      else flush_output io False b)"

text \<open>\<open>fd\<close> is the descriptor the bufferevent has, \<open>new_fd\<close> the result of \<open>socket\<close>, and \<open>r\<close> the result of
  \<open>evutil_socket_connect\<close>: under way (0), done (1), refused (2), failed (negative). \<open>set_ok\<close> and \<open>add_ok\<close>
  say which events can be added when the descriptor is set and behind it. The result is -1 or 0 with
  the calls made; the last flag says that the write event is made active at once.\<close>

definition bufferevent_socket_connect ::
  "int \<Rightarrow> bool \<Rightarrow> int \<Rightarrow> bool \<Rightarrow> (bool \<Rightarrow> bool) \<Rightarrow> (bool \<Rightarrow> bool) \<Rightarrow> int \<Rightarrow> bufev \<Rightarrow> int \<times> bev_call list \<times> bool \<times> bufev" where
  "bufferevent_socket_connect fd sa new_fd nonblocking_ok set_ok add_ok r b =
     (if fd < 0 \<and> (\<not> sa \<or> new_fd < 0 \<or> \<not> nonblocking_ok) then (- 1, [], False, b)
      else let r = (if sa then r else 0)
      in if r < 0 then (- 1, [RunEventCb BEV_EVENT_ERROR], False, b)
      else let b = be_socket_setfd set_ok (if fd < 0 then new_fd else fd) b
      in if r = 0 then
        (case be_socket_enable add_ok False True b of
           (ok, b) \<Rightarrow> if ok then (0, [], False, b\<lparr>connecting := True\<rparr>) else (- 1, [], False, b))
      else if r = 1 then (0, [], True, b\<lparr>connecting := True\<rparr>)
      else (0, [], True, b\<lparr>connection_refused := True, connecting := True\<rparr>))"

section \<open>Release\<close>

text \<open>The timeouts are not part of the state; the result says whether both events could be added again.\<close>

definition be_socket_adj_timeouts :: "(bool \<Rightarrow> bool) \<Rightarrow> bufev \<Rightarrow> int" where
  "be_socket_adj_timeouts add_ok b =
     (if ev_read b \<and> \<not> add_ok False then -1 else if ev_write b \<and> \<not> add_ok True then -1 else 0)"

text \<open>The flag says whether the descriptor is closed.\<close>

definition be_socket_destruct :: "bool \<Rightarrow> int \<Rightarrow> bufev \<Rightarrow> bool \<times> bufev" where
  "be_socket_destruct close_on_free fd b =
     (close_on_free \<and> fd \<ge> 0, b\<lparr>ev_read := False, ev_write := False\<rparr>)"

section \<open>A read event\<close>

lemma unfreeze_fields [simp]:
  "evbuffer_wf (evbuffer_unfreeze st b) = evbuffer_wf b" "ev_bytes (evbuffer_unfreeze st b) = ev_bytes b"
  "evbuffer_wf (evbuffer_freeze st b) = evbuffer_wf b" "ev_bytes (evbuffer_freeze st b) = ev_bytes b"
  "mm_malloc (evbuffer_unfreeze st b) = mm_malloc b" "total_len (evbuffer_unfreeze st b) = total_len b"
  "mm_malloc (evbuffer_freeze st b) = mm_malloc b" "total_len (evbuffer_freeze st b) = total_len b"
  by (simp_all add: evbuffer_unfreeze_def evbuffer_freeze_def evbuffer_wf_def ev_bytes_def)





section \<open>A write event\<close>

text \<open>Whatever happens, the bytes sent and the bytes left are the bytes that were there.\<close>

lemma flush_output_ok:
  assumes wf: "ev_sink (bf_output b)" and k: "writev_ok (io_writev io)"
  shows "\<exists>calls sent b'. flush_output io connected b = Inr (calls, sent, b') \<and> ev_sink (bf_output b')
    \<and> ev_bytes (bf_output b) = sent @ ev_bytes (bf_output b') \<and> bf_input b' = bf_input b"
proof (cases "write_suspended b \<or> evbuffer_get_length (bf_output b) = 0")
  case True
  with wf show ?thesis by (auto simp: flush_output_def Let_def)
next
  case False
  let ?o = "evbuffer_unfreeze True (bf_output b)"
  have o: "evbuffer_wf ?o" "\<not> freeze_start ?o" "\<not> freeze_end ?o" "\<forall>k. mm_malloc ?o k"
    using wf by (simp_all add: ev_sink_def) (simp_all add: evbuffer_unfreeze_def)
  from evbuffer_write_atmost_ok [OF o(1,2) k, of "write_max io"] obtain n sent out where
    w: "evbuffer_write_atmost (io_writev io) (write_max io) ?o = Inr (n, sent, out)" "evbuffer_wf out" "ev_frame out = ev_frame ?o"
      "ev_bytes ?o = sent @ ev_bytes out" by blast
  have s: "ev_sink (evbuffer_freeze True out)"
    using w o by (auto simp: ev_sink_def ev_frame_def evbuffer_freeze_def evbuffer_wf_def ev_bytes_def)
  have bytes: "ev_bytes (bf_output b) = sent @ ev_bytes (evbuffer_freeze True out)" using w(4) by simp
  have same: "bf_output (b'\<lparr>ev_write := x\<rparr>) = bf_output b'" "bf_output (snd (write_error what b')) = bf_output b'"
    "bf_input (snd (write_error what b')) = bf_input b'" for b' :: bufev and what x
    by (simp_all add: write_error_def bufferevent_disable_def be_socket_disable_def Let_def)
  show ?thesis
    using False w(1) s bytes same
    by (auto simp: flush_output_def Let_def case_prod_beta)
qed

lemma bufferevent_writecb_ok:
  assumes wf: "ev_sink (bf_output b)" and k: "writev_ok (io_writev io)"
  shows "\<exists>calls sent b'. bufferevent_writecb io timeout Inr b = Inr (calls, sent, b') \<and> ev_sink (bf_output b')
    \<and> ev_bytes (bf_output b) = sent @ ev_bytes (bf_output b')"
proof -
  have fl: "\<exists>calls sent b2. flush_output io c b1 = Inr (calls, sent, b2) \<and> ev_sink (bf_output b2)
      \<and> ev_bytes (bf_output b) = sent @ ev_bytes (bf_output b2)" if "bf_output b1 = bf_output b" for c b1
    using flush_output_ok [of b1 io c] wf k that by auto
  have er: "bf_output (snd (write_error what b)) = bf_output b" for what
    by (simp add: write_error_def bufferevent_disable_def be_socket_disable_def Let_def)
  let ?b = "b\<lparr>connection_refused := False, connecting := False\<rparr>"
  consider "timeout" | "\<not> timeout" "\<not> connecting b" | "\<not> timeout" "connecting b" by blast
  then show ?thesis
  proof cases
    case 1
    then show ?thesis using wf er by (simp add: bufferevent_writecb_def case_prod_beta)
  next
    case 2
    then show ?thesis using fl [of b False] by (simp add: bufferevent_writecb_def)
  next
    case 3
    from fl [of ?b True] obtain calls sent b2 where "flush_output io True ?b = Inr (calls, sent, b2)" "ev_sink (bf_output b2)"
      "ev_bytes (bf_output b) = sent @ ev_bytes (bf_output b2)" by auto
    then show ?thesis using 3 wf by (simp add: bufferevent_writecb_def Let_def)
  qed
qed

section \<open>Properties\<close>


definition sample_bufev :: "bytes \<Rightarrow> bytes \<Rightarrow> bufev" where
  "sample_bufev i out =
     \<lparr>bf_input = one_chain i, bf_output = one_chain out, wm_read_low = 0, wm_read_high = 0, wm_write_low = 0, enabled_read = True,
      enabled_write = True, ev_read = True, ev_write = True, read_suspended = False, write_suspended = False, connecting = False,
      connection_refused = False\<rparr>"

definition sample_io :: "bytes \<Rightarrow> nat \<Rightarrow> sock_io" where
  "sample_io d n =
     \<lparr>io_readable = int (length d), io_readv = (\<lambda>_. Some d), io_writev = (\<lambda>iov. int (min n (length (concat iov)))), io_retriable = True,
      io_connected = 1, read_max = MAX_TO_READ_EVER, write_max = MAX_TO_WRITE_EVER\<rparr>"


text \<open>What the server and the event loop do to the output of a bufferevent.\<close>

datatype out_op = Put bytes | Flush sock_io bool

primrec out_run :: "out_op list \<Rightarrow> bufev \<Rightarrow> (bytes \<times> bufev) res" where
  "out_run [] b = Inr ([], b)"
| "out_run (op # ops) b =
     (case op of
        Put d \<Rightarrow>
          bind_res (evbuffer_add d (bf_output b)) (\<lambda>(ok, output).
            out_run ops (bufferevent_socket_outbuf_cb True (if ok then length d else 0) (b\<lparr>bf_output := output\<rparr>)))
      | Flush io timeout \<Rightarrow>
          bind_res (bufferevent_writecb io timeout Inr b) (\<lambda>(_, sent, b).
          bind_res (out_run ops b) (\<lambda>(later, b). Inr (sent @ later, b))))"

primrec puts :: "out_op list \<Rightarrow> bytes" where
  "puts [] = []"
| "puts (op # ops) = (case op of Put d \<Rightarrow> d | Flush io timeout \<Rightarrow> []) @ puts ops"

primrec flush_ok :: "out_op \<Rightarrow> bool" where
  "flush_ok (Put d) = True"
| "flush_ok (Flush io timeout) = writev_ok (io_writev io)"

text \<open>C9: The output of a bufferevent is a first-in first-out stream: under any sequence of writes by
  the server and of write events of the socket, however much the kernel takes each time, the bytes
  sent so far followed by the bytes still buffered are the bytes that were put in, in order.\<close>

theorem output_is_fifo:
  assumes "ev_sink (bf_output b)" and "\<forall>op \<in> set ops. flush_ok op"
  shows "\<exists>sent b'. out_run ops b = Inr (sent, b') \<and> ev_sink (bf_output b')
    \<and> sent @ ev_bytes (bf_output b') = ev_bytes (bf_output b) @ puts ops"
  using assms
proof (induction ops arbitrary: b)
  case (Cons op ops)
  show ?case
  proof (cases op)
    case (Put d)
    from ev.add [OF Cons.prems(1), of d] obtain out where a: "evbuffer_add d (bf_output b) = Inr (True, out)" "ev_sink out"
      "ev_bytes out = ev_bytes (bf_output b) @ d" by blast
    let ?b = "bufferevent_socket_outbuf_cb True (length d) (b\<lparr>bf_output := out\<rparr>)"
    have o: "bf_output ?b = out" by (simp add: bufferevent_socket_outbuf_cb_def)
    from Cons.IH [of ?b] Cons.prems(2) a o Put show ?thesis by simp
  next
    case (Flush io timeout)
    from bufferevent_writecb_ok [OF Cons.prems(1), of io timeout] Cons.prems(2) Flush obtain calls sent b1 where
      w: "bufferevent_writecb io timeout Inr b = Inr (calls, sent, b1)" "ev_sink (bf_output b1)"
        "ev_bytes (bf_output b) = sent @ ev_bytes (bf_output b1)" by auto
    from Cons.IH [OF w(2)] Cons.prems(2) obtain later b2 where "out_run ops b1 = Inr (later, b2)" "ev_sink (bf_output b2)"
      "later @ ev_bytes (bf_output b2) = ev_bytes (bf_output b1) @ puts ops" by auto
    with w Flush show ?thesis by simp
  qed
qed simp

theorem output_is_fifo_witness:
  "\<exists>sent b'. out_run [Put [1, 2], Flush (sample_io [] 2) False, Put [3], Flush (sample_io [] 2) False] (sample_bufev [] [7]) = Inr (sent, b')
    \<and> sent @ ev_bytes (bf_output b') = [7, 1, 2, 3]"
  using output_is_fifo [of "sample_bufev [] [7]" "[Put [1, 2], Flush (sample_io [] 2) False, Put [3], Flush (sample_io [] 2) False]"]
    one_chain_ok [of "[7]"]
  by (auto simp: sample_bufev_def sample_io_def writev_ok_def)

end
