(* ===== verification/Work_Thread.thy ===== *)
theory Work_Thread
  imports Analyse_Service Comet_Subscriber Bufferevent_Sock
begin

text \<open>
  The worker threads, \<open>src/core/work_thread.cc\<close>, \<open>work_thread.h\<close> and \<open>work_thread-inl.h\<close>. A worker owns
  a set of client connections, the map from connections to ids and the map from ids to subscribers.
  Workers talk through pipes: one carries accepted sockets and commands of the main thread, one the
  addresses of messages to deliver. A login or a transfer is checked asynchronously, in redis first
  and then at the account service over HTTP.

  \<open>comet\<close> is the state of the process: the workers, the live bufferevents, the live messages, and the
  addresses the allocator will hand out (an address can be reused once it is free). One definition
  per callback takes the state to the next one; a callback runs to its end before another one starts.
  \<open>env\<close> is what the environment decides during a callback.
\<close>

section \<open>State\<close>

record OnlineInfo =
  on_id :: u64
  on_bev :: ptr
  on_work_thread :: nat

record OfflineInfo =
  off_id :: u64
  off_work_thread :: nat

text \<open>What a bufferevent calls back with: a client of a worker, or the check of a login or of a
  transfer at the account service.\<close>

datatype bev_ctx = ClientCtx nat | LoginCtx LoginData | TransCtx ptr

record bufferevent =
  bev_input :: evbuffer
  bev_output :: evbuffer
  bev_ctx :: bev_ctx

text \<open>The callback of a redis command with its private data.\<close>

datatype redis_cb = LoginCb LoginData | TransCb ptr | OnlineCb OnlineInfo | OfflineCb OfflineInfo | NoCb

record redis_call =
  rc_text :: bytes
  rc_cb :: redis_cb

text \<open>\<open>redisReply\<close>: type, string, elements.\<close>

datatype redisReply = Reply (reply_type: int) (reply_str: "bytes option") (reply_element: "redisReply list")

record 'u work_thread =
  loop_broken :: bool
  work_num :: int
  conn_num :: int
  ping_time :: int
  work_thread_num :: nat
  new_conn_fd :: "int list"
  new_msg_fd :: "ptr list"
  http_url :: bytes
  http_ip :: bytes
  sub_map :: "u64 \<Rightarrow> Subscriber option"
  bev_id :: "ptr \<Rightarrow> u64 option"
  analyser :: "'u analyse_req"
  redis :: "redis_call list option"
  online_status :: "'u OnlineStatus"
  me_status :: "'u OnlineStatus"

record 'u comet =
  threads :: "'u work_thread list"
  bevs :: "ptr \<Rightarrow> bufferevent option"
  messages :: "ptr \<Rightarrow> TransData option"
  arena :: "ptr list"
  kills :: "int list"

record 'u env =
  lib :: "'u pb_lib"
  junk :: "nat \<Rightarrow> byte"
  mm :: "nat \<Rightarrow> bool"
  now :: "int option"
  pipe_room :: nat
  redis_accepts :: bool
  connects :: bool

definition thr :: "nat \<Rightarrow> 'u comet \<Rightarrow> 'u work_thread" where
  "thr t s = threads s ! t"

definition on_thr :: "nat \<Rightarrow> ('u work_thread \<Rightarrow> 'u work_thread) \<Rightarrow> 'u comet \<Rightarrow> 'u comet" where
  "on_thr t f s = s\<lparr>threads := (threads s)[t := f (threads s ! t)]\<rparr>"

text \<open>The constructor leaves the other members to \<open>init_work\<close>; \<open>blank\<close> is what they hold.\<close>

definition WorkThread_new :: "'u pb_lib \<Rightarrow> bool \<Rightarrow> 'u work_thread \<Rightarrow> 'u work_thread" where
  "WorkThread_new pb heart0 blank =
     blank\<lparr>work_num := 0, conn_num := 0, redis := None, sub_map := \<lambda>_. None, bev_id := \<lambda>_. None,
       http_url := [], http_ip := [],
       analyser := AnalyseReq_new pb heart0, online_status := OnlineStatus_new (wire pb),
       me_status := OnlineStatus_new (wire pb)\<rparr>"

section \<open>Memory\<close>

definition in_use :: "'u comet \<Rightarrow> ptr \<Rightarrow> bool" where
  "in_use s p \<longleftrightarrow> p = 0 \<or> bevs s p \<noteq> None \<or> messages s p \<noteq> None"

text \<open>The allocator returns an address that is not in use, or fails.\<close>

definition malloc :: "'u comet \<Rightarrow> (ptr \<times> 'u comet) option" where
  "malloc s = (case arena s of [] \<Rightarrow> None | p # ps \<Rightarrow> if in_use s p then None else Some (p, s\<lparr>arena := ps\<rparr>))"

definition new_message :: "TransData \<Rightarrow> 'u comet \<Rightarrow> (ptr \<times> 'u comet) res" where
  "new_message td s =
     (case malloc s of None \<Rightarrow> Inl BadAlloc
      | Some (p, s) \<Rightarrow> Inr (p, s\<lparr>messages := (messages s)(p \<mapsto> td)\<rparr>))"

definition message_at :: "ptr \<Rightarrow> 'u comet \<Rightarrow> TransData res" where
  "message_at p s = (case messages s p of None \<Rightarrow> Inl FreedMessage | Some td \<Rightarrow> Inr td)"

definition set_message :: "ptr \<Rightarrow> TransData \<Rightarrow> 'u comet \<Rightarrow> 'u comet" where
  "set_message p td s = s\<lparr>messages := (messages s)(p \<mapsto> td)\<rparr>"

definition delete_message :: "ptr \<Rightarrow> 'u comet \<Rightarrow> 'u comet res" where
  "delete_message p s = bind_res (message_at p s) (\<lambda>_. Inr (s\<lparr>messages := (messages s)(p := None)\<rparr>))"

definition bev_at :: "ptr \<Rightarrow> 'u comet \<Rightarrow> bufferevent res" where
  "bev_at p s = (case bevs s p of None \<Rightarrow> Inl UseAfterFree | Some b \<Rightarrow> Inr b)"

definition set_bev :: "ptr \<Rightarrow> bufferevent \<Rightarrow> 'u comet \<Rightarrow> 'u comet" where
  "set_bev p b s = s\<lparr>bevs := (bevs s)(p \<mapsto> b)\<rparr>"

text \<open>A new socket bufferevent freezes the end of its input and the start of its output. The callers
  use the result without a test, so a failure is a null dereference.\<close>

definition bufferevent_socket_new :: "'u env \<Rightarrow> bev_ctx \<Rightarrow> 'u comet \<Rightarrow> (ptr \<times> 'u comet) res" where
  "bufferevent_socket_new e ctx s =
     (case malloc s of None \<Rightarrow> Inl NullDeref
      | Some (p, s) \<Rightarrow> Inr (p, set_bev p \<lparr>bev_input = evbuffer_freeze False (evbuffer_new (mm e)),
          bev_output = evbuffer_freeze True (evbuffer_new (mm e)), bev_ctx = ctx\<rparr> s))"

definition bufferevent_free :: "ptr \<Rightarrow> 'u comet \<Rightarrow> 'u comet res" where
  "bufferevent_free p s = bind_res (bev_at p s) (\<lambda>_. Inr (s\<lparr>bevs := (bevs s)(p := None)\<rparr>))"

text \<open>\<open>evbuffer_add(bufferevent_get_output(bev), data, n)\<close>.\<close>

definition write_output :: "ptr \<Rightarrow> bytes \<Rightarrow> 'u comet \<Rightarrow> (bool \<times> 'u comet) res" where
  "write_output p d s =
     bind_res (bev_at p s) (\<lambda>b.
     bind_res (evbuffer_add d (bev_output b)) (\<lambda>(ok, out).
       Inr (ok, set_bev p (b\<lparr>bev_output := out\<rparr>) s)))"

section \<open>Pipes and redis\<close>

text \<open>A pipe is written in whole items: the result is the size of the item, or \<open>-1\<close> when the pipe is
  full.\<close>

definition pipe_write :: "nat \<Rightarrow> int \<Rightarrow> 'a \<Rightarrow> 'a list \<Rightarrow> int \<times> 'a list" where
  "pipe_write room item_size x q =
     (if item_size * int (length q) + item_size \<le> int room then (item_size, q @ [x]) else (- 1, q))"

definition notify_new_conn :: "'u env \<Rightarrow> nat \<Rightarrow> int \<Rightarrow> 'u comet \<Rightarrow> bool \<times> 'u comet" where
  "notify_new_conn e t fd s =
     (case pipe_write (pipe_room e) 4 fd (new_conn_fd (thr t s)) of
        (res, q) \<Rightarrow> (res = 4, on_thr t (\<lambda>th. th\<lparr>new_conn_fd := q\<rparr>) s))"

definition check_id_is_online :: "nat \<Rightarrow> u64 \<Rightarrow> 'u comet \<Rightarrow> bool" where
  "check_id_is_online t i s \<longleftrightarrow> sub_map (thr t s) i \<noteq> None"

definition EAGAIN :: int where
  "EAGAIN = 11"

text \<open>The write is repeated while its result, not the error number, equals \<open>EAGAIN\<close>.\<close>

definition notify_new_msg :: "'u env \<Rightarrow> nat \<Rightarrow> ptr \<Rightarrow> 'u comet \<Rightarrow> (bool \<times> 'u comet) res" where
  "notify_new_msg e t p s =
     bind_res (message_at p s) (\<lambda>td.
     if sub_map (thr t s) (td_to_id td) = None then Inr (False, s)
     else case pipe_write (pipe_room e) 8 p (new_msg_fd (thr t s)) of
            (res, q) \<Rightarrow>
              if res = EAGAIN then Inl Diverged
              else Inr (res = 8, on_thr t (\<lambda>th. th\<lparr>new_msg_fd := q\<rparr>) s))"

definition notify_del_id :: "'u env \<Rightarrow> nat \<Rightarrow> u64 \<Rightarrow> 'u comet \<Rightarrow> 'u comet res" where
  "notify_del_id e t i s =
     (if sub_map (thr t s) i \<noteq> None then
        bind_res (new_message \<lparr>td_from_id = None, td_to_id = i, td_work_thread = None, td_msg_type = Some 1,
                    td_data_size = None, td_data = []\<rparr> s) (\<lambda>(p, s).
        bind_res (notify_new_msg e t p s) (\<lambda>(ok, s).
        if ok then Inr s else delete_message p s))
      else Inr s)"

text \<open>The loop over the workers until one takes the message.\<close>

primrec offer_message :: "'u env \<Rightarrow> ptr \<Rightarrow> nat list \<Rightarrow> 'u comet \<Rightarrow> (bool \<times> 'u comet) res" where
  "offer_message e p [] s = Inr (False, s)"
| "offer_message e p (j # js) s =
     bind_res (read_at (threads s) j) (\<lambda>_.
     bind_res (notify_new_msg e j p s) (\<lambda>(ok, s).
     if ok then Inr (True, s) else offer_message e p js s))"

definition send_message :: "'u env \<Rightarrow> nat \<Rightarrow> ptr \<Rightarrow> 'u comet \<Rightarrow> (bool \<times> 'u comet) res" where
  "send_message e t p s = offer_message e p [0..<work_thread_num (thr t s)] s"

text \<open>A command that hiredis does not accept is never answered; its result is not looked at.\<close>

definition redisAsyncCommand :: "'u env \<Rightarrow> nat \<Rightarrow> redis_cb \<Rightarrow> bytes \<Rightarrow> 'u comet \<Rightarrow> 'u comet res" where
  "redisAsyncCommand e t cb text s =
     (case redis (thr t s) of
        None \<Rightarrow> Inl NullDeref
      | Some calls \<Rightarrow>
          Inr (if redis_accepts e
               then on_thr t (\<lambda>th. th\<lparr>redis := Some (calls @ [\<lparr>rc_text = text, rc_cb = cb\<rparr>])\<rparr>) s
               else s))"

text \<open>\<open>"%ld"\<close>, which prints an unsigned id as a signed number.\<close>

definition fmt_ld :: "u64 \<Rightarrow> bytes" where
  "fmt_ld w = dec_int (sint w)"

definition zrange_cmd :: "u64 \<Rightarrow> bytes" where
  "zrange_cmd i = cstr ''ZRANGE ssUD:'' @ fmt_ld i @ cstr '' 0 -1''"

definition send_offline :: "'u env \<Rightarrow> nat \<Rightarrow> u64 \<Rightarrow> 'u comet \<Rightarrow> 'u comet res" where
  "send_offline e t i s =
     (if i \<noteq> 0 then redisAsyncCommand e t (OfflineCb \<lparr>off_id = i, off_work_thread = t\<rparr>) (zrange_cmd i) s
      else Inr s)"

section \<open>Connections and expiry\<close>

text \<open>One entry of the loop of \<open>del_expire_client\<close>.\<close>

definition expire_one :: "'u env \<Rightarrow> nat \<Rightarrow> int \<Rightarrow> ptr \<Rightarrow> 'u comet \<Rightarrow> 'u comet res" where
  "expire_one e t tv_sec bev s =
     (case bev_id (thr t s) bev of
        None \<Rightarrow> Inr s
      | Some i \<Rightarrow>
          (case sub_map (thr t s) i of
             None \<Rightarrow> Inr s
           | Some sub \<Rightarrow>
               if tv_sec - get_heartbeat_time sub > 2 * ping_time (thr t s) then
                 bind_res (bufferevent_free bev s) (\<lambda>s.
                   send_offline e t i (on_thr t (\<lambda>th. th\<lparr>bev_id := (bev_id th)(bev := None),
                     conn_num := c_int (conn_num th - 1), sub_map := (sub_map th)(i := None)\<rparr>) s))
               else Inr s))"

text \<open>\<open>order\<close> is the order in which the hash map lists its keys.\<close>

definition del_expire_client :: "'u env \<Rightarrow> nat \<Rightarrow> ptr list \<Rightarrow> 'u comet \<Rightarrow> 'u comet res" where
  "del_expire_client e t order s =
     (case now e of None \<Rightarrow> Inr s | Some tv_sec \<Rightarrow> fold_res (expire_one e t tv_sec) order s)"

definition new_client :: "'u env \<Rightarrow> nat \<Rightarrow> 'u comet \<Rightarrow> 'u comet res" where
  "new_client e t s =
     bind_res (bufferevent_socket_new e (ClientCtx t) s) (\<lambda>(bev, s).
       Inr (on_thr t (\<lambda>th. th\<lparr>bev_id := (if bev_id th bev = None then (bev_id th)(bev \<mapsto> 0) else bev_id th),
              conn_num := c_int (conn_num th + 1)\<rparr>) s))"

text \<open>\<open>n\<close> is \<open>10 - i\<close>; the item is read before \<open>i\<close> is tested. \<open>keys\<close> lists the connections in the
  order of the hash map.\<close>

primrec new_conn_loop :: "'u env \<Rightarrow> nat \<Rightarrow> ('u comet \<Rightarrow> ptr list) \<Rightarrow> nat \<Rightarrow> 'u comet \<Rightarrow> 'u comet res" where
  "new_conn_loop e t keys 0 s = Inr (on_thr t (\<lambda>th. th\<lparr>new_conn_fd := drop 1 (new_conn_fd th)\<rparr>) s)"
| "new_conn_loop e t keys (Suc n) s =
     (case new_conn_fd (thr t s) of
        [] \<Rightarrow> Inr s
      | data # rest \<Rightarrow>
          let s = on_thr t (\<lambda>th. th\<lparr>new_conn_fd := rest\<rparr>) s
          in if data > 0 then bind_res (new_client e t s) (new_conn_loop e t keys n)
             else if data = -1 then Inr (on_thr t (\<lambda>th. th\<lparr>loop_broken := True\<rparr>) s)
             else if data = -2 then bind_res (del_expire_client e t (keys s) s) (new_conn_loop e t keys n)
             else new_conn_loop e t keys n s)"

definition notify_new_conn_callback :: "'u env \<Rightarrow> nat \<Rightarrow> ('u comet \<Rightarrow> ptr list) \<Rightarrow> 'u comet \<Rightarrow> 'u comet res" where
  "notify_new_conn_callback e t keys s = new_conn_loop e t keys 10 s"

section \<open>Delivery\<close>

definition translate_msg :: "nat \<Rightarrow> TransData \<Rightarrow> 'u comet \<Rightarrow> 'u comet res" where
  "translate_msg t td s =
     (case sub_map (thr t s) (td_to_id td) of
        None \<Rightarrow> Inr s
      | Some sub \<Rightarrow>
          bind_res (bev_at (get_bev sub) s) (\<lambda>_.
          case td_data_size td of
            None \<Rightarrow> Inl UninitialisedRead
          | Some n \<Rightarrow>
              bind_res (read_range (td_data td) 0 (c_size n)) (\<lambda>d.
              bind_res (write_output (get_bev sub) d s) (\<lambda>(_, s). Inr s))))"

text \<open>The iterator is erased even when it is the end of the map.\<close>

definition delete_old_id :: "nat \<Rightarrow> u64 \<Rightarrow> 'u comet \<Rightarrow> 'u comet res" where
  "delete_old_id t i s =
     (case sub_map (thr t s) i of
        None \<Rightarrow> Inr s
      | Some sub \<Rightarrow>
          if bev_id (thr t s) (get_bev sub) \<noteq> None then
            bind_res (bufferevent_free (get_bev sub) s) (\<lambda>s.
              Inr (on_thr t (\<lambda>th. th\<lparr>bev_id := (bev_id th)(get_bev sub := None),
                                     sub_map := (sub_map th)(i := None)\<rparr>) s))
          else Inl EndIterator)"

definition handle_msg :: "nat \<Rightarrow> ptr \<Rightarrow> 'u comet \<Rightarrow> 'u comet res" where
  "handle_msg t p s =
     bind_res (message_at p s) (\<lambda>td.
     bind_res (case td_msg_type td of
                 None \<Rightarrow> Inl UninitialisedRead
               | Some ty \<Rightarrow>
                   if ty = 0 then translate_msg t td s
                   else if ty = 1 then delete_old_id t (td_to_id td) s
                   else Inl AssertFailed) (delete_message p))"

text \<open>The pipe is read until it is empty; handling a message does not write to it.\<close>

definition notify_new_msg_callback :: "nat \<Rightarrow> 'u comet \<Rightarrow> 'u comet res" where
  "notify_new_msg_callback t s =
     fold_res (\<lambda>p s. handle_msg t p (on_thr t (\<lambda>th. th\<lparr>new_msg_fd := drop 1 (new_msg_fd th)\<rparr>) s))
       (new_msg_fd (thr t s)) s"

section \<open>Client data\<close>

definition get_token_cmd :: "u64 \<Rightarrow> bytes" where
  "get_token_cmd i = cstr ''GET sToken:'' @ fmt_ld (i AND 0x0000FFFFFFFFFFFF)"

definition zscore_cmd :: "u64 option \<Rightarrow> u64 \<Rightarrow> bytes res" where
  "zscore_cmd from to =
     (case from of None \<Rightarrow> Inl UninitialisedRead
      | Some f \<Rightarrow> Inr (cstr ''ZSCORE ssUD:'' @ fmt_ld f @ cstr '' '' @ fmt_ld to))"

definition read_login :: "'u env \<Rightarrow> nat \<Rightarrow> ptr \<Rightarrow> 'u comet \<Rightarrow> 'u comet res" where
  "read_login e t bev s =
     (case get_login_data (analyser (thr t s)) of
        (ld, a) \<Rightarrow>
          let s = on_thr t (\<lambda>th. th\<lparr>analyser := a\<rparr>) s
          in case ld of
               None \<Rightarrow> Inr s
             | Some ld \<Rightarrow>
                 redisAsyncCommand e t (LoginCb (ld\<lparr>ld_work_thread := Some t, ld_bev := Some bev\<rparr>))
                   (get_token_cmd (ld_id ld)) s)"

definition read_heart :: "'u env \<Rightarrow> nat \<Rightarrow> u64 \<Rightarrow> 'u comet \<Rightarrow> 'u comet" where
  "read_heart e t i s =
     (case is_heart (analyser (thr t s)) of
        (heart, a) \<Rightarrow>
          on_thr t (\<lambda>th. th\<lparr>analyser := a,
            sub_map := (case sub_map th i of
                          None \<Rightarrow> sub_map th
                        | Some sub \<Rightarrow> if heart \<and> i \<noteq> 0 then (sub_map th)(i \<mapsto> update_heartbeat (now e) sub)
                                     else sub_map th)\<rparr>) s)"

text \<open>The message was allocated by the analyser. Ids with one of the upper 16 bits set are forwarded
  without a check.\<close>

definition special_id :: "u64 \<Rightarrow> bool" where
  "special_id i \<longleftrightarrow> i AND 0xFFFF000000000000 \<noteq> 0"

definition read_trans :: "'u env \<Rightarrow> nat \<Rightarrow> u64 \<Rightarrow> 'u comet \<Rightarrow> 'u comet res" where
  "read_trans e t i s =
     (case get_trans_data (analyser (thr t s)) of
        (td, a) \<Rightarrow>
          let s = on_thr t (\<lambda>th. th\<lparr>analyser := a\<rparr>) s
          in case td of
               None \<Rightarrow> Inr s
             | Some td \<Rightarrow>
                 bind_res (new_message (td\<lparr>td_msg_type := Some 0, td_work_thread := Some t\<rparr>) s) (\<lambda>(p, s).
                 if i \<noteq> 0 \<and> td_from_id td = Some i then
                   if special_id i \<or> special_id (td_to_id td) then
                     bind_res (send_message e t p s) (\<lambda>(ok, s). if ok then Inr s else delete_message p s)
                   else bind_res (zscore_cmd (td_from_id td) (td_to_id td)) (\<lambda>cmd.
                          redisAsyncCommand e t (TransCb p) cmd s)
                 else delete_message p s))"

text \<open>The loop of \<open>bufferevent_read_callback\<close>; the fuel is the number of bytes and one.\<close>

primrec read_loop :: "'u env \<Rightarrow> nat \<Rightarrow> ptr \<Rightarrow> u64 \<Rightarrow> nat \<Rightarrow> 'u comet \<Rightarrow> 'u comet res" where
  "read_loop e t bev i 0 s = Inl Diverged"
| "read_loop e t bev i (Suc n) s =
     bind_res (bev_at bev s) (\<lambda>b.
     if evbuffer_get_length (bev_input b) > 3 then
       bind_res (analyse_data (lib e) (analyser (thr t s)) (bev_input b) (bev_output b)) (\<lambda>(r, a, input, output).
       let s = set_bev bev (b\<lparr>bev_input := input, bev_output := output\<rparr>) (on_thr t (\<lambda>th. th\<lparr>analyser := a\<rparr>) s)
       in if \<not> r then Inr s
          else bind_res (read_login e t bev s) (\<lambda>s.
               bind_res (read_trans e t i (read_heart e t i s)) (read_loop e t bev i n)))
     else Inr s)"

definition bufferevent_read_callback :: "'u env \<Rightarrow> nat \<Rightarrow> ptr \<Rightarrow> 'u comet \<Rightarrow> 'u comet res" where
  "bufferevent_read_callback e t bev s =
     (let i = (case bev_id (thr t s) bev of None \<Rightarrow> 0 | Some i \<Rightarrow> i)
      in bind_res (bev_at bev s) (\<lambda>b.
           read_loop e t bev i (Suc (evbuffer_get_length (bev_input b))) s))"

definition bufferevent_event_callback :: "'u env \<Rightarrow> nat \<Rightarrow> ptr \<Rightarrow> u16 \<Rightarrow> 'u comet \<Rightarrow> 'u comet res" where
  "bufferevent_event_callback e t bev events s =
     (if events AND (BEV_EVENT_EOF OR BEV_EVENT_ERROR) \<noteq> 0 then
        let i = (case bev_id (thr t s) bev of None \<Rightarrow> 0 | Some i \<Rightarrow> i);
            s = (if bev_id (thr t s) bev \<noteq> None
                 then on_thr t (\<lambda>th. th\<lparr>sub_map := (sub_map th)(i := None), bev_id := (bev_id th)(bev := None)\<rparr>) s
                 else s);
            s = on_thr t (\<lambda>th. th\<lparr>conn_num := c_int (conn_num th - 1)\<rparr>) s
        in bind_res (bufferevent_free bev s) (send_offline e t i)
      else Inr s)"

section \<open>Login\<close>

text \<open>Subscriber and connection that the id had in this worker are dropped.\<close>

definition drop_login :: "nat \<Rightarrow> u64 \<Rightarrow> 'u comet \<Rightarrow> 'u comet res" where
  "drop_login w i s =
     (case sub_map (thr w s) i of
        None \<Rightarrow> Inr s
      | Some sub \<Rightarrow>
          bind_res (if bev_id (thr w s) (get_bev sub) \<noteq> None then
                      bind_res (bufferevent_free (get_bev sub) s) (\<lambda>s.
                        Inr (on_thr w (\<lambda>th. th\<lparr>bev_id := (bev_id th)(get_bev sub := None)\<rparr>) s))
                    else Inr s) (\<lambda>s.
            Inr (on_thr w (\<lambda>th. th\<lparr>sub_map := (sub_map th)(i := None)\<rparr>) s)))"

text \<open>The connection gets the id, the id a subscriber, and the friends are asked for.\<close>

definition login_success :: "'u env \<Rightarrow> nat \<Rightarrow> u64 \<Rightarrow> ptr \<Rightarrow> 'u comet \<Rightarrow> (bytes \<times> 'u comet) res" where
  "login_success e w i bev s =
     bind_res (get_login_rsp (lib e) (junk e) (analyser (thr w s)) True (cstr ''200 ok'') (ping_time (thr w s)))
       (\<lambda>(rsp_data, a).
     let s = on_thr w (\<lambda>th. th\<lparr>analyser := a, bev_id := (bev_id th)(bev \<mapsto> i),
               sub_map := (if sub_map th i = None
                           then (sub_map th)(i \<mapsto> set_id_bev (now e) i bev Subscriber_new) else sub_map th)\<rparr>) s
     in bind_res (redisAsyncCommand e w (OnlineCb \<lparr>on_id = i, on_bev = bev, on_work_thread = w\<rparr>) (zrange_cmd i) s) (\<lambda>s.
          Inr (rsp_data, s)))"

definition login_failure :: "'u env \<Rightarrow> nat \<Rightarrow> bytes \<Rightarrow> 'u comet \<Rightarrow> (bytes \<times> 'u comet) res" where
  "login_failure e w msg s =
     bind_res (get_login_rsp (lib e) (junk e) (analyser (thr w s)) False msg (ping_time (thr w s))) (\<lambda>(rsp_data, a).
       Inr (rsp_data, on_thr w (\<lambda>th. th\<lparr>analyser := a\<rparr>) s))"

text \<open>The other workers are told to drop the id; \<open>skip\<close> says for which worker the call is left out.\<close>

definition notify_del_all :: "'u env \<Rightarrow> (nat \<Rightarrow> bool) \<Rightarrow> nat \<Rightarrow> u64 \<Rightarrow> 'u comet \<Rightarrow> 'u comet res" where
  "notify_del_all e skip n i s =
     fold_res (\<lambda>j s. bind_res (read_at (threads s) j) (\<lambda>_. if skip j then Inr s else notify_del_id e j i s)) [0..<n] s"

definition http_connect :: "'u env \<Rightarrow> bev_ctx \<Rightarrow> 'u comet \<Rightarrow> (bool \<times> 'u comet) res" where
  "http_connect e ctx s =
     bind_res (bufferevent_socket_new e ctx s) (\<lambda>(bev, s).
     if connects e then Inr (True, s)
     else bind_res (bufferevent_free bev s) (\<lambda>s. Inr (False, s)))"

definition http_login_check :: "'u env \<Rightarrow> LoginData \<Rightarrow> 'u comet \<Rightarrow> (bool \<times> 'u comet) res" where
  "http_login_check e ld s = http_connect e (LoginCtx ld) s"

definition login_origin :: "LoginData \<Rightarrow> (nat \<times> ptr) res" where
  "login_origin ld =
     (case (ld_work_thread ld, ld_bev ld) of (Some w, Some bev) \<Rightarrow> Inr (w, bev) | _ \<Rightarrow> Inl UninitialisedRead)"

definition redis_login_callback :: "'u env \<Rightarrow> redisReply option \<Rightarrow> LoginData \<Rightarrow> 'u comet \<Rightarrow> 'u comet res" where
  "redis_login_callback e reply ld s =
     bind_res (login_origin ld) (\<lambda>(w, bev).
     bind_res (read_at (threads s) w) (\<lambda>_.
     if bev_id (thr w s) bev = None then Inr s
     else case (case reply of None \<Rightarrow> None | Some r \<Rightarrow> reply_str r) of
       None \<Rightarrow> bind_res (http_login_check e ld s) (\<lambda>(_, s). Inr s)
     | Some str \<Rightarrow>
         if c_string (ld_token ld) = c_string str then
           if (case sub_map (thr w s) (ld_id ld) of None \<Rightarrow> False | Some sub \<Rightarrow> get_bev sub = bev) then Inr s
           else
             bind_res (drop_login w (ld_id ld) s) (\<lambda>s.
             bind_res (notify_del_all e (\<lambda>j. j = w) (work_thread_num (thr w s)) (ld_id ld) s) (\<lambda>s.
             bind_res (login_success e w (ld_id ld) bev s) (\<lambda>(rsp_data, s).
             bind_res (write_output bev rsp_data s) (\<lambda>(_, s). Inr s))))
         else
           bind_res (login_failure e w (cstr ''wrong id or token'') s) (\<lambda>(rsp_data, s).
           bind_res (write_output bev rsp_data s) (\<lambda>(_, s). Inr s))))"

text \<open>The whole input of the HTTP connection with a NUL behind it, and its length.\<close>

definition http_text :: "ptr \<Rightarrow> 'u comet \<Rightarrow> (bytes \<times> nat \<times> 'u comet) res" where
  "http_text bev s =
     bind_res (bev_at bev s) (\<lambda>b.
     let n = c_int (int (evbuffer_get_length (bev_input b)))
     in if n < 0 then Inl NegativeSize
        else bind_res (evbuffer_remove (nat n) (bev_input b)) (\<lambda>(got, input).
             case got of
               None \<Rightarrow> Inl UninitialisedRead
             | Some d \<Rightarrow>
                 if length d < nat n then Inl UninitialisedRead
                 else Inr (d @ [0], nat n, set_bev bev (b\<lparr>bev_input := input\<rparr>) s)))"

text \<open>The part of \<open>http_login_read\<close> that answers a client that is still connected.\<close>

definition http_login_answer ::
  "'u env \<Rightarrow> nat \<Rightarrow> ptr \<Rightarrow> u64 \<Rightarrow> bytes \<Rightarrow> nat \<Rightarrow> 'u comet \<Rightarrow> 'u comet res" where
  "http_login_answer e w client i data len s =
     (if bev_id (thr w s) client \<noteq> None then
        bind_res (analyse_login_data (lib e) (analyser (thr w s)) data len) (\<lambda>(r, a).
        let s = on_thr w (\<lambda>th. th\<lparr>analyser := a\<rparr>) s
        in bind_res
             (if r then
                bind_res (drop_login w i s) (\<lambda>s.
                bind_res (notify_del_all e (\<lambda>_. False) (work_thread_num (thr w s)) i s) (\<lambda>s.
                  login_success e w i client s))
              else login_failure e w (cstr ''wrong id or token'') s) (\<lambda>(rsp_data, s).
           bind_res (write_output client rsp_data s) (\<lambda>(_, s). Inr s)))
      else Inr s)"

definition http_login_read :: "'u env \<Rightarrow> ptr \<Rightarrow> LoginData \<Rightarrow> 'u comet \<Rightarrow> 'u comet res" where
  "http_login_read e bev ld s =
     bind_res (http_text bev s) (\<lambda>(data, len, s).
     bind_res (login_origin ld) (\<lambda>(w, client).
     bind_res (read_at (threads s) w) (\<lambda>_.
     bind_res (http_login_answer e w client (ld_id ld) data len s) (bufferevent_free bev))))"

text \<open>The connection is looked up under the id of the login.\<close>

definition http_login_event :: "'u env \<Rightarrow> ptr \<Rightarrow> u16 \<Rightarrow> LoginData \<Rightarrow> 'u comet \<Rightarrow> 'u comet res" where
  "http_login_event e bev events ld s =
     bind_res (login_origin ld) (\<lambda>(w, client).
     bind_res (read_at (threads s) w) (\<lambda>_.
     if events AND (BEV_EVENT_EOF OR BEV_EVENT_ERROR) \<noteq> 0 then
       bind_res
         (if bev_id (thr w s) (unat (ld_id ld)) \<noteq> None then
            bind_res (login_failure e w (cstr ''http server error'') s) (\<lambda>(rsp_data, s).
            bind_res (write_output client rsp_data s) (\<lambda>(_, s). Inr s))
          else Inr s) (bufferevent_free bev)
     else if events AND BEV_EVENT_CONNECTED \<noteq> 0 then
       bind_res (get_login_post_data (lib e) (analyser (thr w s)) (ld_id ld) (ld_token ld) (http_url (thr w s))
                  (map (junk e) [0..<1024])) (\<lambda>(buffer, len, a).
       bind_res (write_output bev (take len buffer) (on_thr w (\<lambda>th. th\<lparr>analyser := a\<rparr>) s)) (\<lambda>(ok, s).
       if ok then Inr s else bufferevent_free bev s))
     else Inr s))"

section \<open>Transfer\<close>

definition http_trans_check :: "'u env \<Rightarrow> ptr \<Rightarrow> 'u comet \<Rightarrow> (bool \<times> 'u comet) res" where
  "http_trans_check e p s = http_connect e (TransCtx p) s"

definition trans_origin :: "ptr \<Rightarrow> 'u comet \<Rightarrow> (TransData \<times> nat) res" where
  "trans_origin p s =
     bind_res (message_at p s) (\<lambda>td.
     case td_work_thread td of
       None \<Rightarrow> Inl UninitialisedRead
     | Some w \<Rightarrow> bind_res (read_at (threads s) w) (\<lambda>_. Inr (td, w)))"

definition REDIS_REPLY_STRING :: int where "REDIS_REPLY_STRING = 1"
definition REDIS_REPLY_ARRAY :: int where "REDIS_REPLY_ARRAY = 2"

text \<open>The reply is dereferenced before anything is tested.\<close>

definition redis_trans_callback :: "'u env \<Rightarrow> redisReply option \<Rightarrow> ptr \<Rightarrow> 'u comet \<Rightarrow> 'u comet res" where
  "redis_trans_callback e reply p s =
     bind_res (trans_origin p s) (\<lambda>(td, w).
     case reply of
       None \<Rightarrow> Inl NullDeref
     | Some r \<Rightarrow>
         if reply_type r \<noteq> REDIS_REPLY_STRING then
           bind_res (http_trans_check e p s) (\<lambda>(ok, s). if ok then Inr s else delete_message p s)
         else
           bind_res (offer_message e p [0..<work_thread_num (thr w s)] s) (\<lambda>(ok, s).
           if ok then Inr s else delete_message p s))"

definition http_trans_read :: "'u env \<Rightarrow> ptr \<Rightarrow> ptr \<Rightarrow> 'u comet \<Rightarrow> 'u comet res" where
  "http_trans_read e bev p s =
     bind_res (http_text bev s) (\<lambda>(data, len, s).
     bind_res (trans_origin p s) (\<lambda>(td, w).
     bind_res (analyse_relation_data (lib e) (analyser (thr w s)) data len) (\<lambda>(r, a).
     let s = on_thr w (\<lambda>th. th\<lparr>analyser := a\<rparr>) s
     in bind_res
          (if r then
             bind_res (offer_message e p [0..<work_thread_num (thr w s)] s) (\<lambda>(ok, s).
             if ok then Inr s else delete_message p s)
           else delete_message p s) (bufferevent_free bev))))"

definition http_trans_event :: "'u env \<Rightarrow> ptr \<Rightarrow> u16 \<Rightarrow> ptr \<Rightarrow> 'u comet \<Rightarrow> 'u comet res" where
  "http_trans_event e bev events p s =
     bind_res (trans_origin p s) (\<lambda>(td, w).
     if events AND (BEV_EVENT_EOF OR BEV_EVENT_ERROR) \<noteq> 0 then
       bind_res (delete_message p s) (bufferevent_free bev)
     else if events AND BEV_EVENT_CONNECTED \<noteq> 0 then
       (case td_from_id td of
          None \<Rightarrow> Inl UninitialisedRead
        | Some from \<Rightarrow>
            bind_res (get_relation_post_data (lib e) (analyser (thr w s)) from (td_to_id td) (http_url (thr w s))
                       (map (junk e) [0..<1024])) (\<lambda>(buffer, len, a).
            bind_res (write_output bev (take len buffer) (on_thr w (\<lambda>th. th\<lparr>analyser := a\<rparr>) s)) (\<lambda>(ok, s).
            if ok then Inr s
            else bind_res (bufferevent_free bev s) (delete_message p))))
     else Inr s)"

section \<open>Status of friends\<close>

text \<open>\<open>atoll\<close>, which saturates.\<close>

definition is_digit :: "byte \<Rightarrow> bool" where
  "is_digit c \<longleftrightarrow> 48 \<le> c \<and> c \<le> 57"

definition is_space :: "byte \<Rightarrow> bool" where
  "is_space c \<longleftrightarrow> c = 32 \<or> 9 \<le> c \<and> c \<le> 13"

definition atoll :: "bytes \<Rightarrow> int" where
  "atoll bs =
     (let s = dropWhile is_space (c_string bs);
          neg = (s \<noteq> [] \<and> hd s = 45);
          ds = takeWhile is_digit (if s \<noteq> [] \<and> (hd s = 45 \<or> hd s = 43) then tl s else s);
          n = foldl (\<lambda>a c. a * 10 + (uint c - 48)) 0 ds
      in max (- (2 ^ 63)) (min (2 ^ 63 - 1) (if neg then - n else n)))"

definition OnlineStatus_add_id_cstr :: "bytes \<Rightarrow> 'u OnlineStatus \<Rightarrow> 'u OnlineStatus" where
  "OnlineStatus_add_id_cstr v m = OnlineStatus_add_id (c_string v) m"

text \<open>The packet that announces the own status. The destination has 29 bytes: the length it should
  have is still zero when the array is declared.\<close>

definition status_packet :: "'u env \<Rightarrow> nat \<Rightarrow> u64 \<Rightarrow> byte \<Rightarrow> 'u comet \<Rightarrow> (bytes \<times> nat \<times> 'u comet) res" where
  "status_packet e w i on_line s =
     (let m = OnlineStatus_Clear (wire (lib e)) (me_status (thr w s));
          m = OnlineStatus_add_id_cstr (fmt_ld i) m;
          m = OnlineStatus_set_status [on_line] m;
          (src_len, m) = OnlineStatus_ByteSize (wire (lib e)) m;
          src = (case OnlineStatus_SerializeToArray (lib e) m src_len of
                   None \<Rightarrow> map (junk e) [0..<src_len] | Some d \<Rightarrow> d);
          des_len = 0
      in bind_res (pack_data src 12 (map (junk e) [0..<29 + des_len])) (\<lambda>(des, des_len).
           Inr (des, des_len, on_thr w (\<lambda>th. th\<lparr>me_status := m\<rparr>) s)))"

primrec find_online :: "u64 \<Rightarrow> nat list \<Rightarrow> 'u comet \<Rightarrow> nat option res" where
  "find_online i [] s = Inr None"
| "find_online i (j # js) s =
     bind_res (read_at (threads s) j) (\<lambda>_.
     if check_id_is_online j i s then Inr (Some j) else find_online i js s)"

text \<open>The message for one friend; \<open>delete_failed\<close> tells the two loops apart: only the first one
  deletes a message that could not be sent.\<close>

definition tell_friend ::
  "'u env \<Rightarrow> nat \<Rightarrow> u64 \<Rightarrow> bytes \<Rightarrow> bool \<Rightarrow> u64 \<Rightarrow> 'u comet \<Rightarrow> (byte \<times> 'u comet) res" where
  "tell_friend e w i packet_data delete_failed to_id s =
     bind_res (find_online to_id [0..<work_thread_num (thr w s)] s) (\<lambda>found.
     case found of
       None \<Rightarrow> Inr (0, s)
     | Some j \<Rightarrow>
         bind_res (new_message \<lparr>td_from_id = Some i, td_to_id = to_id, td_work_thread = None, td_msg_type = Some 0,
                     td_data_size = Some (int (length packet_data)), td_data = packet_data\<rparr> s) (\<lambda>(p, s).
         bind_res (notify_new_msg e j p s) (\<lambda>(ok, s).
         bind_res (if ok \<or> \<not> delete_failed then Inr s else delete_message p s) (\<lambda>s. Inr (1, s)))))"

primrec online_friends :: "'u env \<Rightarrow> nat \<Rightarrow> u64 \<Rightarrow> bytes \<Rightarrow> redisReply list \<Rightarrow> 'u comet \<Rightarrow> (bytes \<times> 'u comet) res" where
  "online_friends e w i packet_data [] s = Inr ([], s)"
| "online_friends e w i packet_data (r # rs) s =
     (case reply_str r of
        None \<Rightarrow> Inl NullDeref
      | Some str \<Rightarrow>
          bind_res (tell_friend e w i packet_data True (word_of_int (atoll str))
                     (on_thr w (\<lambda>th. th\<lparr>online_status := OnlineStatus_add_id_cstr str (online_status th)\<rparr>) s)) (\<lambda>(st, s).
          bind_res (online_friends e w i packet_data rs s) (\<lambda>(sts, s). Inr (st # sts, s))))"

primrec offline_friends :: "'u env \<Rightarrow> nat \<Rightarrow> u64 \<Rightarrow> bytes \<Rightarrow> redisReply list \<Rightarrow> 'u comet \<Rightarrow> 'u comet res" where
  "offline_friends e w i packet_data [] s = Inr s"
| "offline_friends e w i packet_data (r # rs) s =
     (case reply_str r of
        None \<Rightarrow> Inl NullDeref
      | Some str \<Rightarrow>
          bind_res (tell_friend e w i packet_data False (word_of_int (atoll str)) s) (\<lambda>(_, s).
            offline_friends e w i packet_data rs s))"

definition friend_list :: "redisReply option \<Rightarrow> redisReply list" where
  "friend_list reply =
     (case reply of None \<Rightarrow> []
      | Some r \<Rightarrow> if reply_type r \<noteq> REDIS_REPLY_ARRAY then [] else reply_element r)"

text \<open>The list of the friends with their status, sent to the client that logged in.\<close>

definition send_friend_status :: "'u env \<Rightarrow> nat \<Rightarrow> ptr \<Rightarrow> bytes \<Rightarrow> 'u comet \<Rightarrow> 'u comet res" where
  "send_friend_status e w bev str_status s =
     (let m = OnlineStatus_set_status str_status (online_status (thr w s));
          (src_len, m) = OnlineStatus_ByteSize (wire (lib e)) m;
          src = (case OnlineStatus_SerializeToArray (lib e) m src_len of
                   None \<Rightarrow> map (junk e) [0..<src_len] | Some d \<Rightarrow> d)
      in bind_res (pack_data src 12 (map (junk e) [0..<29 + src_len])) (\<lambda>(des, des_len).
         bind_res (write_output bev (take des_len des) (on_thr w (\<lambda>th. th\<lparr>online_status := m\<rparr>) s)) (\<lambda>(_, s). Inr s)))"

definition redis_online_notify :: "'u env \<Rightarrow> redisReply option \<Rightarrow> OnlineInfo \<Rightarrow> 'u comet \<Rightarrow> 'u comet res" where
  "redis_online_notify e reply info s =
     (let w = on_work_thread info
      in if friend_list reply = [] then Inr s
         else bind_res (read_at (threads s) w) (\<lambda>th.
              if bev_id th (on_bev info) = None then Inr s
              else
                let s = on_thr w (\<lambda>th. th\<lparr>online_status := OnlineStatus_Clear (wire (lib e)) (online_status th)\<rparr>) s
                in bind_res (status_packet e w (on_id info) 1 s) (\<lambda>(des, des_len, s).
                   bind_res (online_friends e w (on_id info) (take des_len des) (friend_list reply) s) (\<lambda>(str_status, s).
                     send_friend_status e w (on_bev info) str_status s))))"

definition redis_offline_notify :: "'u env \<Rightarrow> redisReply option \<Rightarrow> OfflineInfo \<Rightarrow> 'u comet \<Rightarrow> 'u comet res" where
  "redis_offline_notify e reply info s =
     (let w = off_work_thread info
      in if friend_list reply = [] then Inr s
         else bind_res (read_at (threads s) w) (\<lambda>_.
              bind_res (status_packet e w (off_id info) 0 s) (\<lambda>(des, des_len, s).
                offline_friends e w (off_id info) (take des_len des) (friend_list reply) s)))"

section \<open>Start and redis connection\<close>

text \<open>\<open>fcntl\<close> is given by its results for \<open>F_GETFL\<close> and \<open>F_SETFL\<close>.\<close>

definition O_NONBLOCK :: "32 word" where
  "O_NONBLOCK = 2048"

definition setnonblock :: "int \<Rightarrow> (int \<Rightarrow> int) \<Rightarrow> bool" where
  "setnonblock getfl setfl \<longleftrightarrow>
     (if getfl = -1 then False
      else if setfl (sint (word_of_int getfl OR O_NONBLOCK)) = -1 then False
      else True)"

text \<open>What the system calls of \<open>init_work\<close> return; the pipes are 0 and 1, with the ends 0 and 1.\<close>

record init_os =
  os_pipe :: "nat \<Rightarrow> int"
  os_getfl :: "nat \<Rightarrow> nat \<Rightarrow> int"
  os_setfl :: "nat \<Rightarrow> nat \<Rightarrow> int \<Rightarrow> int"
  os_event_base :: bool
  os_event_new :: "nat \<Rightarrow> bool"
  os_event_add :: "nat \<Rightarrow> int"

definition pipe_ready :: "init_os \<Rightarrow> nat \<Rightarrow> bool" where
  "pipe_ready os k \<longleftrightarrow> os_pipe os k = 0
     \<and> setnonblock (os_getfl os k 0) (os_setfl os k 0) \<and> setnonblock (os_getfl os k 1) (os_setfl os k 1)"

text \<open>A failure to add the second event is logged and not reported.\<close>

definition init_work ::
  "init_os \<Rightarrow> int \<Rightarrow> nat \<Rightarrow> int \<Rightarrow> bytes \<Rightarrow> bytes \<Rightarrow> 'u work_thread \<Rightarrow> bool \<times> 'u work_thread" where
  "init_work os num thread_num ping url ip th =
     (if \<not> pipe_ready os 0 then (False, th)
      else let th = th\<lparr>new_conn_fd := []\<rparr>
      in if \<not> pipe_ready os 1 then (False, th)
      else let th = th\<lparr>new_msg_fd := [], work_num := num, work_thread_num := thread_num, ping_time := ping,
                       http_url := url, http_ip := ip\<rparr>
      in if \<not> os_event_base os then (False, th)
      else let th = th\<lparr>loop_broken := False\<rparr>
      in if \<not> os_event_new os 0 then (False, th)
      else if os_event_add os 0 \<noteq> 0 then (False, th)
      else if \<not> os_event_new os 1 then (False, th)
      else (True, th))"

text \<open>The context that \<open>redisAsyncConnect\<close> returns: \<open>None\<close> is null, \<open>Some err\<close> has the flag \<open>err\<close>.\<close>

definition asy_open_redis :: "bool \<Rightarrow> bool option \<Rightarrow> int \<Rightarrow> 'u work_thread \<Rightarrow> (bool \<times> 'u work_thread) res" where
  "asy_open_redis accepts context db_num th =
     (case context of
        None \<Rightarrow> Inl NullDeref
      | Some err \<Rightarrow>
          if err then Inr (False, th\<lparr>redis := Some []\<rparr>)
          else Inr (True, th\<lparr>redis := Some (if accepts
             then [\<lparr>rc_text = cstr ''SELECT '' @ dec_int db_num, rc_cb = NoCb\<rparr>] else [])\<rparr>))"

definition SIGUSR1 :: int where "SIGUSR1 = 10"
definition SIGTERM :: int where "SIGTERM = 15"

definition redis_connect_callback :: "int \<Rightarrow> 'u comet \<Rightarrow> 'u comet" where
  "redis_connect_callback status s = (if status \<noteq> 0 then s\<lparr>kills := kills s @ [SIGTERM]\<rparr> else s)"

definition redis_disconnect_callback :: "int \<Rightarrow> 'u comet \<Rightarrow> 'u comet" where
  "redis_disconnect_callback status s = s\<lparr>kills := kills s @ [SIGUSR1]\<rparr>"

section \<open>The event loop\<close>

text \<open>Which callback the loop of a worker runs. A bufferevent that was freed calls back no more; the
  replies of redis arrive in the order of the commands.\<close>

datatype 'u comet_event =
    ConnPipe nat "'u comet \<Rightarrow> ptr list"
  | MsgPipe nat
  | BevRead ptr
  | BevEvent ptr u16
  | RedisReply nat "redisReply option"
  | RedisConnect int
  | RedisDisconnect int

definition redis_answer :: "'u env \<Rightarrow> redis_cb \<Rightarrow> redisReply option \<Rightarrow> 'u comet \<Rightarrow> 'u comet res" where
  "redis_answer e cb reply s =
     (case cb of
        LoginCb ld \<Rightarrow> redis_login_callback e reply ld s
      | TransCb p \<Rightarrow> redis_trans_callback e reply p s
      | OnlineCb info \<Rightarrow> redis_online_notify e reply info s
      | OfflineCb info \<Rightarrow> redis_offline_notify e reply info s
      | NoCb \<Rightarrow> Inr s)"

fun dispatch :: "'u env \<Rightarrow> 'u comet_event \<Rightarrow> 'u comet \<Rightarrow> 'u comet res" where
  "dispatch e (ConnPipe t keys) s = (if t < length (threads s) then notify_new_conn_callback e t keys s else Inr s)"
| "dispatch e (MsgPipe t) s = (if t < length (threads s) then notify_new_msg_callback t s else Inr s)"
| "dispatch e (BevRead p) s =
     (case bevs s p of
        None \<Rightarrow> Inr s
      | Some b \<Rightarrow>
          (case bev_ctx b of
             ClientCtx t \<Rightarrow> if t < length (threads s) then bufferevent_read_callback e t p s else Inr s
           | LoginCtx ld \<Rightarrow> http_login_read e p ld s
           | TransCtx m \<Rightarrow> http_trans_read e p m s))"
| "dispatch e (BevEvent p events) s =
     (case bevs s p of
        None \<Rightarrow> Inr s
      | Some b \<Rightarrow>
          (case bev_ctx b of
             ClientCtx t \<Rightarrow> if t < length (threads s) then bufferevent_event_callback e t p events s else Inr s
           | LoginCtx ld \<Rightarrow> http_login_event e p events ld s
           | TransCtx m \<Rightarrow> http_trans_event e p events m s))"
| "dispatch e (RedisReply t reply) s =
     (if t < length (threads s) then
        (case redis (thr t s) of
           Some (c # cs) \<Rightarrow> redis_answer e (rc_cb c) reply (on_thr t (\<lambda>th. th\<lparr>redis := Some cs\<rparr>) s)
         | _ \<Rightarrow> Inr s)
      else Inr s)"
| "dispatch e (RedisConnect status) s = Inr (redis_connect_callback status s)"
| "dispatch e (RedisDisconnect status) s = Inr (redis_disconnect_callback status s)"

text \<open>\<open>run\<close>: the thread registers its private data and serves events until its loop is broken.\<close>

primrec serve :: "nat \<Rightarrow> ('u env \<times> 'u comet_event) list \<Rightarrow> 'u comet \<Rightarrow> 'u comet res" where
  "serve t [] s = Inr s"
| "serve t (ev # evs) s =
     (if loop_broken (thr t s) then Inr s else bind_res (dispatch (fst ev) (snd ev) s) (serve t evs))"

definition run :: "int \<Rightarrow> nat \<Rightarrow> ('u env \<times> 'u comet_event) list \<Rightarrow> 'u comet \<Rightarrow> 'u comet res" where
  "run setspecific t evs s = (if setspecific \<noteq> 0 then Inr s else serve t evs s)"

end
