(* ===== verification/Analyse_Progress.thy ===== *)
theory Analyse_Progress
  imports Analyse_Frames
begin

text \<open>
  What \<open>analyse_data\<close> guarantees on every input, well framed or not: the buffers stay usable, a
  packet that is accepted consumes input, and the only faults are those of malformed lengths.
\<close>

text \<open>The faults that would mean a broken invariant of the server.\<close>

definition mem_faults :: "fault set" where
  "mem_faults = {UseAfterFree, FreedMessage, EndIterator, AssertFailed, Diverged}"

lemma mem_faults_simps [simp]:
  "UseAfterFree \<in> mem_faults" "FreedMessage \<in> mem_faults" "EndIterator \<in> mem_faults" "AssertFailed \<in> mem_faults"
  "Diverged \<in> mem_faults" "OutOfBoundsRead \<notin> mem_faults" "BufferOverflow \<notin> mem_faults"
  "SignedOverflow \<notin> mem_faults" "NegativeSize \<notin> mem_faults" "BadAlloc \<notin> mem_faults"
  "NullDeref \<notin> mem_faults" "UninitialisedRead \<notin> mem_faults" "UncaughtException \<notin> mem_faults"
  by (simp_all add: mem_faults_def)

abbreviation sound :: "('a \<Rightarrow> bool) \<Rightarrow> 'a res \<Rightarrow> bool" where
  "sound \<equiv> res_ok mem_faults"

lemma sound_read [simp]: "sound Q (read_at xs i) \<longleftrightarrow> (i < length xs \<longrightarrow> Q (xs ! i))"
  "sound R (read_range xs i n) \<longleftrightarrow> (i + n \<le> length xs \<longrightarrow> R (take n (drop i xs)))"
  by (simp_all add: read_at_def read_range_def)

lemma c_size_pos:
  assumes "int_fits n" and "n \<noteq> 0"
  shows "0 < c_size n"
proof (cases "0 \<le> n")
  case True
  with assms show ?thesis by (simp add: int_fits_def)
next
  case False
  with assms(1) have "2 ^ 63 < c_size n" by (intro c_size_neg) (simp_all add: int_fits_def)
  then show ?thesis by simp
qed

lemma pullup_sound:
  assumes "ev_source q"
    and "\<And>p q'. ev_source q' \<Longrightarrow> ev_bytes q' = ev_bytes q \<Longrightarrow> (p \<noteq> None \<longrightarrow> ev_bytes q \<noteq> [] \<and> sz \<noteq> 0) \<Longrightarrow> Q (p, q')"
  shows "sound Q (evbuffer_pullup sz q)"
proof -
  have zero: "evbuffer_pullup 0 q = Inr (None, q)" for q by (simp add: evbuffer_pullup_def)
  define n where "n = (if sz < 0 then length (ev_bytes q) else nat sz)"
  have n: "evbuffer_pullup sz q = evbuffer_pullup (int n) q" using ev.pullup_neg [OF assms(1)] by (simp add: n_def)
  show ?thesis
  proof (cases "n = 0")
    case True
    with n zero assms show ?thesis by simp
  next
    case False
    then have "0 < n" by simp
    from assms(1) this show ?thesis
    proof (cases rule: ev.pullup_cases)
      case short
      with n assms show ?thesis by simp
    next
      case (ok p q')
      from ok(1) False have "ev_bytes q \<noteq> []" by auto
      moreover have "sz \<noteq> 0" using False by (auto simp: n_def)
      ultimately show ?thesis using n ok assms(2) by simp
    qed
  qed
qed

lemma drain_sound:
  assumes "ev_source q" and "\<And>q'. ev_source q' \<Longrightarrow> ev_bytes q' = drop n (ev_bytes q) \<Longrightarrow> Q (True, q')"
  shows "sound Q (evbuffer_drain n q)"
  using ev.drain [OF assms(1), of n] assms(2) by auto

lemma remove_sound:
  assumes "ev_source q"
    and "\<And>q'. ev_source q' \<Longrightarrow> ev_bytes q' = drop n (ev_bytes q) \<Longrightarrow> Q (Some (take n (ev_bytes q)), q')"
  shows "sound Q (evbuffer_remove n q)"
  using ev.remove [OF assms(1), of n] assms(2) by auto

lemma add_sound:
  assumes "ev_sink q" and "\<And>q'. ev_sink q' \<Longrightarrow> ev_bytes q' = ev_bytes q @ d \<Longrightarrow> Q (True, q')"
  shows "sound Q (evbuffer_add d q)"
  using ev.add [OF assms(1), of d] assms(2) by auto

lemma new_trans_data_sound: "sound (\<lambda>_. True) (new_trans_data n)"
  by (simp add: new_trans_data_def Let_def)

definition shrinks :: "evbuffer \<Rightarrow> bool \<times> 'a \<times> evbuffer \<Rightarrow> bool" where
  "shrinks q = (\<lambda>(r, a, q'). ev_source q' \<and> (r \<longrightarrow> length (ev_bytes q') < length (ev_bytes q)))"

lemma shrinks_cong: "ev_bytes q' = ev_bytes q \<Longrightarrow> shrinks q = shrinks q'"
  by (simp add: shrinks_def)

lemma analyse_trans_pack_sound:
  assumes "ev_source q" and "ev_bytes q \<noteq> []" and "0 < c_size n"
  shows "sound (shrinks q) (analyse_trans_pack a q bag n)"
  unfolding analyse_trans_pack_def
  by (rule res_ok_bindI [OF new_trans_data_sound])
    (simp add: res_ok_bind, intro impI remove_sound [OF assms(1)], use assms(2,3) in \<open>simp add: shrinks_def\<close>)

lemma analyse_property_pack_sound:
  assumes "ev_source q" and "ev_bytes q \<noteq> []" and "0 < c_size (int h + int dh + l)"
  shows "sound (shrinks q) (analyse_property_pack pb a q bag h dh l)"
proof -
  have "sound (shrinks q) (bind_res (evbuffer_drain (c_size (int h + int dh + l)) q) (\<lambda>(_, q). Inr (r, a', q)))"
    for r and a' :: "'a analyse_req"
    unfolding res_ok_bind by (rule drain_sound [OF assms(1)]) (use assms(2,3) in \<open>simp add: shrinks_def\<close>)
  then show ?thesis
    unfolding analyse_property_pack_def by (simp add: res_ok_bind Let_def analyse_login_pack_def)
qed

lemma analyse_pack_sound:
  assumes "ev_source q" and "int_fits (int h + int dh + l)"
  shows "sound (shrinks q) (analyse_pack pb a q h dh l)"
  unfolding analyse_pack_def Let_def res_ok_bind
proof (rule pullup_sound [OF assms(1)], goal_cases)
  case (1 p q')
  show ?case
  proof (cases p)
    case None
    with 1 show ?thesis by (simp add: shrinks_def)
  next
    case (Some bag)
    with 1 have ne: "ev_bytes q' \<noteq> []" and pos: "0 < c_size (int h + int dh + l)"
      using c_size_pos [OF assms(2)] by auto
    from Some show ?thesis
      by (simp add: res_ok_bind shrinks_cong [OF 1(2)] analyse_trans_pack_sound [OF 1(1) ne pos]
          analyse_property_pack_sound [OF 1(1) ne pos])
  qed
qed

lemma read_data_len_sound:
  assumes "ev_source q"
  shows "sound (\<lambda>(len, q'). ev_source q' \<and> ev_bytes q' = ev_bytes q) (read_data_len n h q)"
  unfolding read_data_len_def res_ok_bind
proof (rule pullup_sound [OF assms], goal_cases)
  case (1 p q')
  have "sound (\<lambda>(len, q'). ev_source q' \<and> ev_bytes q' = ev_bytes q)
      (bind_res (evbuffer_pullup (int h + 9) q') (\<lambda>(data, input).
         case data of None \<Rightarrow> Inr (None, input)
         | Some data \<Rightarrow> bind_res (read_range data (h + 5) 4) (\<lambda>p. Inr (Some (c_int (int (be_nat p)), 9), input))))"
    unfolding res_ok_bind
    by (rule pullup_sound [OF 1(1)]) (use 1 in \<open>auto simp: res_ok_bind split: option.split\<close>)
  with 1 show ?case by (auto simp: res_ok_bind split: option.split)
qed

lemma analyse_data_sound:
  assumes q: "ev_source q" and out: "ev_sink out"
  shows "sound (\<lambda>(r, a', q', out'). ev_source q' \<and> ev_sink out' \<and> (r \<longrightarrow> length (ev_bytes q') < length (ev_bytes q)))
    (analyse_data pb a q out)"
  unfolding analyse_data_def Let_def res_ok_bind
proof (rule pullup_sound [OF q], goal_cases)
  case (1 p q1)
  then show ?case
  proof (cases p)
    case (Some data)
    with 1 have ne: "ev_bytes q1 \<noteq> []" by auto
    have heart: "sound (\<lambda>(r, a', q', out'). ev_source q' \<and> ev_sink out' \<and> (r \<longrightarrow> length (ev_bytes q') < length (ev_bytes q)))
        (bind_res (evbuffer_remove_buffer 4 q1 out) (\<lambda>(_, q, out). Inr (True, a\<lparr>is_heart_flag := True\<rparr>, q, out)))"
      using ev.move [OF 1(1) out, of 4] 1(2) ne by auto
    have frame: "sound (\<lambda>(r, a', q', out'). ev_source q' \<and> ev_sink out' \<and> (r \<longrightarrow> length (ev_bytes q') < length (ev_bytes q)))
        (bind_res (read_data_len n h q1) (\<lambda>(len, input).
          case len of None \<Rightarrow> Inr (False, a, input, out)
          | Some (data_len, data_head_len) \<Rightarrow>
              if \<not> int_fits (int h + int data_head_len + data_len) then Inl SignedOverflow
              else if n \<ge> int h + int data_head_len + data_len then
                bind_res (analyse_pack pb a input h data_head_len data_len) (\<lambda>(r, a, input). Inr (r, a, input, out))
              else Inr (False, a, input, out)))" for n h
    proof (rule res_ok_bindI [OF read_data_len_sound [OF 1(1)]], goal_cases)
      case (1 x)
      obtain len q2 where x: "x = (len, q2)" by (cases x)
      with 1 \<open>ev_bytes q1 = ev_bytes q\<close> have q2: "ev_source q2" "ev_bytes q2 = ev_bytes q" by auto
      have "sound (\<lambda>(r, a', q', out'). ev_source q' \<and> ev_sink out' \<and> (r \<longrightarrow> length (ev_bytes q') < length (ev_bytes q)))
          (bind_res (analyse_pack pb a q2 h dh l) (\<lambda>(r, a, input). Inr (r, a, input, out)))"
        if "int_fits (int h + int dh + l)" for dh l
        by (rule res_ok_bindI [OF analyse_pack_sound [OF q2(1) that]]) (use q2 out in \<open>auto simp: shrinks_def\<close>)
      with x q2 out show ?case by (auto split: option.split)
    qed
    from Some 1 out heart frame show ?thesis by (simp add: res_ok_bind)
  qed (use out in simp)
qed

section \<open>Packets and the account service\<close>

lemma write_all_sound [simp]: "sound (\<lambda>_. True) (write_all ws des)"
  by (cases "write_all ws des") (auto dest: write_all_fault)

lemma bind_sound:
  assumes "sound (\<lambda>_. True) r" and "\<And>x. sound Q (f x)"
  shows "sound Q (bind_res r f)"
  by (rule res_ok_bindI [OF assms(1)]) (rule assms(2))

lemma get_login_rsp_sound: "sound (\<lambda>_. True) (get_login_rsp pb h a ok msg ping)"
  unfolding get_login_rsp_def Let_def by (simp add: case_prod_beta res_ok_bind del: write_all_Cons)

lemma pack_data_sound: "sound (\<lambda>_. True) (pack_data src prop des)"
  unfolding pack_data_def Let_def by (rule bind_sound) simp_all

lemma find_body_sound: "sound (\<lambda>_. True) (find_body data n)"
  by (induction n) (auto simp: res_ok_bind read_at_def)

lemma analyse_post_data_sound: "sound (\<lambda>_. True) (analyse_post_data pb a data len)"
proof (cases "len = 0")
  case False
  then show ?thesis
    unfolding analyse_post_data_def Let_def
    by simp (rule bind_sound [OF find_body_sound], simp add: res_ok_bind read_range_def)
qed (simp add: analyse_post_data_def)

lemma analyse_login_data_sound: "sound (\<lambda>_. True) (analyse_login_data pb a data len)"
  unfolding analyse_login_data_def Let_def by (auto intro!: bind_sound [OF analyse_post_data_sound] split: prod.split)

lemma analyse_relation_data_sound: "sound (\<lambda>_. True) (analyse_relation_data pb a data len)"
  unfolding analyse_relation_data_def Let_def by (auto intro!: bind_sound [OF analyse_post_data_sound] split: prod.split)

lemma post_data_sound:
  "sound (\<lambda>_. True) (get_login_post_data pb a i token url data)"
  "sound (\<lambda>_. True) (get_relation_post_data pb a i j url data)"
  unfolding get_login_post_data_def get_relation_post_data_def pack_post_data_def Let_def
  by (rule bind_sound, simp_all del: write_all_Cons)+

end
