(* ===== verification/Work_Thread_Conn.thy ===== *)
theory Work_Thread_Conn
  imports Work_Thread Analyse_Progress
begin

text \<open>
  Connections are used safely. The invariant \<open>conn_inv\<close> says that every live bufferevent has usable
  buffers, that the connections a worker lists are live and its own, that the connection of a
  subscriber is listed under the id of the subscriber, and that every message has a type. Each callback
  keeps it and never touches a freed bufferevent, with the exceptions that \<open>disciplined\<close> names.
\<close>

section \<open>The state\<close>

lemma thr_on_thr: "thr t (on_thr w f s) = (if t = w \<and> w < length (threads s) then f (thr w s) else thr t s)"
  by (cases "w < length (threads s)") (auto simp: thr_def on_thr_def nth_list_update list_update_beyond)

lemma on_thr_fields [simp]:
  "bevs (on_thr t f s) = bevs s" "messages (on_thr t f s) = messages s" "arena (on_thr t f s) = arena s"
  "kills (on_thr t f s) = kills s" "length (threads (on_thr t f s)) = length (threads s)"
  by (simp_all add: on_thr_def)

lemma thr_others [simp]:
  "thr t (s\<lparr>bevs := b\<rparr>) = thr t s" "thr t (s\<lparr>messages := m\<rparr>) = thr t s" "thr t (s\<lparr>arena := ps\<rparr>) = thr t s"
  "thr t (s\<lparr>kills := k\<rparr>) = thr t s" "thr t (set_bev p b' s) = thr t s" "thr t (set_message p td s) = thr t s"
  by (simp_all add: thr_def set_bev_def set_message_def)

lemma set_bev_fields [simp]:
  "bevs (set_bev p b s) = (bevs s)(p \<mapsto> b)" "messages (set_bev p b s) = messages s" "threads (set_bev p b s) = threads s"
  "arena (set_bev p b s) = arena s"
  by (simp_all add: set_bev_def)

lemma malloc_Some:
  assumes "malloc s = Some (p, s')"
  shows "\<not> in_use s p" "s' = s\<lparr>arena := tl (arena s)\<rparr>"
  using assms by (auto simp: malloc_def split: list.splits if_splits)

section \<open>The invariant\<close>

definition conn_faults :: "fault set" where
  "conn_faults = mem_faults - {FreedMessage}"

abbreviation safe :: "('a \<Rightarrow> bool) \<Rightarrow> 'a res \<Rightarrow> bool" where
  "safe \<equiv> res_ok conn_faults"

lemma conn_faults_simps [simp]:
  "UseAfterFree \<in> conn_faults" "FreedMessage \<notin> conn_faults" "EndIterator \<in> conn_faults" "AssertFailed \<in> conn_faults"
  "Diverged \<in> conn_faults" "OutOfBoundsRead \<notin> conn_faults" "BufferOverflow \<notin> conn_faults"
  "SignedOverflow \<notin> conn_faults" "NegativeSize \<notin> conn_faults" "BadAlloc \<notin> conn_faults"
  "NullDeref \<notin> conn_faults" "UninitialisedRead \<notin> conn_faults" "UncaughtException \<notin> conn_faults"
  by (simp_all add: conn_faults_def)

lemma sound_safe: "res_ok mem_faults Q r \<Longrightarrow> safe Q r"
  by (auto simp: res_ok_def conn_faults_def split: sum.splits)

definition bev_wf :: "bufferevent \<Rightarrow> bool" where
  "bev_wf b \<longleftrightarrow> ev_source (bev_input b) \<and> ev_sink (bev_output b)"

definition typed :: "'u comet \<Rightarrow> bool" where
  "typed s \<longleftrightarrow> (\<forall>p td. messages s p = Some td \<longrightarrow> td_msg_type td \<in> {Some 0, Some 1})"

text \<open>\<open>H\<close> lists connections to the account service that have to stay live.\<close>

definition conn_inv :: "(ptr \<Rightarrow> bev_ctx option) \<Rightarrow> 'u comet \<Rightarrow> bool" where
  "conn_inv H s \<longleftrightarrow>
     (\<forall>p b. bevs s p = Some b \<longrightarrow> bev_wf b) \<and>
     (\<forall>t < length (threads s). \<forall>p i. bev_id (thr t s) p = Some i \<longrightarrow>
        (\<exists>b. bevs s p = Some b \<and> bev_ctx b = ClientCtx t)) \<and>
     (\<forall>t < length (threads s). \<forall>i sub. sub_map (thr t s) i = Some sub \<longrightarrow>
        bev_id (thr t s) (sub_bev sub) = Some i) \<and>
     typed s \<and>
     (\<forall>p c. H p = Some c \<longrightarrow> (\<forall>t. c \<noteq> ClientCtx t) \<and> (\<exists>b. bevs s p = Some b \<and> bev_ctx b = c))"

lemma conn_invD:
  assumes "conn_inv H s"
  shows "bevs s p = Some b \<Longrightarrow> bev_wf b"
    "t < length (threads s) \<Longrightarrow> bev_id (thr t s) p = Some i \<Longrightarrow> \<exists>b. bevs s p = Some b \<and> bev_ctx b = ClientCtx t"
    "t < length (threads s) \<Longrightarrow> sub_map (thr t s) i = Some sub \<Longrightarrow> bev_id (thr t s) (sub_bev sub) = Some i"
    "typed s" "H p = Some c \<Longrightarrow> (\<exists>b. bevs s p = Some b \<and> bev_ctx b = c)" "H p \<noteq> Some (ClientCtx t)"
  using assms unfolding conn_inv_def by blast+

lemma conn_invI:
  assumes "\<And>p b. bevs s p = Some b \<Longrightarrow> bev_wf b"
    and "\<And>t p i. t < length (threads s) \<Longrightarrow> bev_id (thr t s) p = Some i \<Longrightarrow> \<exists>b. bevs s p = Some b \<and> bev_ctx b = ClientCtx t"
    and "\<And>t i sub. t < length (threads s) \<Longrightarrow> sub_map (thr t s) i = Some sub \<Longrightarrow> bev_id (thr t s) (sub_bev sub) = Some i"
    and "typed s" and "\<And>p c. H p = Some c \<Longrightarrow> (\<exists>b. bevs s p = Some b \<and> bev_ctx b = c)"
    and "\<And>p t. H p \<noteq> Some (ClientCtx t)"
  shows "conn_inv H s"
  using assms unfolding conn_inv_def by blast

text \<open>Steps that leave the connections alone.\<close>

definition quiet :: "'u comet \<Rightarrow> 'u comet \<Rightarrow> bool" where
  "quiet s s' \<longleftrightarrow> bevs s' = bevs s \<and> length (threads s') = length (threads s) \<and>
     (\<forall>t < length (threads s). bev_id (thr t s') = bev_id (thr t s) \<and>
        (\<forall>i. map_option sub_bev (sub_map (thr t s') i) = map_option sub_bev (sub_map (thr t s) i))) \<and>
     (typed s \<longrightarrow> typed s')"

lemma quiet_refl [simp, intro]: "quiet s s"
  by (simp add: quiet_def)

lemma quiet_trans [trans]: "quiet s s' \<Longrightarrow> quiet s' s'' \<Longrightarrow> quiet s s''"
  by (simp add: quiet_def)

lemma quietD:
  assumes "quiet s s'"
  shows "bevs s' = bevs s" "length (threads s') = length (threads s)"
    "t < length (threads s) \<Longrightarrow> bev_id (thr t s') = bev_id (thr t s)"
    "t < length (threads s) \<Longrightarrow> map_option sub_bev (sub_map (thr t s') i) = map_option sub_bev (sub_map (thr t s) i)"
  using assms unfolding quiet_def by blast+

lemma conn_inv_quiet:
  assumes "conn_inv H s" and "quiet s s'"
  shows "conn_inv H s'"
proof (rule conn_invI)
  fix t i sub
  assume t: "t < length (threads s')" and sub: "sub_map (thr t s') i = Some sub"
  from t assms(2) have t': "t < length (threads s)" by (simp add: quietD)
  from quietD(4) [OF assms(2) t', of i] sub obtain sub0 where "sub_map (thr t s) i = Some sub0" "sub_bev sub0 = sub_bev sub"
    by (cases "sub_map (thr t s) i") auto
  with conn_invD(3) [OF assms(1) t'] quietD(3) [OF assms(2) t'] show "bev_id (thr t s') (sub_bev sub) = Some i" by fastforce
qed (use assms conn_invD [OF assms(1)] in \<open>auto simp: quiet_def\<close>)

lemma quiet_on_thr:
  assumes "\<And>th. bev_id (f th) = bev_id th" and "\<And>th i. map_option sub_bev (sub_map (f th) i) = map_option sub_bev (sub_map th i)"
  shows "quiet s (on_thr t f s)"
  using assms by (simp add: quiet_def thr_on_thr typed_def)

lemma quiet_arena [simp]: "quiet s (s\<lparr>arena := ps\<rparr>)"
  by (simp add: quiet_def typed_def)

lemma quiet_kills [simp]: "quiet s (s\<lparr>kills := ks\<rparr>)"
  by (simp add: quiet_def typed_def)

section \<open>Messages\<close>

lemma new_message_quiet:
  assumes "td_msg_type td \<in> {Some 0, Some 1}"
  shows "safe (\<lambda>(p, s'). quiet s s') (new_message td s)"
proof (cases "malloc s")
  case (Some r)
  then obtain p s' where m: "malloc s = Some (p, s')" by (cases r) simp
  have "typed (s\<lparr>arena := as, messages := (messages s)(p \<mapsto> td)\<rparr>)" if "typed s" for as
    using that assms by (simp add: typed_def)
  with m malloc_Some(2) [OF m] show ?thesis by (simp add: new_message_def quiet_def)
qed (simp add: new_message_def)

lemma message_at_safe: "safe (\<lambda>td. messages s p = Some td) (message_at p s)"
  by (simp add: message_at_def split: option.split)

lemma delete_message_quiet: "safe (quiet s) (delete_message p s)"
  by (auto simp: delete_message_def message_at_def res_ok_bind quiet_def typed_def split: option.split)

lemma notify_new_msg_quiet: "safe (\<lambda>(ok, s'). quiet s s') (notify_new_msg e t p s)"
  by (auto simp: notify_new_msg_def message_at_def res_ok_bind pipe_write_def EAGAIN_def intro!: quiet_on_thr split: option.split)

text \<open>Quiet steps in sequence.\<close>

lemma quiet_bind:
  assumes "safe (quiet s) r" and "\<And>s'. quiet s s' \<Longrightarrow> safe (quiet s') (f s')"
  shows "safe (quiet s) (bind_res r f)"
  by (rule res_ok_bindI [OF assms(1)]) (use assms(2) quiet_trans in \<open>blast intro: res_ok_mono\<close>)

lemma quiet_bind2:
  assumes "safe (\<lambda>(x, s'). quiet s s') r" and "\<And>x s'. quiet s s' \<Longrightarrow> safe (quiet s') (f (x, s'))"
  shows "safe (quiet s) (bind_res r f)"
proof (rule res_ok_bindI [OF assms(1)], clarify)
  fix x s'
  assume q: "quiet s s'"
  from assms(2) [OF this] show "safe (quiet s) (f (x, s'))"
    by (rule res_ok_mono) (rule quiet_trans [OF q])
qed

lemma quiet_bind3:
  assumes "safe (\<lambda>(x, s'). quiet s s') r" and "\<And>x s'. quiet s s' \<Longrightarrow> safe (\<lambda>(y, s''). quiet s' s'') (f (x, s'))"
  shows "safe (\<lambda>(y, s'). quiet s s') (bind_res r f)"
proof (rule res_ok_bindI [OF assms(1)], clarify)
  fix x s'
  assume q: "quiet s s'"
  from assms(2) [OF this] show "safe (\<lambda>(y, s''). quiet s s'') (f (x, s'))"
    by (rule res_ok_mono) (use q quiet_trans in auto)
qed

lemma quiet_after:
  assumes "quiet s s'" and "safe (quiet s') r"
  shows "safe (quiet s) r"
  using assms(2) by (rule res_ok_mono) (use assms(1) quiet_trans in blast)

lemma quiet_after2:
  assumes "quiet s s'" and "safe (\<lambda>(x, s''). quiet s' s'') r"
  shows "safe (\<lambda>(x, s''). quiet s s'') r"
  using assms(2) by (rule res_ok_mono) (use assms(1) quiet_trans in \<open>auto\<close>)

lemma quiet_fold:
  assumes "\<And>x s. x \<in> set xs \<Longrightarrow> safe (quiet s) (f x s)"
  shows "safe (quiet s) (fold_res f xs s)"
  by (rule fold_res_ok [where I = "quiet s"], simp) (rule quiet_after, use assms in auto)

lemma notify_del_id_quiet: "safe (quiet s) (notify_del_id e t i s)"
  by (auto simp: notify_del_id_def intro!: quiet_bind2 [OF new_message_quiet] quiet_bind2 [OF notify_new_msg_quiet]
      delete_message_quiet split: if_split)

lemma notify_del_all_quiet: "safe (quiet s) (notify_del_all e skip n i s)"
  unfolding notify_del_all_def
  by (rule quiet_fold) (auto simp: res_ok_bind read_at_def notify_del_id_quiet)

lemma offer_message_quiet: "safe (\<lambda>(ok, s'). quiet s s') (offer_message e p js s)"
proof (induction js arbitrary: s)
  case (Cons j js)
  have "safe (\<lambda>(ok, s'). quiet s s') (bind_res (notify_new_msg e j p s) (\<lambda>(ok, s).
      if ok then Inr (True, s) else offer_message e p js s))"
    by (rule quiet_bind3 [OF notify_new_msg_quiet]) (use Cons.IH in auto)
  then show ?case by (simp add: res_ok_bind [of _ _ "read_at _ _"] read_at_def)
qed simp

lemma redisAsyncCommand_quiet: "safe (quiet s) (redisAsyncCommand e t cb cmd s)"
  by (auto simp: redisAsyncCommand_def intro!: quiet_on_thr split: option.split)

lemma send_offline_quiet: "safe (quiet s) (send_offline e t i s)"
  by (simp add: send_offline_def redisAsyncCommand_quiet)

section \<open>Bufferevents\<close>

lemma bev_at_live: "bevs s p = Some b \<Longrightarrow> bev_at p s = Inr b"
  by (simp add: bev_at_def)

lemma conn_inv_set_bev:
  assumes inv: "conn_inv H s" and p: "bevs s p = Some b" and b': "bev_ctx b' = bev_ctx b" "bev_wf b'"
  shows "conn_inv H (set_bev p b' s)"
proof (rule conn_invI)
  show "\<exists>b. bevs (set_bev p b' s) q = Some b \<and> bev_ctx b = ClientCtx t"
    if "t < length (threads (set_bev p b' s))" "bev_id (thr t (set_bev p b' s)) q = Some i" for t q i
    using conn_invD(2) [OF inv, of t q i] that p b' by auto
  show "\<exists>b. bevs (set_bev p b' s) q = Some b \<and> bev_ctx b = c" if "H q = Some c" for q c
    using conn_invD(5) [OF inv that] p b' by auto
qed (use conn_invD [OF inv] b' in \<open>auto simp: typed_def split: if_splits\<close>)

lemma write_output_safe:
  assumes inv: "conn_inv H s" and p: "bevs s p = Some b"
  shows "safe (\<lambda>(ok, s'). ok \<and> conn_inv H s' \<and> (\<exists>b'. bev_ctx b' = bev_ctx b \<and> s' = set_bev p b' s
    \<and> ev_bytes (bev_output b') = ev_bytes (bev_output b) @ d)) (write_output p d s)"
proof -
  from conn_invD(1) [OF inv p] have "ev_sink (bev_output b)" by (simp add: bev_wf_def)
  from ev.add [OF this, of d] obtain out where out: "evbuffer_add d (bev_output b) = Inr (True, out)" "ev_sink out"
    "ev_bytes out = ev_bytes (bev_output b) @ d" by blast
  have "conn_inv H (set_bev p (b\<lparr>bev_output := out\<rparr>) s)"
    by (rule conn_inv_set_bev [OF inv p]) (use conn_invD(1) [OF inv p] out in \<open>simp_all add: bev_wf_def\<close>)
  moreover have "\<exists>b'. bev_ctx b' = bev_ctx b \<and> set_bev p (b\<lparr>bev_output := out\<rparr>) s = set_bev p b' s
      \<and> ev_bytes (bev_output b') = ev_bytes (bev_output b) @ d"
    by (rule exI [of _ "b\<lparr>bev_output := out\<rparr>"]) (simp add: out)
  ultimately show ?thesis using p out by (simp add: write_output_def bev_at_live)
qed

lemma new_bev_wf:
  assumes "\<forall>k. mm e k"
  shows "bev_wf \<lparr>bev_input = evbuffer_freeze False (evbuffer_new (mm e)),
      bev_output = evbuffer_freeze True (evbuffer_new (mm e)), bev_ctx = c\<rparr>"
  using evbuffer_new_ok [OF assms] by (simp add: bev_wf_def ev_source_def ev_sink_def evbuffer_freeze_def evbuffer_wf_def
      ev_bytes_def)

lemma conn_inv_new_bev:
  assumes inv: "conn_inv H s" and p: "bevs s p = None" and b: "bev_wf b"
  shows "conn_inv H (set_bev p b (s\<lparr>arena := as\<rparr>))"
proof (rule conn_invI)
  show "\<exists>b'. bevs (set_bev p b (s\<lparr>arena := as\<rparr>)) q = Some b' \<and> bev_ctx b' = ClientCtx t"
    if "t < length (threads (set_bev p b (s\<lparr>arena := as\<rparr>)))" "bev_id (thr t (set_bev p b (s\<lparr>arena := as\<rparr>))) q = Some i" for t q i
    using conn_invD(2) [OF inv, of t q i] that p by auto
  show "\<exists>b'. bevs (set_bev p b (s\<lparr>arena := as\<rparr>)) q = Some b' \<and> bev_ctx b' = c" if "H q = Some c" for q c
    using conn_invD(5) [OF inv that] p by auto
qed (use conn_invD [OF inv] b in \<open>auto simp: typed_def split: if_splits\<close>)

lemma bufferevent_socket_new_cases:
  assumes inv: "conn_inv H s" and mm: "\<forall>k. mm e k"
  obtains (fail) "bufferevent_socket_new e c s = Inl NullDeref"
    | (ok) p b as where "bufferevent_socket_new e c s = Inr (p, set_bev p b (s\<lparr>arena := as\<rparr>))" "bevs s p = None"
        "bev_ctx b = c" "bev_wf b" "conn_inv H (set_bev p b (s\<lparr>arena := as\<rparr>))"
proof (cases "malloc s")
  case None
  then show ?thesis by (intro fail) (simp add: bufferevent_socket_new_def)
next
  case (Some r)
  then obtain p s1 where m: "malloc s = Some (p, s1)" by (cases r) simp
  from malloc_Some [OF m] have p: "bevs s p = None" and s1: "s1 = s\<lparr>arena := tl (arena s)\<rparr>" by (simp_all add: in_use_def)
  show ?thesis
    by (rule ok [OF _ p _ new_bev_wf [OF mm] conn_inv_new_bev [OF inv p new_bev_wf [OF mm]]])
      (simp_all add: bufferevent_socket_new_def m s1)
qed

text \<open>A connection to the account service is in no list of a worker.\<close>

lemma conn_inv_watch:
  assumes "conn_inv (\<lambda>_. None) s" and "bevs s p = Some b" and "\<And>t. bev_ctx b \<noteq> ClientCtx t"
  shows "conn_inv [p \<mapsto> bev_ctx b] s"
  using assms unfolding conn_inv_def by auto

lemma free_watched:
  assumes inv: "conn_inv H s" and p: "H p = Some c"
  shows "safe (conn_inv (H(p := None))) (bufferevent_free p s)"
proof -
  from conn_invD(5) [OF inv p] obtain b where b: "bevs s p = Some b" "bev_ctx b = c" by blast
  have not: "bev_id (thr t s) p = None" if "t < length (threads s)" for t
  proof (cases "bev_id (thr t s) p")
    case (Some i)
    with conn_invD(2) [OF inv that Some] b conn_invD(6) [OF inv, of p t] p show ?thesis by auto
  qed simp
  have "conn_inv (H(p := None)) (s\<lparr>bevs := (bevs s)(p := None)\<rparr>)"
  proof (rule conn_invI)
    show "\<exists>b. bevs (s\<lparr>bevs := (bevs s)(p := None)\<rparr>) q = Some b \<and> bev_ctx b = ClientCtx t"
      if "t < length (threads (s\<lparr>bevs := (bevs s)(p := None)\<rparr>))" "bev_id (thr t (s\<lparr>bevs := (bevs s)(p := None)\<rparr>)) q = Some i" for t q i
      using conn_invD(2) [OF inv, of t q i] that not [of t] by auto
    show "\<exists>b. bevs (s\<lparr>bevs := (bevs s)(p := None)\<rparr>) q = Some b \<and> bev_ctx b = c" if "(H(p := None)) q = Some c" for q c
      using conn_invD(5) [OF inv, of q c] that by (auto split: if_splits)
  qed (use conn_invD [OF inv] in \<open>auto simp: typed_def split: if_splits\<close>)
  with b show ?thesis by (simp add: bufferevent_free_def bev_at_live)
qed

text \<open>A client is dropped with the subscriber of its id.\<close>

lemma conn_inv_drop_client:
  assumes inv: "conn_inv H s" and w: "w < length (threads s)" and p: "bev_id (thr w s) p = Some i"
    and f: "\<And>th. bev_id (f th) = (bev_id th)(p := None)" "\<And>th. sub_map (f th) = (sub_map th)(i := None)"
  shows "conn_inv H (on_thr w f (s\<lparr>bevs := (bevs s)(p := None)\<rparr>))"
proof (rule conn_invI)
  let ?s = "on_thr w f (s\<lparr>bevs := (bevs s)(p := None)\<rparr>)"
  from conn_invD(2) [OF inv w p] obtain b where b: "bevs s p = Some b" "bev_ctx b = ClientCtx w" by blast
  show "\<exists>b. bevs ?s q = Some b \<and> bev_ctx b = ClientCtx t" if t: "t < length (threads ?s)" "bev_id (thr t ?s) q = Some j" for t q j
  proof -
    from t have t': "t < length (threads s)" by simp
    from t(2) have q: "bev_id (thr t s) q = Some j" "t = w \<longrightarrow> q \<noteq> p" using w by (auto simp: thr_on_thr f split: if_splits)
    with conn_invD(2) [OF inv t' q(1)] b show ?thesis by auto
  qed
  show "bev_id (thr t ?s) (sub_bev sub) = Some j" if t: "t < length (threads ?s)" "sub_map (thr t ?s) j = Some sub" for t j sub
  proof -
    from t have t': "t < length (threads s)" by simp
    from t(2) have j: "sub_map (thr t s) j = Some sub" "t = w \<longrightarrow> j \<noteq> i" using w by (auto simp: thr_on_thr f split: if_splits)
    with conn_invD(3) [OF inv t' j(1)] p show ?thesis by (auto simp: thr_on_thr f)
  qed
  show "\<exists>b. bevs ?s q = Some b \<and> bev_ctx b = c" if "H q = Some c" for q c
    using conn_invD(5) [OF inv that] conn_invD(6) [OF inv, of p w] b that by auto
qed (use conn_invD [OF inv] in \<open>auto simp: typed_def split: if_splits\<close>)

lemma on_thr_bevs: "(on_thr w f s)\<lparr>bevs := b\<rparr> = on_thr w f (s\<lparr>bevs := b\<rparr>)"
  by (simp add: on_thr_def)

text \<open>No subscriber of the worker has the connection.\<close>

definition unused_bev :: "nat \<Rightarrow> ptr \<Rightarrow> 'u comet \<Rightarrow> bool" where
  "unused_bev w bev s \<longleftrightarrow> (\<forall>k sub. sub_map (thr w s) k = Some sub \<longrightarrow> sub_bev sub \<noteq> bev)"

lemma unused_bev_quiet:
  assumes "quiet s s'" and "w < length (threads s)" and "unused_bev w bev s"
  shows "unused_bev w bev s'"
  unfolding unused_bev_def
proof (intro allI impI)
  fix k sub
  assume "sub_map (thr w s') k = Some sub"
  with quietD(4) [OF assms(1,2), of k] obtain sub0 where "sub_map (thr w s) k = Some sub0" "sub_bev sub0 = sub_bev sub"
    by (cases "sub_map (thr w s) k") auto
  with assms(3) show "sub_bev sub \<noteq> bev" by (auto simp: unused_bev_def)
qed

lemma conn_inv_login:
  assumes inv: "conn_inv H s" and w: "w < length (threads s)" and p: "bev_id (thr w s) p = Some j"
    and un: "unused_bev w p s"
    and f: "bev_id (f (thr w s)) = (bev_id (thr w s))(p \<mapsto> i)"
      "sub_map (f (thr w s)) = (sub_map (thr w s))(i \<mapsto> sub)" "sub_bev sub = p"
  shows "conn_inv H (on_thr w f s)"
proof (rule conn_invI)
  show "\<exists>b. bevs (on_thr w f s) q = Some b \<and> bev_ctx b = ClientCtx t"
    if "t < length (threads (on_thr w f s))" "bev_id (thr t (on_thr w f s)) q = Some k" for t q k
    using conn_invD(2) [OF inv, of t q] conn_invD(2) [OF inv w p] that f by (auto simp: thr_on_thr split: if_splits)
  show "bev_id (thr t (on_thr w f s)) (sub_bev sub') = Some k"
    if "t < length (threads (on_thr w f s))" "sub_map (thr t (on_thr w f s)) k = Some sub'" for t k sub'
    using conn_invD(3) [OF inv, of t k sub'] that f un by (auto simp: thr_on_thr unused_bev_def split: if_splits)
qed (use conn_invD [OF inv] in \<open>auto simp: typed_def\<close>)

section \<open>Connections and expiry\<close>

lemma free_client:
  assumes "conn_inv H s" and "w < length (threads s)" and "bev_id (thr w s) p = Some i"
  shows "bufferevent_free p s = Inr (s\<lparr>bevs := (bevs s)(p := None)\<rparr>)"
  using conn_invD(2) [OF assms] by (auto simp: bufferevent_free_def bev_at_def)

lemma safe_quiet:
  assumes "conn_inv H s" and "safe (quiet s) r"
  shows "safe (conn_inv H) r"
  using assms(2) by (rule res_ok_mono) (rule conn_inv_quiet [OF assms(1)])

text \<open>The invariant with the number of workers.\<close>

definition conn_at :: "(ptr \<Rightarrow> bev_ctx option) \<Rightarrow> nat \<Rightarrow> 'u comet \<Rightarrow> bool" where
  "conn_at H n s \<longleftrightarrow> conn_inv H s \<and> length (threads s) = n"

lemma safe_quiet_at:
  assumes "conn_at H n s" and "safe (quiet s) r"
  shows "safe (conn_at H n) r"
  using assms(2) by (rule res_ok_mono) (use assms(1) in \<open>auto simp: conn_at_def quietD(2) intro: conn_inv_quiet\<close>)

lemma conn_at_quiet: "conn_at H n s \<Longrightarrow> quiet s s' \<Longrightarrow> conn_at H n s'"
  by (auto simp: conn_at_def quietD(2) intro: conn_inv_quiet)

lemma expire_one_safe:
  assumes inv: "conn_inv H s" and t: "t < length (threads s)"
  shows "safe (conn_at H (length (threads s))) (expire_one e t tv bev s)"
proof (cases "bev_id (thr t s) bev")
  case (Some i)
  show ?thesis
  proof (cases "sub_map (thr t s) i")
    case sub: (Some sub)
    let ?s = "on_thr t (\<lambda>th. th\<lparr>bev_id := (bev_id th)(bev := None), conn_num := c_int (conn_num th - 1),
      sub_map := (sub_map th)(i := None)\<rparr>) (s\<lparr>bevs := (bevs s)(bev := None)\<rparr>)"
    have "conn_inv H ?s" by (rule conn_inv_drop_client [OF inv t Some]) simp_all
    then have "safe (conn_at H (length (threads s))) (send_offline e t i ?s)"
      by (intro safe_quiet_at [OF _ send_offline_quiet]) (simp add: conn_at_def)
    with Some sub inv free_client [OF inv t Some] show ?thesis by (simp add: expire_one_def conn_at_def)
  qed (use Some inv in \<open>simp add: expire_one_def conn_at_def\<close>)
qed (use inv in \<open>simp add: expire_one_def conn_at_def\<close>)

lemma del_expire_client_safe:
  assumes inv: "conn_inv H s" and t: "t < length (threads s)"
  shows "safe (conn_at H (length (threads s))) (del_expire_client e t order s)"
proof (cases "now e")
  case (Some tv)
  have "safe (conn_at H (length (threads s))) (fold_res (expire_one e t tv) order s)"
  proof (rule fold_res_ok)
    show "safe (conn_at H (length (threads s))) (expire_one e t tv p s1)" if "conn_at H (length (threads s)) s1" for p s1
      using expire_one_safe [of H s1 t e tv p] that t by (simp add: conn_at_def)
  qed (use inv in \<open>simp add: conn_at_def\<close>)
  with Some show ?thesis by (simp add: del_expire_client_def)
qed (use inv in \<open>simp add: del_expire_client_def conn_at_def\<close>)

lemma conn_inv_add_client:
  assumes inv: "conn_inv H s" and p: "bevs s p = Some b" "bev_ctx b = ClientCtx t" and new: "bev_id (thr t s) p = None"
    and f: "\<And>th. bev_id (f th) = (if bev_id th p = None then (bev_id th)(p \<mapsto> 0) else bev_id th)"
      "\<And>th. sub_map (f th) = sub_map th"
  shows "conn_inv H (on_thr t f s)"
proof (rule conn_invI)
  show "\<exists>b. bevs (on_thr t f s) q = Some b \<and> bev_ctx b = ClientCtx u"
    if "u < length (threads (on_thr t f s))" "bev_id (thr u (on_thr t f s)) q = Some k" for u q k
    using conn_invD(2) [OF inv, of u q k] that p f by (auto simp: thr_on_thr split: if_splits)
  show "bev_id (thr u (on_thr t f s)) (sub_bev sub) = Some k"
    if "u < length (threads (on_thr t f s))" "sub_map (thr u (on_thr t f s)) k = Some sub" for u k sub
    using conn_invD(3) [OF inv, of u k sub] that new f by (auto simp: thr_on_thr split: if_splits)
qed (use conn_invD [OF inv] in \<open>auto simp: typed_def\<close>)

lemma new_client_safe:
  assumes inv: "conn_inv H s" and mm: "\<forall>k. mm e k" and t: "t < length (threads s)"
  shows "safe (conn_at H (length (threads s))) (new_client e t s)"
  using inv mm
proof (cases rule: bufferevent_socket_new_cases [where c = "ClientCtx t"])
  case (ok p b as)
  have "bev_id (thr t s) p = None"
    using conn_invD(2) [OF inv t, of p] ok(2) by (cases "bev_id (thr t s) p") auto
  then have "conn_inv H (on_thr t (\<lambda>th. th\<lparr>bev_id := (if bev_id th p = None then (bev_id th)(p \<mapsto> 0) else bev_id th),
      conn_num := c_int (conn_num th + 1)\<rparr>) (set_bev p b (s\<lparr>arena := as\<rparr>)))"
    by (intro conn_inv_add_client [OF ok(5), of p b]) (simp_all add: ok(3))
  with ok(1) show ?thesis by (simp add: new_client_def conn_at_def)
qed (simp add: new_client_def)

lemma new_conn_loop_safe:
  assumes "conn_inv H s" and "\<forall>k. mm e k" and "t < length (threads s)"
  shows "safe (conn_inv H) (new_conn_loop e t keys n s)"
  using assms(1,3)
proof (induction n arbitrary: s)
  case 0
  then show ?case by (auto intro!: conn_inv_quiet [OF 0(1)] quiet_on_thr)
next
  case (Suc n)
  show ?case
  proof (cases "new_conn_fd (thr t s)")
    case (Cons data rest)
    let ?s = "on_thr t (\<lambda>th. th\<lparr>new_conn_fd := rest\<rparr>) s"
    have i: "conn_inv H ?s" by (rule conn_inv_quiet [OF Suc.prems(1)], rule quiet_on_thr) simp_all
    have t: "t < length (threads ?s)" using Suc.prems(2) by simp
    have broken: "conn_inv H (on_thr t (\<lambda>th. th\<lparr>loop_broken := True\<rparr>) ?s)"
      by (rule conn_inv_quiet [OF i], rule quiet_on_thr) simp_all
    have new: "safe (conn_inv H) (bind_res (new_client e t ?s) (new_conn_loop e t keys n))"
      by (rule res_ok_bindI [OF new_client_safe [OF i assms(2) t]]) (use Suc.IH Suc.prems(2) in \<open>simp add: conn_at_def\<close>)
    have del: "safe (conn_inv H) (bind_res (del_expire_client e t (keys ?s) ?s) (new_conn_loop e t keys n))"
      by (rule res_ok_bindI [OF del_expire_client_safe [OF i t]]) (use Suc.IH Suc.prems(2) in \<open>simp add: conn_at_def\<close>)
    from Cons new del broken Suc.IH [OF i t] show ?thesis by (simp add: Let_def)
  qed (use Suc.prems in simp)
qed

section \<open>Delivery\<close>

lemma sub_bev_live:
  assumes "conn_inv H s" and "t < length (threads s)" and "sub_map (thr t s) i = Some sub"
  obtains b where "bevs s (sub_bev sub) = Some b" "bev_ctx b = ClientCtx t" "bev_id (thr t s) (sub_bev sub) = Some i"
  using conn_invD(2) [OF assms(1,2) conn_invD(3) [OF assms]] conn_invD(3) [OF assms] by blast

lemma translate_msg_safe:
  assumes inv: "conn_inv H s" and t: "t < length (threads s)"
  shows "safe (conn_at H (length (threads s))) (translate_msg t td s)"
proof (cases "sub_map (thr t s) (td_to_id td)")
  case (Some sub)
  with sub_bev_live [OF inv t Some] obtain b where b: "bevs s (get_bev sub) = Some b" by (auto simp: get_bev_def)
  have "safe (conn_at H (length (threads s)))
      (bind_res (write_output (get_bev sub) d s) (\<lambda>(_, s). Inr s))" for d
    by (rule res_ok_bindI [OF write_output_safe [OF inv b]]) (auto simp: conn_at_def)
  with Some b show ?thesis by (auto simp: translate_msg_def bev_at_live res_ok_bind [of _ _ "read_range _ _ _"] read_range_def
      split: option.split)
qed (use inv in \<open>simp add: translate_msg_def conn_at_def\<close>)

lemma delete_old_id_safe:
  assumes inv: "conn_inv H s" and t: "t < length (threads s)"
  shows "safe (conn_at H (length (threads s))) (delete_old_id t i s)"
proof (cases "sub_map (thr t s) i")
  case (Some sub)
  with sub_bev_live [OF inv t Some] have b: "bev_id (thr t s) (get_bev sub) = Some i" by (auto simp: get_bev_def)
  have "conn_inv H (on_thr t (\<lambda>th. th\<lparr>bev_id := (bev_id th)(get_bev sub := None), sub_map := (sub_map th)(i := None)\<rparr>)
      (s\<lparr>bevs := (bevs s)(get_bev sub := None)\<rparr>))"
    by (rule conn_inv_drop_client [OF inv t b]) simp_all
  with Some b free_client [OF inv t b] show ?thesis by (simp add: delete_old_id_def conn_at_def)
qed (use inv in \<open>simp add: delete_old_id_def conn_at_def\<close>)

lemma handle_msg_safe:
  assumes inv: "conn_inv H s" and t: "t < length (threads s)"
  shows "safe (conn_at H (length (threads s))) (handle_msg t p s)"
  unfolding handle_msg_def
proof (rule res_ok_bindI [OF message_at_safe])
  fix td
  assume "messages s p = Some td"
  with conn_invD(4) [OF inv] have ty: "td_msg_type td = Some 0 \<or> td_msg_type td = Some 1" by (auto simp: typed_def)
  have del: "safe (conn_at H (length (threads s))) (delete_message p s1)"
    if "conn_at H (length (threads s)) s1" for s1
    by (rule safe_quiet_at [OF that delete_message_quiet])
  have "safe (conn_at H (length (threads s)))
      (case td_msg_type td of None \<Rightarrow> Inl UninitialisedRead
       | Some ty \<Rightarrow> if ty = 0 then translate_msg t td s else if ty = 1 then delete_old_id t (td_to_id td) s else Inl AssertFailed)"
    using ty translate_msg_safe [OF inv t] delete_old_id_safe [OF inv t] by auto
  then show "safe (conn_at H (length (threads s)))
      (bind_res (case td_msg_type td of None \<Rightarrow> Inl UninitialisedRead
       | Some ty \<Rightarrow> if ty = 0 then translate_msg t td s else if ty = 1 then delete_old_id t (td_to_id td) s else Inl AssertFailed)
        (delete_message p))"
    by (rule res_ok_bindI) (rule del)
qed

lemma notify_new_msg_callback_safe:
  assumes inv: "conn_inv H s" and t: "t < length (threads s)"
  shows "safe (conn_inv H) (notify_new_msg_callback t s)"
proof -
  have "safe (conn_at H (length (threads s))) (notify_new_msg_callback t s)"
    unfolding notify_new_msg_callback_def
  proof (rule fold_res_ok)
    fix p s1
    assume s1: "conn_at H (length (threads s)) s1"
    let ?s = "on_thr t (\<lambda>th. th\<lparr>new_msg_fd := drop 1 (new_msg_fd th)\<rparr>) s1"
    have "conn_at H (length (threads s)) ?s" by (rule conn_at_quiet [OF s1 quiet_on_thr]) simp_all
    with handle_msg_safe [of H ?s t p] t show "safe (conn_at H (length (threads s))) (handle_msg t p ?s)"
      by (simp add: conn_at_def)
  qed (use inv in \<open>simp add: conn_at_def\<close>)
  then show ?thesis by (rule res_ok_mono) (simp add: conn_at_def)
qed

section \<open>Client data\<close>

lemma read_login_quiet: "safe (quiet s) (read_login e t bev s)"
proof -
  have q: "quiet s (on_thr t (\<lambda>th. th\<lparr>analyser := a\<rparr>) s)" for a by (rule quiet_on_thr) simp_all
  show ?thesis
    by (auto simp: read_login_def Let_def q intro!: quiet_after [OF q redisAsyncCommand_quiet] split: prod.split option.split)
qed

lemma read_heart_quiet: "quiet s (read_heart e t i s)"
  by (auto simp: read_heart_def intro!: quiet_on_thr split: prod.split option.split)

lemma read_trans_quiet: "safe (quiet s) (read_trans e t i s)"
proof -
  have q: "quiet s (on_thr t (\<lambda>th. th\<lparr>analyser := a\<rparr>) s)" for a by (rule quiet_on_thr) simp_all
  have send: "safe (quiet s) (bind_res (send_message e t p s) (\<lambda>(ok, s). if ok then Inr s else delete_message p s))" for p s
    unfolding send_message_def by (rule quiet_bind2 [OF offer_message_quiet]) (simp add: delete_message_quiet)
  have check: "safe (quiet s) (bind_res (zscore_cmd f g) (\<lambda>cmd. redisAsyncCommand e t cb cmd s))" for f g cb s
    by (simp add: zscore_cmd_def redisAsyncCommand_quiet split: option.split)
  show ?thesis
  proof (cases "get_trans_data (analyser (thr t s))")
    case (Pair td a)
    show ?thesis
    proof (cases td)
      case (Some td)
      have "safe (quiet (on_thr t (\<lambda>th. th\<lparr>analyser := a\<rparr>) s))
          (bind_res (new_message (td\<lparr>td_msg_type := Some 0, td_work_thread := Some t\<rparr>) (on_thr t (\<lambda>th. th\<lparr>analyser := a\<rparr>) s)) (\<lambda>(p, s).
             if i \<noteq> 0 \<and> td_from_id td = Some i then
               if special_id i \<or> special_id (td_to_id td) then
                 bind_res (send_message e t p s) (\<lambda>(ok, s). if ok then Inr s else delete_message p s)
               else bind_res (zscore_cmd (td_from_id td) (td_to_id td)) (\<lambda>cmd. redisAsyncCommand e t (TransCb p) cmd s)
             else delete_message p s))"
        by (rule quiet_bind2 [OF new_message_quiet]) (simp_all add: send check delete_message_quiet)
      from quiet_after [OF q this] Pair Some show ?thesis by (simp add: read_trans_def Let_def)
    qed (use Pair q in \<open>simp add: read_trans_def Let_def\<close>)
  qed
qed

lemma read_loop_safe:
  assumes "conn_inv H s" and "t < length (threads s)" and "bevs s bev = Some b" and "length (ev_bytes (bev_input b)) < n"
  shows "safe (conn_inv H) (read_loop e t bev i n s)"
  using assms
proof (induction n arbitrary: s b)
  case (Suc n)
  from conn_invD(1) [OF Suc.prems(1,3)] have wf: "ev_source (bev_input b)" "ev_sink (bev_output b)" by (simp_all add: bev_wf_def)
  let ?next = "\<lambda>(r, a, input, output).
    let s = set_bev bev (b\<lparr>bev_input := input, bev_output := output\<rparr>) (on_thr t (\<lambda>th. th\<lparr>analyser := a\<rparr>) s)
    in if \<not> r then Inr s
       else bind_res (read_login e t bev s) (\<lambda>s. bind_res (read_trans e t i (read_heart e t i s)) (read_loop e t bev i n))"
  have "safe (conn_inv H) (bind_res (analyse_data (lib e) (analyser (thr t s)) (bev_input b) (bev_output b)) ?next)"
  proof (rule res_ok_bindI [OF sound_safe [OF analyse_data_sound [OF wf]]], goal_cases)
    case (1 x)
    obtain r a inp out where x: "x = (r, a, inp, out)" by (cases x)
    with 1 have ev: "ev_source inp" "ev_sink out" and less: "r \<longrightarrow> length (ev_bytes inp) < length (ev_bytes (bev_input b))"
      by simp_all
    let ?b = "b\<lparr>bev_input := inp, bev_output := out\<rparr>"
    let ?s = "set_bev bev ?b (on_thr t (\<lambda>th. th\<lparr>analyser := a\<rparr>) s)"
    have "conn_inv H (on_thr t (\<lambda>th. th\<lparr>analyser := a\<rparr>) s)"
      by (rule conn_inv_quiet [OF Suc.prems(1) quiet_on_thr]) simp_all
    then have inv: "conn_inv H ?s" by (rule conn_inv_set_bev) (use Suc.prems(3) ev in \<open>simp_all add: bev_wf_def\<close>)
    have "safe (conn_inv H) (bind_res (read_login e t bev ?s) (\<lambda>s. bind_res (read_trans e t i (read_heart e t i s)) (read_loop e t bev i n)))"
      if r
    proof (rule res_ok_bindI [OF read_login_quiet], rule res_ok_bindI [OF read_trans_quiet])
      fix s1 s2
      assume q: "quiet ?s s1" "quiet (read_heart e t i s1) s2"
      have q2: "quiet ?s s2" by (rule quiet_trans [OF q(1) quiet_trans [OF read_heart_quiet q(2)]])
      from that less Suc.prems(4) have "length (ev_bytes (bev_input ?b)) < n" by simp
      with Suc.IH [OF conn_inv_quiet [OF inv q2], of ?b] quietD(1,2) [OF q2] Suc.prems(2)
      show "safe (conn_inv H) (read_loop e t bev i n s2)" by simp
    qed
    with inv x show "safe (conn_inv H) (?next x)" by (simp add: Let_def)
  qed
  with Suc.prems(1,3) show ?case by (simp add: bev_at_live)
qed simp

lemma bufferevent_read_callback_safe:
  assumes inv: "conn_inv H s" and t: "t < length (threads s)" and b: "bevs s bev = Some b"
  shows "safe (conn_inv H) (bufferevent_read_callback e t bev s)"
proof -
  from conn_invD(1) [OF inv b] have "evbuffer_get_length (bev_input b) = length (ev_bytes (bev_input b))"
    by (simp add: bev_wf_def ev.get_length)
  with read_loop_safe [OF inv t b] b show ?thesis by (simp add: bufferevent_read_callback_def bev_at_live Let_def del: read_loop.simps)
qed

lemma conn_inv_free_unlisted:
  assumes inv: "conn_inv H s" and b: "bevs s p = Some b" "bev_ctx b = ClientCtx t"
    and un: "t < length (threads s) \<Longrightarrow> bev_id (thr t s) p = None"
  shows "conn_inv H (s\<lparr>bevs := (bevs s)(p := None)\<rparr>)"
proof (rule conn_invI)
  let ?s = "s\<lparr>bevs := (bevs s)(p := None)\<rparr>"
  show "\<exists>b. bevs ?s q = Some b \<and> bev_ctx b = ClientCtx u" if "u < length (threads ?s)" "bev_id (thr u ?s) q = Some i" for u q i
    using conn_invD(2) [OF inv, of u q i] that b un by auto
  show "\<exists>b. bevs ?s q = Some b \<and> bev_ctx b = c" if "H q = Some c" for q c
    using conn_invD(5) [OF inv that] conn_invD(6) [OF inv, of p t] b that by auto
qed (use conn_invD [OF inv] in \<open>auto simp: typed_def split: if_splits\<close>)

lemma bufferevent_event_callback_safe:
  assumes inv: "conn_inv H s" and t: "t < length (threads s)" and b: "bevs s bev = Some b" "bev_ctx b = ClientCtx t"
  shows "safe (conn_inv H) (bufferevent_event_callback e t bev events s)"
proof -
  let ?f = "\<lambda>th. th\<lparr>conn_num := c_int (conn_num th - 1)\<rparr>"
  let ?i = "case bev_id (thr t s) bev of None \<Rightarrow> 0 | Some i \<Rightarrow> i"
  let ?g = "\<lambda>th. th\<lparr>sub_map := (sub_map th)(?i := None), bev_id := (bev_id th)(bev := None)\<rparr>"
  let ?s = "on_thr t ?f (if bev_id (thr t s) bev \<noteq> None then on_thr t ?g s else s)"
  have "conn_inv H (on_thr t ?f (on_thr t ?g (s\<lparr>bevs := (bevs s)(bev := None)\<rparr>)))" if "bev_id (thr t s) bev = Some i" for i
    by (rule conn_inv_quiet [OF conn_inv_drop_client [OF inv t that] quiet_on_thr]) (simp_all add: that)
  moreover have "conn_inv H (on_thr t ?f (s\<lparr>bevs := (bevs s)(bev := None)\<rparr>))" if "bev_id (thr t s) bev = None"
    by (rule conn_inv_quiet [OF conn_inv_free_unlisted [OF inv b] quiet_on_thr]) (simp_all add: that)
  ultimately have "conn_inv H (?s\<lparr>bevs := (bevs s)(bev := None)\<rparr>)" by (auto simp: on_thr_bevs)
  then have "safe (conn_inv H) (send_offline e t ?i (?s\<lparr>bevs := (bevs s)(bev := None)\<rparr>))"
    by (rule safe_quiet [OF _ send_offline_quiet])
  moreover have "bufferevent_free bev ?s = Inr (?s\<lparr>bevs := (bevs s)(bev := None)\<rparr>)"
    using b by (simp add: bufferevent_free_def bev_at_def)
  ultimately show ?thesis using inv by (simp add: bufferevent_event_callback_def Let_def)
qed

section \<open>Faults of the analyser\<close>

lemma bind_safe:
  assumes "safe (\<lambda>_. True) r" and "\<And>x. safe Q (f x)"
  shows "safe Q (bind_res r f)"
  by (rule res_ok_bindI [OF assms(1)]) (rule assms(2))

lemmas get_login_rsp_safe = sound_safe [OF get_login_rsp_sound]
lemmas pack_data_safe = sound_safe [OF pack_data_sound]
lemmas analyse_login_data_safe = sound_safe [OF analyse_login_data_sound]
lemmas analyse_relation_data_safe = sound_safe [OF analyse_relation_data_sound]
lemmas post_data_safe = sound_safe [OF post_data_sound(1)] sound_safe [OF post_data_sound(2)]

section \<open>Login\<close>

lemma drop_login_safe:
  assumes inv: "conn_inv H s" and w: "w < length (threads s)" and bev: "bev_id (thr w s) bev = Some j"
    and un: "unused_bev w bev s"
  shows "safe (\<lambda>s'. conn_at H (length (threads s)) s' \<and> bev_id (thr w s') bev = Some j \<and> unused_bev w bev s'
    \<and> sub_map (thr w s') i = None) (drop_login w i s)"
proof (cases "sub_map (thr w s) i")
  case (Some sub)
  with sub_bev_live [OF inv w Some] have b: "bev_id (thr w s) (get_bev sub) = Some i" by (auto simp: get_bev_def)
  have ne: "get_bev sub \<noteq> bev" using un Some by (auto simp: unused_bev_def get_bev_def)
  let ?f = "\<lambda>th. th\<lparr>sub_map := (sub_map th)(i := None)\<rparr>" and ?g = "\<lambda>th. th\<lparr>bev_id := (bev_id th)(get_bev sub := None)\<rparr>"
  let ?s = "s\<lparr>bevs := (bevs s)(get_bev sub := None)\<rparr>"
  have eq: "on_thr w ?f (on_thr w ?g ?s) = on_thr w (\<lambda>th. ?f (?g th)) ?s"
    using w by (simp add: on_thr_def)
  have "conn_inv H (on_thr w (\<lambda>th. ?f (?g th)) ?s)" by (rule conn_inv_drop_client [OF inv w b]) simp_all
  then have "conn_inv H (on_thr w ?f (on_thr w ?g ?s))" unfolding eq .
  with Some b ne w bev un free_client [OF inv w b] show ?thesis
    by (auto simp: drop_login_def conn_at_def thr_on_thr unused_bev_def)
qed (use inv bev un in \<open>simp add: drop_login_def conn_at_def\<close>)

lemma login_success_safe:
  assumes inv: "conn_inv H s" and w: "w < length (threads s)" and bev: "bev_id (thr w s) bev = Some j"
    and un: "unused_bev w bev s" and i: "sub_map (thr w s) i = None"
  shows "safe (\<lambda>(rsp, s'). conn_at H (length (threads s)) s' \<and> bevs s' = bevs s) (login_success e w i bev s)"
  unfolding login_success_def
proof (rule bind_safe [OF get_login_rsp_safe])
  fix x :: "bytes \<times> 'a analyse_req"
  obtain rsp_data a where x: "x = (rsp_data, a)" by (cases x)
  let ?s = "on_thr w (\<lambda>th. th\<lparr>analyser := a, bev_id := (bev_id th)(bev \<mapsto> i),
    sub_map := (if sub_map th i = None then (sub_map th)(i \<mapsto> set_id_bev (now e) i bev Subscriber_new) else sub_map th)\<rparr>) s"
  have "conn_inv H ?s"
    by (rule conn_inv_login [OF inv w bev un, where sub = "set_id_bev (now e) i bev Subscriber_new"]) (simp_all add: i)
  then have at: "conn_at H (length (threads s)) ?s" by (simp add: conn_at_def)
  have "safe (\<lambda>(rsp, s'). conn_at H (length (threads s)) s' \<and> bevs s' = bevs s)
      (bind_res (redisAsyncCommand e w cb cmd ?s) (\<lambda>s. Inr (rsp_data, s)))" for cb cmd
    by (rule res_ok_bindI [OF redisAsyncCommand_quiet]) (use at in \<open>auto simp: quietD(1) intro: conn_at_quiet\<close>)
  with x show "safe (\<lambda>(rsp, s'). conn_at H (length (threads s)) s' \<and> bevs s' = bevs s)
      (case x of (rsp_data, a) \<Rightarrow>
        let s = on_thr w (\<lambda>th. th\<lparr>analyser := a, bev_id := (bev_id th)(bev \<mapsto> i),
                  sub_map := (if sub_map th i = None
                    then (sub_map th)(i \<mapsto> set_id_bev (now e) i bev Subscriber_new) else sub_map th)\<rparr>) s
        in bind_res (redisAsyncCommand e w (OnlineCb \<lparr>on_id = i, on_bev = bev, on_work_thread = w\<rparr>) (zrange_cmd i) s)
             (\<lambda>s. Inr (rsp_data, s)))"
    by (simp add: Let_def)
qed

text \<open>The steps of a login that was accepted.\<close>

lemma login_accept_safe:
  assumes inv: "conn_inv H s" and w: "w < length (threads s)" and bev: "bev_id (thr w s) bev = Some j"
    and un: "unused_bev w bev s"
  shows "safe (\<lambda>s1. safe (\<lambda>s2. safe (\<lambda>(rsp, s3). conn_at H (length (threads s)) s3 \<and> (\<exists>b. bevs s3 bev = Some b))
      (login_success e w i bev s2)) (notify_del_all e skip (work_thread_num (thr w s1)) i s1)) (drop_login w i s)"
proof (rule res_ok_mono [OF drop_login_safe [OF assms]], rule res_ok_mono [OF notify_del_all_quiet], goal_cases)
  case (1 s1 s2)
  then have l1: "conn_inv H s1" "length (threads s1) = length (threads s)" by (simp_all add: conn_at_def)
  have w1: "w < length (threads s1)" using w l1 by simp
  have inv2: "conn_inv H s2" by (rule conn_inv_quiet [OF l1(1) 1(2)])
  have w2: "w < length (threads s2)" and len: "length (threads s2) = length (threads s)"
    using quietD(2) [OF 1(2)] w1 l1 by simp_all
  have bev2: "bev_id (thr w s2) bev = Some j" using quietD(3) [OF 1(2) w1] 1(1) by simp
  have un2: "unused_bev w bev s2" using unused_bev_quiet [OF 1(2) w1] 1(1) by simp
  have i2: "sub_map (thr w s2) i = None" using quietD(4) [OF 1(2) w1, of i] 1(1) by simp
  from conn_invD(2) [OF inv2 w2 bev2] obtain b where "bevs s2 bev = Some b" by blast
  then show ?case using login_success_safe [OF inv2 w2 bev2 un2 i2, of e] len by (auto elim!: res_ok_mono)
qed

lemma login_failure_safe:
  assumes "conn_inv H s"
  shows "safe (\<lambda>(rsp, s'). conn_at H (length (threads s)) s' \<and> bevs s' = bevs s) (login_failure e w msg s)"
  unfolding login_failure_def
proof (rule bind_safe [OF get_login_rsp_safe])
  fix x :: "bytes \<times> 'a analyse_req"
  obtain d a where x: "x = (d, a)" by (cases x)
  have "conn_inv H (on_thr w (\<lambda>th. th\<lparr>analyser := a\<rparr>) s)" by (rule conn_inv_quiet [OF assms quiet_on_thr]) simp_all
  then show "safe (\<lambda>(rsp, s'). conn_at H (length (threads s)) s' \<and> bevs s' = bevs s)
      (case x of (rsp_data, a) \<Rightarrow> Inr (rsp_data, on_thr w (\<lambda>th. th\<lparr>analyser := a\<rparr>) s))" by (simp add: x conn_at_def)
qed

lemma answer_safe:
  assumes "conn_at H n s" and "bevs s bev = Some b"
  shows "safe (conn_at H n) (bind_res (write_output bev d s) (\<lambda>(_, s). Inr s))"
  using assms(1) unfolding conn_at_def
  by (elim conjE) (rule res_ok_bindI [OF write_output_safe [OF _ assms(2)]], auto)

lemma answer_done:
  assumes "conn_at H n s" and "bevs s bev = Some b"
  shows "safe (conn_inv H) (bind_res (write_output bev d s) (\<lambda>(_, s). Inr s))"
  by (rule res_ok_mono [OF answer_safe [OF assms]]) (simp add: conn_at_def)

lemma http_connect_safe:
  assumes inv: "conn_inv H s" and mm: "\<forall>k. mm e k"
  shows "safe (\<lambda>(ok, s'). conn_at H (length (threads s)) s') (http_connect e c s)"
  using inv mm
proof (cases rule: bufferevent_socket_new_cases [where c = c])
  case (ok p b as)
  have "(set_bev p b (s\<lparr>arena := as\<rparr>))\<lparr>bevs := (bevs (set_bev p b (s\<lparr>arena := as\<rparr>)))(p := None)\<rparr> = s\<lparr>arena := as\<rparr>"
    using ok(2) by (simp add: set_bev_def fun_upd_idem)
  moreover have "conn_inv H (s\<lparr>arena := as\<rparr>)" by (rule conn_inv_quiet [OF inv]) simp
  ultimately show ?thesis using ok by (auto simp: http_connect_def conn_at_def bufferevent_free_def bev_at_def)
qed (simp add: http_connect_def)

text \<open>A connection that is logged in under another id must not log in again.\<close>

definition fresh_login :: "LoginData \<Rightarrow> 'u comet \<Rightarrow> bool" where
  "fresh_login ld s \<longleftrightarrow> (\<forall>w bev. login_origin ld = Inr (w, bev) \<longrightarrow> w < length (threads s) \<longrightarrow> unused_bev w bev s)"

definition same_login :: "LoginData \<Rightarrow> 'u comet \<Rightarrow> bool" where
  "same_login ld s \<longleftrightarrow> (\<forall>w bev. login_origin ld = Inr (w, bev) \<longrightarrow> w < length (threads s) \<longrightarrow>
     (\<forall>k sub. sub_map (thr w s) k = Some sub \<longrightarrow> sub_bev sub = bev \<longrightarrow> k = ld_id ld))"

lemma login_origin_safe: "safe (\<lambda>x. login_origin ld = Inr x) (login_origin ld)"
  by (cases "ld_work_thread ld"; cases "ld_bev ld") (simp_all add: login_origin_def)

lemma redis_login_callback_safe:
  assumes inv: "conn_inv H s" and mm: "\<forall>k. mm e k" and clean: "same_login ld s"
  shows "safe (conn_inv H) (redis_login_callback e reply ld s)"
  unfolding redis_login_callback_def
proof (rule res_ok_bindI [OF login_origin_safe], goal_cases)
  case (1 x)
  obtain w bev where x: "x = (w, bev)" by (cases x)
  have http: "safe (conn_inv H) (bind_res (http_login_check e ld s) (\<lambda>(_, s). Inr s))"
    unfolding http_login_check_def
    by (rule res_ok_bindI [OF http_connect_safe [OF inv mm]]) (auto simp: conn_at_def)
  have "safe (conn_inv H)
      (if bev_id (thr w s) bev = None then Inr s
       else case (case reply of None \<Rightarrow> None | Some r \<Rightarrow> reply_str r) of
         None \<Rightarrow> bind_res (http_login_check e ld s) (\<lambda>(_, s). Inr s)
       | Some str \<Rightarrow>
           if c_string (ld_token ld) = c_string str then
             if (case sub_map (thr w s) (ld_id ld) of None \<Rightarrow> False | Some sub \<Rightarrow> get_bev sub = bev) then Inr s
             else
               bind_res (drop_login w (ld_id ld) s) (\<lambda>s.
               bind_res (notify_del_all e (\<lambda>j. j = w) (work_thread_num (thr w s)) (ld_id ld) s) (\<lambda>s.
               bind_res (login_success e w (ld_id ld) bev s) (\<lambda>(rsp_data, s).
               bind_res (write_output bev rsp_data s) (\<lambda>(_, s). Inr s))))
           else
             bind_res (login_failure e w (cstr ''wrong id or token'') s) (\<lambda>(rsp_data, s).
             bind_res (write_output bev rsp_data s) (\<lambda>(_, s). Inr s)))"
    if w: "w < length (threads s)"
  proof (cases "bev_id (thr w s) bev")
    case (Some j)
    obtain b where b: "bevs s bev = Some b" using conn_invD(2) [OF inv w Some] by blast
    have fail: "safe (conn_inv H) (bind_res (login_failure e w msg s) (\<lambda>(rsp_data, s).
        bind_res (write_output bev rsp_data s) (\<lambda>(_, s). Inr s)))" for msg
      by (rule res_ok_bindI [OF login_failure_safe [OF inv]]) (use b in \<open>auto intro: answer_done\<close>)
    have accept: "safe (conn_inv H) (bind_res (drop_login w (ld_id ld) s) (\<lambda>s.
        bind_res (notify_del_all e (\<lambda>j. j = w) (work_thread_num (thr w s)) (ld_id ld) s) (\<lambda>s.
        bind_res (login_success e w (ld_id ld) bev s) (\<lambda>(rsp_data, s).
        bind_res (write_output bev rsp_data s) (\<lambda>(_, s). Inr s)))))"
      if no: "\<not> (case sub_map (thr w s) (ld_id ld) of None \<Rightarrow> False | Some sub \<Rightarrow> get_bev sub = bev)"
    proof -
      have un: "unused_bev w bev s" using clean 1 x w no
        by (auto simp: unused_bev_def same_login_def get_bev_def split: option.splits)
      show ?thesis
        using login_accept_safe [OF inv w Some un, of e "ld_id ld" "\<lambda>j. j = w"] unfolding res_ok_bind
        by (elim res_ok_mono) (auto dest: answer_done simp: res_ok_bind)
    qed
    show ?thesis using Some inv http fail accept by (simp split: option.split)
  qed (simp add: inv)
  then show ?case by (simp add: x res_ok_bind [of _ _ "read_at _ _"] read_at_def)
qed

section \<open>Answers of the account service\<close>

lemma http_text_safe:
  assumes inv: "conn_inv H s" and b: "bevs s bev = Some b"
  shows "safe (\<lambda>(d, n, s'). conn_inv H s' \<and> (\<exists>b'. bev_ctx b' = bev_ctx b \<and> s' = set_bev bev b' s)) (http_text bev s)"
proof -
  from conn_invD(1) [OF inv b] have src: "ev_source (bev_input b)" by (simp add: bev_wf_def)
  from ev.remove [OF this] obtain inp where r: "evbuffer_remove n (bev_input b) = Inr (Some (take n (ev_bytes (bev_input b))), inp n)"
    "ev_source (inp n)" for n by metis
  have "conn_inv H (set_bev bev (b\<lparr>bev_input := inp n\<rparr>) s)" for n
    by (rule conn_inv_set_bev [OF inv b]) (use conn_invD(1) [OF inv b] r(2) in \<open>simp_all add: bev_wf_def\<close>)
  moreover have "\<exists>b'. bev_ctx b' = bev_ctx b \<and> set_bev bev (b\<lparr>bev_input := inp n\<rparr>) s = set_bev bev b' s" for n
    by (rule exI [of _ "b\<lparr>bev_input := inp n\<rparr>"]) simp
  ultimately show ?thesis using b r(1) by (simp add: http_text_def bev_at_live Let_def)
qed

lemma unused_bev_set_bev [simp]: "unused_bev w bev (set_bev p b s) = unused_bev w bev s"
  by (simp add: unused_bev_def)

lemma unused_bev_analyser [simp]:
  "unused_bev w bev (on_thr t (\<lambda>th. th\<lparr>analyser := a\<rparr>) s) = unused_bev w bev s"
  by (simp add: unused_bev_def thr_on_thr)

lemma http_login_answer_safe:
  assumes inv: "conn_inv H s" and w: "w < length (threads s)" and un: "unused_bev w client s"
  shows "safe (conn_inv H) (http_login_answer e w client i data len s)"
proof (cases "bev_id (thr w s) client")
  case (Some j)
  let ?rest = "\<lambda>(r, a). let s = on_thr w (\<lambda>th. th\<lparr>analyser := a\<rparr>) s
    in bind_res
      (if r then bind_res (drop_login w i s) (\<lambda>s.
         bind_res (notify_del_all e (\<lambda>_. False) (work_thread_num (thr w s)) i s) (\<lambda>s. login_success e w i client s))
       else login_failure e w (cstr ''wrong id or token'') s) (\<lambda>(rsp_data, s). bind_res (write_output client rsp_data s) (\<lambda>(_, s). Inr s))"
  have "safe (conn_inv H) (bind_res (analyse_login_data (lib e) (analyser (thr w s)) data len) ?rest)"
  proof (rule bind_safe [OF analyse_login_data_safe])
    fix x :: "bool \<times> 'a analyse_req"
    obtain r a where x: "x = (r, a)" by (cases x)
    let ?s = "on_thr w (\<lambda>th. th\<lparr>analyser := a\<rparr>) s"
    have i1: "conn_inv H ?s" by (rule conn_inv_quiet [OF inv quiet_on_thr]) simp_all
    have w1: "w < length (threads ?s)" and b1: "bev_id (thr w ?s) client = Some j" and u1: "unused_bev w client ?s"
      using w Some un by (simp_all add: thr_on_thr)
    obtain b where b: "bevs ?s client = Some b" using conn_invD(2) [OF i1 w1 b1] by blast
    have "safe (conn_inv H) (bind_res (login_failure e w (cstr ''wrong id or token'') ?s) (\<lambda>(rsp_data, s).
        bind_res (write_output client rsp_data s) (\<lambda>(_, s). Inr s)))"
      by (rule res_ok_bindI [OF login_failure_safe [OF i1]]) (use b in \<open>auto intro: answer_done\<close>)
    moreover have "safe (conn_inv H) (bind_res (bind_res (drop_login w i ?s) (\<lambda>s.
         bind_res (notify_del_all e (\<lambda>_. False) (work_thread_num (thr w s)) i s) (\<lambda>s. login_success e w i client s)))
         (\<lambda>(rsp_data, s). bind_res (write_output client rsp_data s) (\<lambda>(_, s). Inr s)))"
      using login_accept_safe [OF i1 w1 b1 u1, of e i "\<lambda>_. False"] unfolding res_ok_bind
      by (elim res_ok_mono) (auto dest: answer_done simp: res_ok_bind)
    ultimately show "safe (conn_inv H) (?rest x)" by (simp add: x Let_def)
  qed
  with Some show ?thesis by (simp add: http_login_answer_def)
qed (simp add: inv http_login_answer_def)

lemma http_login_read_safe:
  assumes inv: "conn_inv H s" and H: "H bev = Some c" and clean: "fresh_login ld s"
  shows "safe (conn_inv (H(bev := None))) (http_login_read e bev ld s)"
proof -
  from conn_invD(5) [OF inv H] obtain b where b: "bevs s bev = Some b" "bev_ctx b = c" by blast
  show ?thesis
    unfolding http_login_read_def
  proof (rule res_ok_bindI [OF http_text_safe [OF inv b(1)]], clarify, rule res_ok_bindI [OF login_origin_safe], clarify)
    fix data len b' w client
    assume i1: "conn_inv H (set_bev bev b' s)" and o: "login_origin ld = Inr (w, client)"
    let ?s = "set_bev bev b' s"
    show "safe (conn_inv (H(bev := None))) (bind_res (read_at (threads ?s) w) (\<lambda>_.
        bind_res (http_login_answer e w client (ld_id ld) data len ?s) (bufferevent_free bev)))"
    proof (cases "w < length (threads s)")
      case True
      then have "unused_bev w client ?s" using clean o by (simp add: fresh_login_def)
      from http_login_answer_safe [OF i1 _ this] True have "safe (conn_inv H) (http_login_answer e w client (ld_id ld) data len ?s)"
        by simp
      then have "safe (conn_inv (H(bev := None))) (bind_res (http_login_answer e w client (ld_id ld) data len ?s) (bufferevent_free bev))"
        by (rule res_ok_bindI) (erule free_watched [where H = H and p = bev and c = c], rule H)
      with True show ?thesis by simp
    qed (simp add: read_at_def)
  qed
qed

lemma http_login_event_safe:
  assumes inv: "conn_inv H s" and H: "H bev = Some c"
    and other: "\<And>w client. login_origin ld = Inr (w, client) \<Longrightarrow> w < length (threads s) \<Longrightarrow>
      events AND (BEV_EVENT_EOF OR BEV_EVENT_ERROR) \<noteq> 0 \<Longrightarrow> bev_id (thr w s) (unat (ld_id ld)) = None"
  shows "safe (\<lambda>s'. conn_inv (H(bev := None)) s') (http_login_event e bev events ld s)"
proof -
  have weaken: "conn_inv (H(bev := None)) s1" if "conn_inv H s1" for s1
    using that unfolding conn_inv_def by (auto split: if_splits)
  from conn_invD(5) [OF inv H] obtain b where b: "bevs s bev = Some b" "bev_ctx b = c" by blast
  show ?thesis
    unfolding http_login_event_def
  proof (rule res_ok_bindI [OF login_origin_safe], clarify)
    fix w client
    assume o: "login_origin ld = Inr (w, client)"
    let ?post = "get_login_post_data (lib e) (analyser (thr w s)) (ld_id ld) (ld_token ld) (http_url (thr w s))
                  (map (junk e) [0..<1024])"
    have send: "safe (conn_inv (H(bev := None))) (bind_res ?post (\<lambda>(buffer, len, a).
       bind_res (write_output bev (take len buffer) (on_thr w (\<lambda>th. th\<lparr>analyser := a\<rparr>) s)) (\<lambda>(ok, s).
       if ok then Inr s else bufferevent_free bev s)))"
    proof (rule bind_safe [OF post_data_safe(1)])
      fix x :: "bytes \<times> nat \<times> 'a analyse_req"
      obtain buffer len a where x: "x = (buffer, len, a)" by (cases x)
      have i1: "conn_inv H (on_thr w (\<lambda>th. th\<lparr>analyser := a\<rparr>) s)" by (rule conn_inv_quiet [OF inv quiet_on_thr]) simp_all
      have "safe (conn_inv (H(bev := None))) (bind_res (write_output bev (take len buffer) (on_thr w (\<lambda>th. th\<lparr>analyser := a\<rparr>) s))
          (\<lambda>(ok, s). if ok then Inr s else bufferevent_free bev s))"
        by (rule res_ok_bindI [OF write_output_safe [OF i1, of bev b]]) (use b weaken in auto)
      then show "safe (conn_inv (H(bev := None))) (case x of (buffer, len, a) \<Rightarrow>
          bind_res (write_output bev (take len buffer) (on_thr w (\<lambda>th. th\<lparr>analyser := a\<rparr>) s)) (\<lambda>(ok, s).
          if ok then Inr s else bufferevent_free bev s))" by (simp add: x)
    qed
    show "safe (conn_inv (H(bev := None))) (bind_res (read_at (threads s) w) (\<lambda>_.
       if events AND (BEV_EVENT_EOF OR BEV_EVENT_ERROR) \<noteq> 0 then
         bind_res (if bev_id (thr w s) (unat (ld_id ld)) \<noteq> None then
              bind_res (login_failure e w (cstr ''http server error'') s) (\<lambda>(rsp_data, s).
              bind_res (write_output client rsp_data s) (\<lambda>(_, s). Inr s))
            else Inr s) (bufferevent_free bev)
       else if events AND BEV_EVENT_CONNECTED \<noteq> 0 then
         bind_res ?post (\<lambda>(buffer, len, a).
         bind_res (write_output bev (take len buffer) (on_thr w (\<lambda>th. th\<lparr>analyser := a\<rparr>) s)) (\<lambda>(ok, s).
         if ok then Inr s else bufferevent_free bev s))
       else Inr s))"
      using other [OF o] send weaken [OF inv] free_watched [OF inv H] by (simp add: res_ok_bind [of _ _ "read_at _ _"] read_at_def)
  qed
qed

section \<open>Transfer\<close>

lemma trans_origin_safe: "safe (\<lambda>(td, w). w < length (threads s)) (trans_origin p s)"
  by (auto simp: trans_origin_def message_at_def res_ok_bind read_at_def split: option.split)

lemma forward_quiet:
  "safe (quiet s) (bind_res (offer_message e p js s) (\<lambda>(ok, s). if ok then Inr s else delete_message p s))"
  by (rule quiet_bind2 [OF offer_message_quiet]) (simp add: delete_message_quiet)

lemma redis_trans_callback_safe:
  assumes inv: "conn_inv H s" and mm: "\<forall>k. mm e k"
  shows "safe (conn_inv H) (redis_trans_callback e reply p s)"
proof -
  have "safe (conn_inv H) (bind_res (http_trans_check e p s) (\<lambda>(ok, s). if ok then Inr s else delete_message p s))"
    unfolding http_trans_check_def
    by (rule res_ok_bindI [OF http_connect_safe [OF inv mm]])
      (auto simp: conn_at_def intro: safe_quiet [OF _ delete_message_quiet])
  moreover have "safe (conn_inv H) (bind_res (offer_message e p js s) (\<lambda>(ok, s). if ok then Inr s else delete_message p s))" for js
    by (rule safe_quiet [OF inv forward_quiet])
  ultimately show ?thesis
    unfolding redis_trans_callback_def
    by (intro res_ok_bindI [OF trans_origin_safe]) (auto split: option.split)
qed

lemma http_trans_read_safe:
  assumes inv: "conn_inv H s" and H: "H bev = Some c"
  shows "safe (conn_inv (H(bev := None))) (http_trans_read e bev p s)"
proof -
  from conn_invD(5) [OF inv H] obtain b where b: "bevs s bev = Some b" by blast
  have fin: "safe (conn_inv (H(bev := None))) (bind_res
      (if r then bind_res (offer_message e p js s1) (\<lambda>(ok, s). if ok then Inr s else delete_message p s)
       else delete_message p s1) (bufferevent_free bev))" if "conn_inv H s1" for r js s1
  proof -
    have "safe (conn_inv H) (if r then bind_res (offer_message e p js s1) (\<lambda>(ok, s). if ok then Inr s else delete_message p s)
        else delete_message p s1)"
      using safe_quiet [OF that forward_quiet] safe_quiet [OF that delete_message_quiet] by simp
    then show ?thesis by (rule res_ok_bindI) (erule free_watched [where H = H and p = bev and c = c], rule H)
  qed
  show ?thesis
    unfolding http_trans_read_def
  proof (rule res_ok_bindI [OF http_text_safe [OF inv b]], clarify, rule res_ok_bindI [OF trans_origin_safe], clarify,
      rule bind_safe [OF analyse_relation_data_safe])
    fix data len b' td w and x :: "bool \<times> 'a analyse_req"
    assume i1: "conn_inv H (set_bev bev b' s)"
    obtain r a where x: "x = (r, a)" by (cases x)
    have "conn_inv H (on_thr w (\<lambda>th. th\<lparr>analyser := a\<rparr>) (set_bev bev b' s))"
      by (rule conn_inv_quiet [OF i1 quiet_on_thr]) simp_all
    from fin [OF this] x show "safe (conn_inv (H(bev := None))) (case x of (r, a) \<Rightarrow>
        let s = on_thr w (\<lambda>th. th\<lparr>analyser := a\<rparr>) (set_bev bev b' s)
        in bind_res (if r then bind_res (offer_message e p [0..<work_thread_num (thr w s)] s) (\<lambda>(ok, s).
             if ok then Inr s else delete_message p s) else delete_message p s) (bufferevent_free bev))"
      by (simp add: Let_def)
  qed
qed

lemma http_trans_event_safe:
  assumes inv: "conn_inv H s" and H: "H bev = Some c"
  shows "safe (conn_inv (H(bev := None))) (http_trans_event e bev events p s)"
proof -
  have weaken: "conn_inv (H(bev := None)) s1" if "conn_inv H s1" for s1
    using that unfolding conn_inv_def by (auto split: if_splits)
  from conn_invD(5) [OF inv H] obtain b where b: "bevs s bev = Some b" by blast
  have closed: "safe (conn_inv (H(bev := None))) (bind_res (delete_message p s) (bufferevent_free bev))"
    by (rule res_ok_bindI [OF safe_quiet [OF inv delete_message_quiet]])
      (erule free_watched [where H = H and p = bev and c = c], rule H)
  have send: "safe (conn_inv (H(bev := None)))
      (bind_res (get_relation_post_data (lib e) (analyser (thr w s)) from_id to_id (http_url (thr w s)) (map (junk e) [0..<1024]))
        (\<lambda>(buffer, len, a). bind_res (write_output bev (take len buffer) (on_thr w (\<lambda>th. th\<lparr>analyser := a\<rparr>) s)) (\<lambda>(ok, s).
          if ok then Inr s else bind_res (bufferevent_free bev s) (delete_message p))))" for w from_id to_id
  proof (rule bind_safe [OF post_data_safe(2)])
    fix x :: "bytes \<times> nat \<times> 'a analyse_req"
    obtain buffer len a where x: "x = (buffer, len, a)" by (cases x)
    have i1: "conn_inv H (on_thr w (\<lambda>th. th\<lparr>analyser := a\<rparr>) s)" by (rule conn_inv_quiet [OF inv quiet_on_thr]) simp_all
    have "safe (conn_inv (H(bev := None))) (bind_res (write_output bev (take len buffer) (on_thr w (\<lambda>th. th\<lparr>analyser := a\<rparr>) s))
        (\<lambda>(ok, s). if ok then Inr s else bind_res (bufferevent_free bev s) (delete_message p)))"
      by (rule res_ok_bindI [OF write_output_safe [OF i1, of bev b]]) (use b weaken in auto)
    then show "safe (conn_inv (H(bev := None))) (case x of (buffer, len, a) \<Rightarrow>
        bind_res (write_output bev (take len buffer) (on_thr w (\<lambda>th. th\<lparr>analyser := a\<rparr>) s)) (\<lambda>(ok, s).
          if ok then Inr s else bind_res (bufferevent_free bev s) (delete_message p)))" by (simp add: x)
  qed
  show ?thesis
    unfolding http_trans_event_def
    by (rule res_ok_bindI [OF trans_origin_safe]) (use closed send weaken [OF inv] in \<open>auto split: option.split\<close>)
qed

section \<open>Friends\<close>

lemma status_packet_quiet: "safe (\<lambda>(des, n, s'). quiet s s') (status_packet e w i flag s)"
proof -
  have q: "quiet s (on_thr w (\<lambda>th. th\<lparr>me_status := m\<rparr>) s)" for m by (rule quiet_on_thr) simp_all
  have "safe (\<lambda>(des, n, s'). quiet s s') (bind_res (pack_data src p des) (\<lambda>(des, n). Inr (des, n, on_thr w (\<lambda>th. th\<lparr>me_status := m\<rparr>) s)))"
    for src p des m
    by (rule bind_safe [OF pack_data_safe]) (simp add: case_prod_beta q)
  then show ?thesis unfolding status_packet_def Let_def by (simp add: case_prod_beta)
qed

lemma find_online_safe: "safe (\<lambda>_. True) (find_online i js s)"
  by (induction js) (auto simp: res_ok_bind read_at_def)

lemma tell_friend_quiet: "safe (\<lambda>(st, s'). quiet s s') (tell_friend e w i d del to_id s)"
  unfolding tell_friend_def
proof (rule bind_safe [OF find_online_safe])
  fix found
  have "safe (\<lambda>(st, s'). quiet s s') (bind_res (new_message \<lparr>td_from_id = Some i, td_to_id = to_id, td_work_thread = None,
      td_msg_type = Some 0, td_data_size = Some (int (length d)), td_data = d\<rparr> s) (\<lambda>(p, s).
      bind_res (notify_new_msg e j p s) (\<lambda>(ok, s).
      bind_res (if ok \<or> \<not> del then Inr s else delete_message p s) (\<lambda>s. Inr (1 :: byte, s)))))" for j
  proof (rule quiet_bind3 [OF new_message_quiet], simp, clarify, rule quiet_bind3 [OF notify_new_msg_quiet], clarify)
    fix p ok and s1 :: "'a comet"
    have "safe (quiet s1) (if ok \<or> \<not> del then Inr s1 else delete_message p s1)" by (simp add: delete_message_quiet)
    then show "safe (\<lambda>(y, s''). quiet s1 s'') (bind_res (if ok \<or> \<not> del then Inr s1 else delete_message p s1) (\<lambda>s. Inr (1 :: byte, s)))"
      by (rule res_ok_bindI) simp
  qed
  then show "safe (\<lambda>(st, s'). quiet s s') (case found of None \<Rightarrow> Inr (0, s)
      | Some j \<Rightarrow> bind_res (new_message \<lparr>td_from_id = Some i, td_to_id = to_id, td_work_thread = None,
          td_msg_type = Some 0, td_data_size = Some (int (length d)), td_data = d\<rparr> s) (\<lambda>(p, s).
          bind_res (notify_new_msg e j p s) (\<lambda>(ok, s).
          bind_res (if ok \<or> \<not> del then Inr s else delete_message p s) (\<lambda>s. Inr (1 :: byte, s)))))"
    by (simp split: option.split)
qed

lemma online_friends_quiet: "safe (\<lambda>(sts, s'). quiet s s') (online_friends e w i d rs s)"
proof (induction rs arbitrary: s)
  case (Cons r rs)
  have q: "quiet s (on_thr w (\<lambda>th. th\<lparr>online_status := OnlineStatus_add_id_cstr str (online_status th)\<rparr>) s)" for str
    by (rule quiet_on_thr) simp_all
  have "safe (\<lambda>(sts, s'). quiet (on_thr w (\<lambda>th. th\<lparr>online_status := OnlineStatus_add_id_cstr str (online_status th)\<rparr>) s) s')
      (bind_res (tell_friend e w i d True (word_of_int (atoll str))
         (on_thr w (\<lambda>th. th\<lparr>online_status := OnlineStatus_add_id_cstr str (online_status th)\<rparr>) s)) (\<lambda>(st, s).
       bind_res (online_friends e w i d rs s) (\<lambda>(sts, s). Inr (st # sts, s))))" for str
    by (rule quiet_bind3 [OF tell_friend_quiet]) (auto intro: quiet_bind3 [OF Cons.IH])
  from quiet_after2 [OF q this] show ?case by (simp split: option.split)
qed simp

lemma offline_friends_quiet: "safe (quiet s) (offline_friends e w i d rs s)"
proof (induction rs arbitrary: s)
  case (Cons r rs)
  have "safe (quiet s) (bind_res (tell_friend e w i d False (word_of_int (atoll str)) s) (\<lambda>(_, s). offline_friends e w i d rs s))" for str
    by (rule quiet_bind2 [OF tell_friend_quiet]) (simp add: Cons.IH)
  then show ?case by (simp split: option.split)
qed simp

lemma send_friend_status_safe:
  assumes inv: "conn_inv H s" and b: "bevs s bev = Some b"
  shows "safe (conn_inv H) (send_friend_status e w bev sts s)"
proof -
  have i1: "conn_at H (length (threads s)) (on_thr w (\<lambda>th. th\<lparr>online_status := m\<rparr>) s)" for m
    by (rule conn_at_quiet [OF _ quiet_on_thr]) (simp_all add: conn_at_def inv)
  have "safe (conn_inv H) (bind_res (pack_data src p des) (\<lambda>(des, n).
      bind_res (write_output bev (take n des) (on_thr w (\<lambda>th. th\<lparr>online_status := m\<rparr>) s)) (\<lambda>(_, s). Inr s)))" for src p des m
  proof (rule bind_safe [OF pack_data_safe])
    fix x :: "bytes \<times> nat"
    show "safe (conn_inv H) (case x of (des, n) \<Rightarrow>
        bind_res (write_output bev (take n des) (on_thr w (\<lambda>th. th\<lparr>online_status := m\<rparr>) s)) (\<lambda>(_, s). Inr s))"
      using answer_done [OF i1, where bev = bev and b = b] b by (cases x) simp
  qed
  then show ?thesis unfolding send_friend_status_def Let_def by (simp add: case_prod_beta)
qed

lemma redis_online_notify_safe:
  assumes inv: "conn_inv H s"
  shows "safe (conn_inv H) (redis_online_notify e reply info s)"
proof (cases "friend_list reply = []")
  case False
  let ?w = "on_work_thread info" and ?bev = "on_bev info"
  let ?s = "on_thr ?w (\<lambda>th. th\<lparr>online_status := OnlineStatus_Clear (wire (lib e)) (online_status th)\<rparr>) s"
  have main: "safe (conn_inv H) (bind_res (status_packet e ?w (on_id info) 1 ?s) (\<lambda>(des, des_len, s).
      bind_res (online_friends e ?w (on_id info) (take des_len des) (friend_list reply) s) (\<lambda>(str_status, s).
        send_friend_status e ?w ?bev str_status s)))"
    if w: "?w < length (threads s)" and "bev_id (thr ?w s) ?bev = Some i" for i
  proof (rule res_ok_bindI [OF status_packet_quiet], clarify, rule res_ok_bindI [OF online_friends_quiet], clarify)
    fix s1 s2 sts
    assume q: "quiet ?s s1" "quiet s1 s2"
    have q0: "quiet s ?s" by (rule quiet_on_thr) simp_all
    have q2: "quiet s s2" by (rule quiet_trans [OF q0 quiet_trans [OF q]])
    from conn_invD(2) [OF inv that] quietD(1) [OF q2] obtain b where "bevs s2 ?bev = Some b" by auto
    then show "safe (conn_inv H) (send_friend_status e ?w ?bev sts s2)"
      by (rule send_friend_status_safe [OF conn_inv_quiet [OF inv q2]])
  qed
  with False inv show ?thesis
    by (auto simp: redis_online_notify_def Let_def res_ok_bind [of _ _ "read_at _ _"] read_at_def thr_def split: option.split)
qed (simp add: redis_online_notify_def inv)

lemma redis_offline_notify_safe:
  assumes inv: "conn_inv H s"
  shows "safe (conn_inv H) (redis_offline_notify e reply info s)"
proof -
  have "safe (quiet s) (bind_res (status_packet e w i 0 s) (\<lambda>(des, des_len, s).
      offline_friends e w i (take des_len des) rs s))" for w i rs
  proof (rule res_ok_bindI [OF status_packet_quiet], clarify)
    fix des n s1
    assume "quiet s s1"
    then show "safe (quiet s) (offline_friends e w i (take n des) rs s1)" by (rule quiet_after [OF _ offline_friends_quiet])
  qed
  then have "safe (quiet s) (redis_offline_notify e reply info s)"
    by (simp add: redis_offline_notify_def Let_def res_ok_bind [of _ _ "read_at _ _"] read_at_def)
  then show ?thesis by (rule safe_quiet [OF inv])
qed

section \<open>The event loop\<close>

text \<open>The events whose callbacks are safe only under a condition on the state: a login that succeeds on
  a connection that is logged in already, and a failed connection to the account service for a login
  whose id is the address of a connection.\<close>

fun disciplined :: "'u comet_event \<Rightarrow> 'u comet \<Rightarrow> bool" where
  "disciplined (BevRead p) s =
     (case bevs s p of Some b \<Rightarrow> (case bev_ctx b of LoginCtx ld \<Rightarrow> fresh_login ld s | _ \<Rightarrow> True) | None \<Rightarrow> True)"
| "disciplined (BevEvent p events) s =
     (case bevs s p of
        Some b \<Rightarrow> (case bev_ctx b of
          LoginCtx ld \<Rightarrow> (\<forall>w client. login_origin ld = Inr (w, client) \<longrightarrow> w < length (threads s) \<longrightarrow>
              bev_id (thr w s) (unat (ld_id ld)) = None) | _ \<Rightarrow> True)
      | None \<Rightarrow> True)"
| "disciplined (RedisReply t reply) s =
     (t < length (threads s) \<longrightarrow> (case redis (thr t s) of
        Some (c # cs) \<Rightarrow> (case rc_cb c of LoginCb ld \<Rightarrow> same_login ld s | _ \<Rightarrow> True) | _ \<Rightarrow> True))"
| "disciplined _ s = True"

lemma same_login_quiet:
  assumes "quiet s s'" and "same_login ld s"
  shows "same_login ld s'"
  unfolding same_login_def
proof (intro allI impI)
  fix w bev k sub
  assume a: "login_origin ld = Inr (w, bev)" "w < length (threads s')" "sub_map (thr w s') k = Some sub" "sub_bev sub = bev"
  from a(2) quietD(2) [OF assms(1)] have w: "w < length (threads s)" by simp
  from quietD(4) [OF assms(1) w, of k] a(3) obtain sub0 where "sub_map (thr w s) k = Some sub0" "sub_bev sub0 = sub_bev sub"
    by (cases "sub_map (thr w s) k") auto
  with a w assms(2) show "k = ld_id ld" by (auto simp: same_login_def)
qed

lemma redis_answer_safe:
  assumes inv: "conn_inv H s" and mm: "\<forall>k. mm e k" and "case cb of LoginCb ld \<Rightarrow> same_login ld s | _ \<Rightarrow> True"
  shows "safe (conn_inv H) (redis_answer e cb reply s)"
  using assms redis_login_callback_safe [OF inv mm] redis_trans_callback_safe [OF inv mm] redis_online_notify_safe [OF inv]
    redis_offline_notify_safe [OF inv]
  by (cases cb) (simp_all add: redis_answer_def)

abbreviation conn_ok :: "'u comet \<Rightarrow> bool" where
  "conn_ok \<equiv> conn_inv (\<lambda>_. None)"

lemma dispatch_conn:
  assumes inv: "conn_ok s" and mm: "\<forall>k. mm e k" and dis: "disciplined ev s"
  shows "safe conn_ok (dispatch e ev s)"
proof (cases ev)
  case (BevRead p)
  show ?thesis
  proof (cases "bevs s p")
    case (Some b)
    have w: "conn_inv [p \<mapsto> bev_ctx b] s" if "\<And>t. bev_ctx b \<noteq> ClientCtx t" using inv Some that by (rule conn_inv_watch)
    show ?thesis
    proof (cases "bev_ctx b")
      case (LoginCtx ld)
      with http_login_read_safe [OF w, of p "bev_ctx b" ld e] Some dis BevRead show ?thesis by simp
    next
      case (TransCtx m)
      with http_trans_read_safe [OF w, of p "bev_ctx b" e m] Some BevRead show ?thesis by simp
    qed (use BevRead Some inv bufferevent_read_callback_safe [OF inv _ Some] in simp)
  qed (use BevRead inv in simp)
next
  case (BevEvent p events)
  show ?thesis
  proof (cases "bevs s p")
    case (Some b)
    have w: "conn_inv [p \<mapsto> bev_ctx b] s" if "\<And>t. bev_ctx b \<noteq> ClientCtx t" using inv Some that by (rule conn_inv_watch)
    show ?thesis
    proof (cases "bev_ctx b")
      case (LoginCtx ld)
      with http_login_event_safe [OF w, of p "bev_ctx b" ld events e] Some dis BevEvent show ?thesis by simp
    next
      case (TransCtx m)
      with http_trans_event_safe [OF w, of p "bev_ctx b" e events m] Some BevEvent show ?thesis by simp
    qed (use BevEvent Some inv bufferevent_event_callback_safe [OF inv _ Some] in simp)
  qed (use BevEvent inv in simp)
next
  case (RedisReply t reply)
  have q: "quiet s (on_thr t (\<lambda>th. th\<lparr>redis := r\<rparr>) s)" for r by (rule quiet_on_thr) simp_all
  have "safe conn_ok (redis_answer e cb reply (on_thr t (\<lambda>th. th\<lparr>redis := r\<rparr>) s))"
    if "case cb of LoginCb ld \<Rightarrow> same_login ld s | _ \<Rightarrow> True" for cb r
    by (rule redis_answer_safe [OF conn_inv_quiet [OF inv q] mm])
      (use that in \<open>auto split: redis_cb.splits intro: same_login_quiet [OF q]\<close>)
  with RedisReply inv dis show ?thesis by (auto split: option.split list.split)
next
  case (ConnPipe t keys)
  with inv new_conn_loop_safe [OF inv mm] show ?thesis by (simp add: notify_new_conn_callback_def del: new_conn_loop.simps)
next
  case (MsgPipe t)
  with inv notify_new_msg_callback_safe [OF inv] show ?thesis by simp
next
  case (RedisConnect x)
  then show ?thesis by (auto simp: redis_connect_callback_def inv intro: conn_inv_quiet [OF inv])
next
  case (RedisDisconnect x)
  then show ?thesis by (auto simp: redis_disconnect_callback_def intro: conn_inv_quiet [OF inv])
qed

end
