(* ===== verification/Work_Thread_Msgs.thy ===== *)
theory Work_Thread_Msgs
  imports Work_Thread_Conn
begin

text \<open>
  Messages are used safely. A message is owned by exactly one place: a pipe, a redis command in
  flight, a connection to the account service, or the callback that is running. \<open>own_inv X F\<close> says so,
  where \<open>F\<close> are the messages of the running callback and the bufferevents \<open>X\<close> are not counted. Every
  callback keeps the invariant, so a message is never used after it was deleted and never deleted
  twice, on every sequence of events.
\<close>

section \<open>Ownership\<close>

abbreviation kept :: "('a \<Rightarrow> bool) \<Rightarrow> 'a res \<Rightarrow> bool" where
  "kept \<equiv> res_ok {FreedMessage}"

lemma sound_kept: "res_ok mem_faults Q r \<Longrightarrow> kept Q r"
  by (auto simp: res_ok_def split: sum.splits)

definition trans_ptr :: "redis_call \<Rightarrow> ptr list" where
  "trans_ptr c = (case rc_cb c of TransCb p \<Rightarrow> [p] | _ \<Rightarrow> [])"

definition calls_of :: "'u work_thread \<Rightarrow> redis_call list" where
  "calls_of th = (case redis th of None \<Rightarrow> [] | Some cs \<Rightarrow> cs)"

definition held :: "'u work_thread \<Rightarrow> ptr list" where
  "held th = new_msg_fd th @ concat (map trans_ptr (calls_of th))"

definition refs :: "'u comet \<Rightarrow> ptr \<Rightarrow> nat" where
  "refs s p = sum_list (map (\<lambda>th. count_list (held th) p) (threads s))"

definition http_refs :: "ptr set \<Rightarrow> 'u comet \<Rightarrow> ptr \<Rightarrow> ptr set" where
  "http_refs X s p = {b. b \<notin> X \<and> (\<exists>bv. bevs s b = Some bv \<and> bev_ctx bv = TransCtx p)}"

definition bevs_wf :: "'u comet \<Rightarrow> bool" where
  "bevs_wf s \<longleftrightarrow> (\<forall>p b. bevs s p = Some b \<longrightarrow> bev_wf b)"

definition own_inv :: "ptr set \<Rightarrow> ptr set \<Rightarrow> 'u comet \<Rightarrow> bool" where
  "own_inv X F s \<longleftrightarrow> bevs_wf s \<and>
     (\<forall>p. refs s p \<le> 1 \<and>
        (refs s p = 1 \<longrightarrow> http_refs X s p = {}) \<and>
        (\<forall>b \<in> http_refs X s p. \<forall>b' \<in> http_refs X s p. b = b') \<and>
        (refs s p = 1 \<or> http_refs X s p \<noteq> {} \<or> p \<in> F \<longrightarrow> messages s p \<noteq> None) \<and>
        (p \<in> F \<longrightarrow> refs s p = 0 \<and> http_refs X s p = {}))"

lemma own_invI:
  assumes "bevs_wf s" and "\<And>p. refs s p \<le> 1" and "\<And>p. refs s p = 1 \<Longrightarrow> http_refs X s p = {}"
    and "\<And>p b b'. b \<in> http_refs X s p \<Longrightarrow> b' \<in> http_refs X s p \<Longrightarrow> b = b'"
    and "\<And>p. refs s p = 1 \<Longrightarrow> messages s p \<noteq> None" and "\<And>p b. b \<in> http_refs X s p \<Longrightarrow> messages s p \<noteq> None"
    and "\<And>p. p \<in> F \<Longrightarrow> messages s p \<noteq> None" and "\<And>p. p \<in> F \<Longrightarrow> refs s p = 0 \<and> http_refs X s p = {}"
  shows "own_inv X F s"
  using assms unfolding own_inv_def by blast

lemma own_invD:
  assumes "own_inv X F s"
  shows "bevs_wf s" "refs s p \<le> 1" "refs s p = 1 \<Longrightarrow> http_refs X s p = {}"
    "b \<in> http_refs X s p \<Longrightarrow> b' \<in> http_refs X s p \<Longrightarrow> b = b'"
    "refs s p = 1 \<Longrightarrow> messages s p \<noteq> None" "b \<in> http_refs X s p \<Longrightarrow> messages s p \<noteq> None"
    "p \<in> F \<Longrightarrow> messages s p \<noteq> None" "p \<in> F \<Longrightarrow> refs s p = 0" "p \<in> F \<Longrightarrow> http_refs X s p = {}"
  using assms unfolding own_inv_def by blast+

text \<open>A message that is forgotten leaks, but nothing else happens.\<close>

lemma own_inv_forget: "own_inv X F s \<Longrightarrow> F' \<subseteq> F \<Longrightarrow> own_inv X F' s"
  unfolding own_inv_def by blast

lemma refs_pos_0: "own_inv X F s \<Longrightarrow> refs s p \<noteq> 1 \<Longrightarrow> refs s p = 0"
  using own_invD(2) [of X F s p] by linarith

lemma refs_on_thr:
  assumes "t < length (threads s)"
  shows "refs (on_thr t f s) p + count_list (held (thr t s)) p = refs s p + count_list (held (f (thr t s))) p"
proof -
  let ?c = "\<lambda>th. count_list (held th) p"
  have le: "?c (threads s ! t) \<le> sum_list (map ?c (threads s))"
    using assms elem_le_sum_list [of t "map ?c (threads s)"] by simp
  have "refs (on_thr t f s) p = sum_list (map ?c (threads s)) + ?c (f (threads s ! t)) - ?c (threads s ! t)"
    using assms by (simp add: refs_def on_thr_def map_update sum_list_update)
  with le show ?thesis by (simp add: refs_def thr_def)
qed

lemma refs_on_thr_same:
  assumes "\<And>th. held (f th) = held th"
  shows "refs (on_thr t f s) = refs s"
proof (cases "t < length (threads s)")
  case True
  then show ?thesis using refs_on_thr [OF True, of f] assms by (auto simp: fun_eq_iff)
qed (simp add: on_thr_def list_update_beyond)

text \<open>Steps that move no message.\<close>

definition mute :: "'u comet \<Rightarrow> 'u comet \<Rightarrow> bool" where
  "mute s s' \<longleftrightarrow> bevs_wf s' \<and> messages s' = messages s \<and> length (threads s') = length (threads s) \<and>
     (\<forall>t < length (threads s). new_msg_fd (thr t s') = new_msg_fd (thr t s) \<and>
        concat (map trans_ptr (calls_of (thr t s'))) = concat (map trans_ptr (calls_of (thr t s)))) \<and>
     (\<forall>p. http_refs {} s' p \<subseteq> http_refs {} s p)"

lemma mute_refl: "bevs_wf s \<Longrightarrow> mute s s"
  by (simp add: mute_def)

lemma mute_wf: "mute s s' \<Longrightarrow> bevs_wf s'"
  by (simp add: mute_def)

lemma mute_trans: "mute s s' \<Longrightarrow> mute s' s'' \<Longrightarrow> mute s s''"
  unfolding mute_def by (metis subset_trans)

lemma mute_refs:
  assumes "mute s s'"
  shows "refs s' = refs s"
proof -
  have "map (\<lambda>th. count_list (held th) p) (threads s') = map (\<lambda>th. count_list (held th) p) (threads s)" for p
    using assms by (intro nth_equalityI) (auto simp: mute_def held_def thr_def)
  then show ?thesis by (simp add: refs_def fun_eq_iff)
qed

lemma mute_http:
  assumes "mute s s'"
  shows "http_refs X s' p \<subseteq> http_refs X s p"
proof -
  have "http_refs X s p = http_refs {} s p - X" for s :: "'a comet" by (auto simp: http_refs_def)
  with assms show ?thesis by (auto simp: mute_def)
qed

lemma own_inv_mute:
  assumes "own_inv X F s" and "mute s s'"
  shows "own_inv X F s'"
proof (rule own_invI)
  have sub: "http_refs X s' p \<subseteq> http_refs X s p" for p by (rule mute_http [OF assms(2)])
  have same: "messages s' = messages s" "refs s' = refs s" "bevs_wf s'"
    using assms(2) mute_refs [OF assms(2)] by (simp_all add: mute_def)
  show "bevs_wf s'" by (rule same)
  show "refs s' p \<le> 1" for p using own_invD(2) [OF assms(1)] same by simp
  show "http_refs X s' p = {}" if "refs s' p = 1" for p using own_invD(3) [OF assms(1), of p] sub [of p] same that by auto
  show "b = b'" if "b \<in> http_refs X s' p" "b' \<in> http_refs X s' p" for p b b'
    using own_invD(4) [OF assms(1), of b p b'] sub [of p] that by blast
  show "messages s' p \<noteq> None" if "refs s' p = 1" for p using own_invD(5) [OF assms(1)] same that by simp
  show "messages s' p \<noteq> None" if "b \<in> http_refs X s' p" for p b using own_invD(6) [OF assms(1)] sub [of p] same that by auto
  show "messages s' p \<noteq> None" if "p \<in> F" for p using own_invD(7) [OF assms(1)] same that by simp
  show "refs s' p = 0 \<and> http_refs X s' p = {}" if "p \<in> F" for p
    using own_invD(8,9) [OF assms(1) that] sub [of p] same by auto
qed

lemma mute_on_thr:
  assumes "bevs_wf s" and "\<And>th. new_msg_fd (f th) = new_msg_fd th" and "\<And>th. redis (f th) = redis th"
  shows "mute s (on_thr t f s)"
  using assms by (auto simp: mute_def bevs_wf_def thr_on_thr http_refs_def calls_of_def)

lemma mute_free: "bevs_wf s \<Longrightarrow> mute s (s\<lparr>bevs := (bevs s)(p := None)\<rparr>)"
  by (auto simp: mute_def bevs_wf_def http_refs_def split: if_splits)

lemma mute_set_bev:
  assumes "bevs_wf s" and "bev_wf b" and "\<And>m. bev_ctx b = TransCtx m \<Longrightarrow> \<exists>b0. bevs s p = Some b0 \<and> bev_ctx b0 = TransCtx m"
  shows "mute s (set_bev p b s)"
  using assms by (auto simp: mute_def bevs_wf_def http_refs_def split: if_splits)

lemma mute_arena: "bevs_wf s \<Longrightarrow> mute s (s\<lparr>arena := as\<rparr>)"
  by (simp add: mute_def bevs_wf_def http_refs_def)

lemma mute_kills: "bevs_wf s \<Longrightarrow> mute s (s\<lparr>kills := as\<rparr>)"
  by (simp add: mute_def bevs_wf_def http_refs_def)

lemma mute_bind:
  assumes "kept (mute s) r" and "\<And>s'. mute s s' \<Longrightarrow> kept (mute s') (f s')"
  shows "kept (mute s) (bind_res r f)"
  by (rule res_ok_bindI [OF assms(1)]) (use assms(2) mute_trans in \<open>blast intro: res_ok_mono\<close>)

lemma mute_bind2:
  assumes "kept (\<lambda>(x, s'). mute s s') r" and "\<And>x s'. mute s s' \<Longrightarrow> kept (mute s') (f (x, s'))"
  shows "kept (mute s) (bind_res r f)"
proof (rule res_ok_bindI [OF assms(1)], clarify)
  fix x s'
  assume q: "mute s s'"
  from assms(2) [OF this] show "kept (mute s) (f (x, s'))" by (rule res_ok_mono) (rule mute_trans [OF q])
qed

lemma mute_after:
  assumes "mute s s'" and "kept (mute s') r"
  shows "kept (mute s) r"
  using assms(2) by (rule res_ok_mono) (use assms(1) mute_trans in blast)

lemma kept_mute:
  assumes "own_inv X F s" and "kept (mute s) r"
  shows "kept (own_inv X F) r"
  using assms(2) by (rule res_ok_mono) (rule own_inv_mute [OF assms(1)])

section \<open>Moving messages\<close>

lemma message_at_own:
  assumes "own_inv X F s" and "p \<in> F"
  shows "\<exists>td. message_at p s = Inr td"
  using own_invD(7) [OF assms(1,2)] by (auto simp: message_at_def)

lemma new_message_own:
  assumes inv: "own_inv X F s"
  shows "kept (\<lambda>(p, s'). own_inv X (insert p F) s' \<and> p \<notin> F) (new_message td s)"
proof (cases "malloc s")
  case (Some r)
  then obtain p s1 where m: "malloc s = Some (p, s1)" by (cases r) simp
  from malloc_Some [OF m] have new: "messages s p = None" and s1: "s1 = s\<lparr>arena := tl (arena s)\<rparr>" by (simp_all add: in_use_def)
  let ?s = "s\<lparr>arena := tl (arena s), messages := (messages s)(p \<mapsto> td)\<rparr>"
  have same: "refs ?s = refs s" "http_refs X ?s = http_refs X s" "bevs_wf ?s = bevs_wf s"
    by (simp_all add: refs_def http_refs_def bevs_wf_def fun_eq_iff)
  have p: "refs s p = 0" "http_refs X s p = {}" using own_invD(5) [OF inv, of p] own_invD(6) [OF inv, where p = p] new refs_pos_0 [OF inv] by auto
  have "own_inv X (insert p F) ?s"
    by (rule own_invI) (use own_invD [OF inv] p in \<open>auto simp: same\<close>)
  moreover have "p \<notin> F" using own_invD(7) [OF inv, of p] new by auto
  ultimately show ?thesis using m s1 by (simp add: new_message_def)
qed (simp add: new_message_def)

lemma delete_message_own:
  assumes inv: "own_inv X F s" and p: "p \<in> F"
  shows "kept (own_inv X (F - {p})) (delete_message p s)"
proof -
  let ?s = "s\<lparr>messages := (messages s)(p := None)\<rparr>"
  have same: "refs ?s = refs s" "http_refs X ?s = http_refs X s" "bevs_wf ?s = bevs_wf s"
    by (simp_all add: refs_def http_refs_def bevs_wf_def fun_eq_iff)
  have "own_inv X (F - {p}) ?s"
    by (rule own_invI) (use own_invD [OF inv] own_invD(8,9) [OF inv p] in \<open>auto simp: same\<close>)
  with message_at_own [OF assms] show ?thesis by (auto simp: delete_message_def)
qed

text \<open>A message of the callback goes to a worker.\<close>

lemma own_inv_give:
  assumes inv: "own_inv X F s" and p: "p \<in> F"
    and f: "\<And>q. count_list (held (f (thr t s))) q = count_list (held (thr t s)) q + (if q = p then 1 else 0)"
  shows "own_inv X (F - {p}) (on_thr t f s)"
proof (cases "t < length (threads s)")
  case True
  have r: "refs (on_thr t f s) q = refs s q + (if q = p then 1 else 0)" for q
    using refs_on_thr [OF True, of f q] f by simp
  have same: "http_refs X (on_thr t f s) = http_refs X s" "bevs_wf (on_thr t f s) = bevs_wf s"
    by (simp_all add: http_refs_def bevs_wf_def fun_eq_iff)
  show ?thesis
    by (rule own_invI) (use own_invD [OF inv] own_invD(8,9) [OF inv p] p in \<open>auto simp: same r split: if_splits\<close>)
next
  case False
  then have "on_thr t f s = s" by (simp add: on_thr_def list_update_beyond)
  with own_inv_forget [OF inv] show ?thesis by auto
qed

lemma notify_new_msg_own:
  assumes inv: "own_inv X F s" and p: "p \<in> F"
  shows "kept (\<lambda>(ok, s'). own_inv X (if ok then F - {p} else F) s') (notify_new_msg e t p s)"
proof -
  have give: "own_inv X (F - {p}) (on_thr t (\<lambda>th. th\<lparr>new_msg_fd := new_msg_fd (thr t s) @ [p]\<rparr>) s)"
    by (rule own_inv_give [OF assms]) (simp add: held_def calls_of_def)
  have keep: "own_inv X F (on_thr t (\<lambda>th. th\<lparr>new_msg_fd := new_msg_fd (thr t s)\<rparr>) s)"
  proof -
    have "on_thr t (\<lambda>th. th\<lparr>new_msg_fd := new_msg_fd (thr t s)\<rparr>) s = s"
      by (cases "t < length (threads s)") (simp_all add: on_thr_def thr_def list_update_beyond)
    with inv show ?thesis by simp
  qed
  from message_at_own [OF assms] obtain td where "message_at p s = Inr td" by blast
  then show ?thesis using give keep inv by (simp add: notify_new_msg_def pipe_write_def EAGAIN_def)
qed

lemma offer_message_own:
  assumes "own_inv X F s" and p: "p \<in> F"
  shows "kept (\<lambda>(ok, s'). own_inv X (if ok then F - {p} else F) s') (offer_message e p js s)"
  using assms(1)
proof (induction js arbitrary: s)
  case (Cons j js)
  have "kept (\<lambda>(ok, s'). own_inv X (if ok then F - {p} else F) s') (bind_res (notify_new_msg e j p s) (\<lambda>(ok, s).
      if ok then Inr (True, s) else offer_message e p js s))"
    by (rule res_ok_bindI [OF notify_new_msg_own [OF Cons.prems p]]) (use Cons.IH in \<open>auto split: if_splits\<close>)
  then show ?case by (simp add: res_ok_bind [of _ _ "read_at _ _"] read_at_def)
qed simp

lemma forward_own:
  assumes "own_inv X F s" and p: "p \<in> F"
  shows "kept (own_inv X (F - {p})) (bind_res (offer_message e p js s) (\<lambda>(ok, s). if ok then Inr s else delete_message p s))"
proof (rule res_ok_bindI [OF offer_message_own [OF assms]], clarify)
  fix ok and s1 :: "'a comet"
  assume "own_inv X (if ok then F - {p} else F) s1"
  then show "kept (own_inv X (F - {p})) (if ok then Inr s1 else delete_message p s1)"
    using delete_message_own [of X F s1 p] p by (cases ok) simp_all
qed

lemma notify_del_id_own:
  assumes "own_inv X F s"
  shows "kept (own_inv X F) (notify_del_id e t i s)"
proof (cases "sub_map (thr t s) i = None")
  case False
  have "kept (own_inv X F) (bind_res (new_message td s) (\<lambda>(p, s).
      bind_res (notify_new_msg e t p s) (\<lambda>(ok, s). if ok then Inr s else delete_message p s)))" for td
  proof (rule res_ok_bindI [OF new_message_own [OF assms]], clarify)
    fix p and s1 :: "'a comet"
    assume i1: "own_inv X (insert p F) s1" and p: "p \<notin> F"
    have out: "own_inv X F s2" if "own_inv X (insert p F - {p}) s2" for s2
      using that by (rule own_inv_forget) (use p in auto)
    have "kept (own_inv X (insert p F - {p})) (bind_res (notify_new_msg e t p s1) (\<lambda>(ok, s). if ok then Inr s else delete_message p s))"
      using delete_message_own [of X "insert p F" _ p]
      by (intro res_ok_bindI [OF notify_new_msg_own [OF i1]]) (auto split: if_splits)
    then show "kept (own_inv X F) (bind_res (notify_new_msg e t p s1) (\<lambda>(ok, s). if ok then Inr s else delete_message p s))"
      by (rule res_ok_mono) (rule out)
  qed
  with False show ?thesis by (simp add: notify_del_id_def)
qed (simp add: notify_del_id_def assms)

lemma notify_del_all_own:
  assumes "own_inv X F s"
  shows "kept (own_inv X F) (notify_del_all e skip n i s)"
  unfolding notify_del_all_def
  by (rule fold_res_ok) (use assms in \<open>auto simp: res_ok_bind read_at_def intro: notify_del_id_own\<close>)

lemma redisAsyncCommand_mute:
  assumes "bevs_wf s" and "\<And>p. cb \<noteq> TransCb p"
  shows "kept (mute s) (redisAsyncCommand e t cb cmd s)"
proof (cases "redis (thr t s)")
  case (Some calls)
  have "trans_ptr \<lparr>rc_text = cmd, rc_cb = cb\<rparr> = []" using assms(2) by (simp add: trans_ptr_def split: redis_cb.split)
  then have "mute s (on_thr t (\<lambda>th. th\<lparr>redis := Some (calls @ [\<lparr>rc_text = cmd, rc_cb = cb\<rparr>])\<rparr>) s)"
    using assms(1) Some by (auto simp: mute_def bevs_wf_def thr_on_thr http_refs_def calls_of_def)
  with Some mute_refl [OF assms(1)] show ?thesis by (simp add: redisAsyncCommand_def)
qed (simp add: redisAsyncCommand_def)

lemma redisAsyncCommand_own:
  assumes inv: "own_inv X F s" and p: "p \<in> F"
  shows "kept (own_inv X (F - {p})) (redisAsyncCommand e t (TransCb p) cmd s)"
proof (cases "redis (thr t s)")
  case (Some calls)
  have "own_inv X (F - {p}) (on_thr t (\<lambda>th. th\<lparr>redis := Some (calls @ [\<lparr>rc_text = cmd, rc_cb = TransCb p\<rparr>])\<rparr>) s)"
    by (rule own_inv_give [OF assms]) (simp add: held_def calls_of_def Some trans_ptr_def)
  moreover have "own_inv X (F - {p}) s" by (rule own_inv_forget [OF inv]) auto
  ultimately show ?thesis using Some by (simp add: redisAsyncCommand_def)
qed (simp add: redisAsyncCommand_def)

text \<open>The callback takes the first item of a pipe or the first answer of redis.\<close>

lemma own_inv_take:
  assumes inv: "own_inv X F s" and t: "t < length (threads s)"
    and f: "\<And>q. count_list (held (thr t s)) q = count_list (held (f (thr t s))) q + (if q = p then 1 else 0)"
  shows "own_inv X (insert p F) (on_thr t f s)"
proof (rule own_invI)
  have r: "refs s q = refs (on_thr t f s) q + (if q = p then 1 else 0)" for q
    using refs_on_thr [OF t, of f q] f [of q] by simp
  then have rp: "refs s p = 1" "refs (on_thr t f s) p = 0" and rq: "q \<noteq> p \<Longrightarrow> refs (on_thr t f s) q = refs s q" for q
    using own_invD(2) [OF inv, of p] by auto
  have same: "http_refs X (on_thr t f s) = http_refs X s" "bevs_wf (on_thr t f s) = bevs_wf s"
    by (simp_all add: http_refs_def bevs_wf_def fun_eq_iff)
  show "bevs_wf (on_thr t f s)" using own_invD(1) [OF inv] same by simp
  show "refs (on_thr t f s) q \<le> 1" for q using own_invD(2) [OF inv, of q] r [of q] by simp
  show "http_refs X (on_thr t f s) q = {}" if "refs (on_thr t f s) q = 1" for q
    using own_invD(3) [OF inv, of q] that rp rq [of q] same by (cases "q = p") auto
  show "b = b'" if "b \<in> http_refs X (on_thr t f s) q" "b' \<in> http_refs X (on_thr t f s) q" for q b b'
    using own_invD(4) [OF inv, of b q b'] that same by simp
  show "messages (on_thr t f s) q \<noteq> None" if "refs (on_thr t f s) q = 1" for q
    using own_invD(5) [OF inv, of q] that rp rq [of q] by (cases "q = p") auto
  show "messages (on_thr t f s) q \<noteq> None" if "b \<in> http_refs X (on_thr t f s) q" for q b
    using own_invD(6) [OF inv, of b q] that same by simp
  show "messages (on_thr t f s) q \<noteq> None" if "q \<in> insert p F" for q
    using own_invD(7) [OF inv, of q] own_invD(5) [OF inv rp(1)] that by auto
  show "refs (on_thr t f s) q = 0 \<and> http_refs X (on_thr t f s) q = {}" if "q \<in> insert p F" for q
    using own_invD(8,9) [OF inv, of q] own_invD(3) [OF inv rp(1)] that rp rq [of q] same by (cases "q = p") auto
qed

lemma own_inv_take_notin:
  assumes inv: "own_inv X F s" and t: "t < length (threads s)" and p: "p \<in> set (held (thr t s))"
  shows "p \<notin> F"
proof
  assume "p \<in> F"
  with own_invD(8) [OF inv] have "refs s p = 0" by simp
  moreover have "count_list (held (thr t s)) p \<le> refs s p"
    using elem_le_sum_list [of t "map (\<lambda>th. count_list (held th) p) (threads s)"] t by (simp add: refs_def thr_def)
  ultimately show False using p by (simp add: count_list_0_iff)
qed

section \<open>Bufferevents\<close>

lemma write_output_mute:
  assumes "bevs_wf s"
  shows "kept (\<lambda>(ok, s'). mute s s') (write_output p d s)"
proof (cases "bevs s p")
  case (Some b)
  with assms have wf: "bev_wf b" by (auto simp: bevs_wf_def)
  then have "ev_sink (bev_output b)" by (simp add: bev_wf_def)
  from ev.add [OF this, of d] obtain out where "evbuffer_add d (bev_output b) = Inr (True, out)" "ev_sink out" by blast
  moreover have "mute s (set_bev p (b\<lparr>bev_output := out\<rparr>) s)" if "ev_sink out"
    by (rule mute_set_bev [OF assms]) (use wf that Some in \<open>auto simp: bev_wf_def\<close>)
  ultimately show ?thesis using Some by (simp add: write_output_def bev_at_def)
qed (simp add: write_output_def bev_at_def)

lemma answer_mute:
  assumes "bevs_wf s"
  shows "kept (mute s) (bind_res (write_output p d s) (\<lambda>(_, s). Inr s))"
  by (rule mute_bind2 [OF write_output_mute [OF assms]]) (auto intro: mute_refl mute_wf)

lemma bufferevent_free_mute:
  assumes "bevs_wf s"
  shows "kept (mute s) (bufferevent_free p s)"
  using mute_free [OF assms] by (auto simp: bufferevent_free_def bev_at_def split: option.split)

lemma bufferevent_socket_new_mute:
  assumes wf: "bevs_wf s" and mm: "\<forall>k. mm e k" and c: "\<And>m. c \<noteq> TransCtx m"
  shows "kept (\<lambda>(p, s'). mute s s') (bufferevent_socket_new e c s)"
proof (cases "malloc s")
  case (Some r)
  then obtain p s1 where m: "malloc s = Some (p, s1)" by (cases r) simp
  have "mute s (set_bev p \<lparr>bev_input = evbuffer_freeze False (evbuffer_new (mm e)),
      bev_output = evbuffer_freeze True (evbuffer_new (mm e)), bev_ctx = c\<rparr> s1)"
    unfolding malloc_Some(2) [OF m]
    by (rule mute_trans [OF mute_arena [OF wf] mute_set_bev]) (use wf c new_bev_wf [OF mm] in \<open>auto simp: bevs_wf_def\<close>)
  with m show ?thesis by (simp add: bufferevent_socket_new_def)
qed (simp add: bufferevent_socket_new_def)

lemma http_connect_mute:
  assumes wf: "bevs_wf s" and mm: "\<forall>k. mm e k" and c: "\<And>m. c \<noteq> TransCtx m"
  shows "kept (\<lambda>(ok, s'). mute s s') (http_connect e c s)"
  unfolding http_connect_def
proof (rule res_ok_bindI [OF bufferevent_socket_new_mute [OF assms]], clarify)
  fix p s1
  assume q: "mute s s1"
  have "kept (\<lambda>(ok, s'). mute s s') (bind_res (bufferevent_free p s1) (\<lambda>s. Inr (False, s)))"
    by (rule res_ok_bindI [OF bufferevent_free_mute [OF mute_wf [OF q]]]) (auto intro: mute_trans [OF q])
  with q show "kept (\<lambda>(ok, s'). mute s s') (if connects e then Inr (True, s1)
      else bind_res (bufferevent_free p s1) (\<lambda>s. Inr (False, s)))" by simp
qed

text \<open>A connection to the account service takes a message over.\<close>

lemma own_inv_http:
  assumes inv: "own_inv X F s" and p: "p \<in> F" and b: "bevs s q = None" "bev_wf b" "bev_ctx b = TransCtx p" "q \<notin> X"
  shows "own_inv X (F - {p}) (set_bev q b s)"
proof (rule own_invI)
  have r: "refs (set_bev q b s) = refs s" by (simp add: refs_def fun_eq_iff)
  have h: "http_refs X (set_bev q b s) m = (if m = p then {q} else http_refs X s m)" for m
    using b own_invD(9) [OF inv p] by (auto simp: http_refs_def)
  have p0: "refs s p = 0" by (rule own_invD(8) [OF inv p])
  show "bevs_wf (set_bev q b s)" using own_invD(1) [OF inv] b by (auto simp: bevs_wf_def)
  show "refs (set_bev q b s) m \<le> 1" for m using own_invD(2) [OF inv] r by simp
  show "http_refs X (set_bev q b s) m = {}" if "refs (set_bev q b s) m = 1" for m
    using own_invD(3) [OF inv, of m] that p0 by (auto simp: r h)
  show "x = y" if "x \<in> http_refs X (set_bev q b s) m" "y \<in> http_refs X (set_bev q b s) m" for m x y
    using own_invD(4) [OF inv, of x m y] that by (auto simp: h split: if_splits)
  show "messages (set_bev q b s) m \<noteq> None" if "refs (set_bev q b s) m = 1" for m
    using own_invD(5) [OF inv, of m] that by (simp add: r)
  show "messages (set_bev q b s) m \<noteq> None" if "x \<in> http_refs X (set_bev q b s) m" for m x
    using own_invD(6) [OF inv, of x m] own_invD(7) [OF inv p] that by (auto simp: h split: if_splits)
  show "messages (set_bev q b s) m \<noteq> None" if "m \<in> F - {p}" for m using own_invD(7) [OF inv, of m] that by simp
  show "refs (set_bev q b s) m = 0 \<and> http_refs X (set_bev q b s) m = {}" if "m \<in> F - {p}" for m
    using own_invD(8,9) [OF inv, of m] that by (auto simp: r h)
qed

lemma http_trans_check_own:
  assumes inv: "own_inv {} F s" and mm: "\<forall>k. mm e k" and p: "p \<in> F"
  shows "kept (\<lambda>(ok, s'). own_inv {} (if ok then F - {p} else F) s') (http_trans_check e p s)"
proof (cases "malloc s")
  case (Some r)
  then obtain q s1 where m: "malloc s = Some (q, s1)" by (cases r) simp
  from malloc_Some [OF m] have q: "bevs s q = None" and s1: "s1 = s\<lparr>arena := tl (arena s)\<rparr>" by (simp_all add: in_use_def)
  let ?b = "\<lparr>bev_input = evbuffer_freeze False (evbuffer_new (mm e)),
      bev_output = evbuffer_freeze True (evbuffer_new (mm e)), bev_ctx = TransCtx p\<rparr>"
  have i1: "own_inv {} F s1" unfolding s1 by (rule own_inv_mute [OF inv mute_arena [OF own_invD(1) [OF inv]]])
  have "own_inv {} (F - {p}) (set_bev q ?b s1)"
    by (rule own_inv_http [OF i1 p _ new_bev_wf [OF mm]]) (simp_all add: q s1)
  moreover have "(set_bev q ?b s1)\<lparr>bevs := (bevs (set_bev q ?b s1))(q := None)\<rparr> = s1"
    using q s1 by (simp add: set_bev_def fun_upd_idem)
  ultimately show ?thesis using m i1
    by (auto simp: http_trans_check_def http_connect_def bufferevent_socket_new_def bufferevent_free_def bev_at_def)
qed (simp add: http_trans_check_def http_connect_def bufferevent_socket_new_def)

section \<open>Connections and expiry\<close>

lemma send_offline_mute: "bevs_wf s \<Longrightarrow> kept (mute s) (send_offline e t i s)"
  by (simp add: send_offline_def mute_refl redisAsyncCommand_mute)

lemma free_then_mute:
  assumes wf: "bevs_wf s" and "\<And>s'. bevs_wf s' \<Longrightarrow> kept (mute s') (f s')"
  shows "kept (mute s) (bind_res (bufferevent_free p s) f)"
  by (rule mute_bind [OF bufferevent_free_mute [OF wf]]) (use assms(2) mute_wf in blast)

lemma expire_one_mute:
  assumes wf: "bevs_wf s"
  shows "kept (mute s) (expire_one e t tv bev s)"
proof -
  have "kept (mute s1) (send_offline e t i (on_thr t (\<lambda>th. th\<lparr>bev_id := (bev_id th)(bev := None),
      conn_num := c_int (conn_num th - 1), sub_map := (sub_map th)(i := None)\<rparr>) s1))" if "bevs_wf s1" for i s1
    by (rule mute_after [OF mute_on_thr [OF that] send_offline_mute]) (use that in \<open>simp_all add: bevs_wf_def\<close>)
  then show ?thesis using mute_refl [OF wf] free_then_mute [OF wf]
    by (auto simp: expire_one_def split: option.split)
qed

lemma del_expire_client_mute:
  assumes wf: "bevs_wf s"
  shows "kept (mute s) (del_expire_client e t order s)"
proof -
  have "kept (mute s) (fold_res (expire_one e t tv) order s)" for tv
    by (rule fold_res_ok, rule mute_refl [OF wf]) (rule mute_after [OF _ expire_one_mute], auto intro: mute_wf)
  then show ?thesis using mute_refl [OF wf] by (simp add: del_expire_client_def split: option.split)
qed

lemma new_client_mute:
  assumes wf: "bevs_wf s" and mm: "\<forall>k. mm e k"
  shows "kept (mute s) (new_client e t s)"
  unfolding new_client_def
  by (rule mute_bind2 [OF bufferevent_socket_new_mute [OF wf mm]]) (auto intro!: mute_on_thr dest: mute_wf)

lemma new_conn_loop_mute:
  assumes "bevs_wf s" and mm: "\<forall>k. mm e k"
  shows "kept (mute s) (new_conn_loop e t keys n s)"
  using assms(1)
proof (induction n arbitrary: s)
  case 0
  then show ?case by (auto intro!: mute_on_thr)
next
  case (Suc n)
  show ?case
  proof (cases "new_conn_fd (thr t s)")
    case (Cons data rest)
    let ?s = "on_thr t (\<lambda>th. th\<lparr>new_conn_fd := rest\<rparr>) s"
    have q: "mute s ?s" by (rule mute_on_thr [OF Suc.prems]) simp_all
    note wf = mute_wf [OF q]
    have "kept (mute ?s) (bind_res (new_client e t ?s) (new_conn_loop e t keys n))"
      by (rule mute_bind [OF new_client_mute [OF wf mm]]) (rule Suc.IH, erule mute_wf)
    moreover have "kept (mute ?s) (bind_res (del_expire_client e t (keys ?s) ?s) (new_conn_loop e t keys n))"
      by (rule mute_bind [OF del_expire_client_mute [OF wf]]) (rule Suc.IH, erule mute_wf)
    moreover have "mute ?s (on_thr t (\<lambda>th. th\<lparr>loop_broken := True\<rparr>) ?s)" by (rule mute_on_thr [OF wf]) simp_all
    ultimately show ?thesis using Cons mute_after [OF q] Suc.IH [OF wf] mute_trans [OF q] by (simp add: Let_def)
  qed (use Suc.prems in \<open>simp add: mute_refl\<close>)
qed

section \<open>Delivery\<close>

lemma translate_msg_mute:
  assumes wf: "bevs_wf s"
  shows "kept (mute s) (translate_msg t td s)"
  using mute_refl [OF wf] answer_mute [OF wf]
  by (auto simp: translate_msg_def bev_at_def res_ok_bind [of _ _ "read_range _ _ _"] read_range_def split: option.split)

lemma delete_old_id_mute:
  assumes wf: "bevs_wf s"
  shows "kept (mute s) (delete_old_id t i s)"
  using mute_refl [OF wf]
  by (auto simp: delete_old_id_def intro!: free_then_mute [OF wf] mute_on_thr split: option.split)

lemma handle_msg_own:
  assumes inv: "own_inv X F s" and p: "p \<in> F"
  shows "kept (\<lambda>s'. own_inv X (F - {p}) s' \<and> length (threads s') = length (threads s) \<and>
    (\<forall>t < length (threads s). new_msg_fd (thr t s') = new_msg_fd (thr t s))) (handle_msg t p s)"
proof -
  note wf = own_invD(1) [OF inv]
  from message_at_own [OF assms] obtain td where td: "message_at p s = Inr td" by blast
  have mid: "kept (mute s) (case td_msg_type td of None \<Rightarrow> Inl UninitialisedRead
      | Some ty \<Rightarrow> if ty = 0 then translate_msg t td s else if ty = 1 then delete_old_id t (td_to_id td) s else Inl AssertFailed)"
    using translate_msg_mute [OF wf] delete_old_id_mute [OF wf] by (simp split: option.split)
  have fin: "kept (\<lambda>s'. own_inv X (F - {p}) s' \<and> length (threads s') = length (threads s) \<and>
      (\<forall>t < length (threads s). new_msg_fd (thr t s') = new_msg_fd (thr t s))) (delete_message p s1)" if q: "mute s s1" for s1
  proof -
    have i1: "own_inv X F s1" by (rule own_inv_mute [OF inv q])
    from message_at_own [OF i1 p] obtain td1 where "message_at p s1 = Inr td1" by blast
    with delete_message_own [OF i1 p] q show ?thesis by (simp add: delete_message_def mute_def)
  qed
  show ?thesis unfolding handle_msg_def td by simp (rule res_ok_bindI [OF mid], rule fin)
qed

lemma notify_new_msg_callback_own:
  assumes "own_inv X F s" and t: "t < length (threads s)"
  shows "kept (own_inv X F) (notify_new_msg_callback t s)"
proof -
  have "kept (own_inv X F) (fold_res (\<lambda>p s. handle_msg t p (on_thr t (\<lambda>th. th\<lparr>new_msg_fd := drop 1 (new_msg_fd th)\<rparr>) s)) ps s)"
    if "new_msg_fd (thr t s) = ps" for ps
    using assms that
  proof (induction ps arbitrary: s)
    case (Cons p ps)
    let ?f = "\<lambda>th. th\<lparr>new_msg_fd := drop 1 (new_msg_fd th)\<rparr>"
    let ?s = "on_thr t ?f s"
    have i1: "own_inv X (insert p F) ?s"
      by (rule own_inv_take [OF Cons.prems(1,2)]) (simp add: held_def calls_of_def Cons.prems(3))
    have p: "p \<notin> F" by (rule own_inv_take_notin [OF Cons.prems(1,2)]) (simp add: held_def Cons.prems(3))
    have ps: "new_msg_fd (thr t ?s) = ps" using Cons.prems by (simp add: thr_on_thr)
    show ?case
      unfolding fold_res.simps
    proof (rule res_ok_bindI [OF handle_msg_own [OF i1, of p t]], simp)
      fix s1 :: "'a comet"
      assume a: "own_inv X (insert p F - {p}) s1 \<and> length (threads s1) = length (threads ?s) \<and>
        (\<forall>t < length (threads ?s). new_msg_fd (thr t s1) = new_msg_fd (thr t ?s))"
      then have "own_inv X F s1" using p by (auto elim: own_inv_forget)
      with a Cons.IH [of s1] ps Cons.prems(2)
      show "kept (own_inv X F) (fold_res (\<lambda>p s. handle_msg t p (on_thr t ?f s)) ps s1)" by simp
    qed
  qed simp
  then show ?thesis by (simp add: notify_new_msg_callback_def)
qed

section \<open>Client data\<close>

lemma read_login_mute:
  assumes wf: "bevs_wf s"
  shows "kept (mute s) (read_login e t bev s)"
proof -
  have q: "mute s (on_thr t (\<lambda>th. th\<lparr>analyser := a\<rparr>) s)" for a by (rule mute_on_thr [OF wf]) simp_all
  show ?thesis
    by (auto simp: read_login_def Let_def q intro!: mute_after [OF q redisAsyncCommand_mute [OF mute_wf [OF q]]]
        split: prod.split option.split)
qed

lemma read_heart_mute: "bevs_wf s \<Longrightarrow> mute s (read_heart e t i s)"
  by (auto simp: read_heart_def intro!: mute_on_thr split: prod.split)

lemma read_trans_own:
  assumes inv: "own_inv X F s"
  shows "kept (own_inv X F) (read_trans e t i s)"
proof (cases "get_trans_data (analyser (thr t s))")
  case (Pair td a)
  let ?s = "on_thr t (\<lambda>th. th\<lparr>analyser := a\<rparr>) s"
  have i1: "own_inv X F ?s" by (rule own_inv_mute [OF inv mute_on_thr [OF own_invD(1) [OF inv]]]) simp_all
  show ?thesis
  proof (cases td)
    case (Some td)
    have "kept (own_inv X F) (bind_res (new_message (td\<lparr>td_msg_type := Some 0, td_work_thread := Some t\<rparr>) ?s) (\<lambda>(p, s).
       if i \<noteq> 0 \<and> td_from_id td = Some i then
         if special_id i \<or> special_id (td_to_id td) then
           bind_res (send_message e t p s) (\<lambda>(ok, s). if ok then Inr s else delete_message p s)
         else bind_res (zscore_cmd (td_from_id td) (td_to_id td)) (\<lambda>cmd. redisAsyncCommand e t (TransCb p) cmd s)
       else delete_message p s))"
    proof (rule res_ok_bindI [OF new_message_own [OF i1]], clarify)
      fix p and s1 :: "'a comet"
      assume i2: "own_inv X (insert p F) s1" and p: "p \<notin> F"
      have F: "insert p F - {p} = F" using p by auto
      have pF: "p \<in> insert p F" by simp
      have "kept (own_inv X F) (delete_message p s1)"
        "kept (own_inv X F) (bind_res (send_message e t p s1) (\<lambda>(ok, s). if ok then Inr s else delete_message p s))"
        "kept (own_inv X F) (redisAsyncCommand e t (TransCb p) cmd s1)" for cmd
        using delete_message_own [OF i2 pF] forward_own [OF i2 pF] redisAsyncCommand_own [OF i2 pF]
        unfolding F send_message_def by blast+
      then show "kept (own_inv X F) (if i \<noteq> 0 \<and> td_from_id td = Some i then
         if special_id i \<or> special_id (td_to_id td) then
           bind_res (send_message e t p s1) (\<lambda>(ok, s). if ok then Inr s else delete_message p s)
         else bind_res (zscore_cmd (td_from_id td) (td_to_id td)) (\<lambda>cmd. redisAsyncCommand e t (TransCb p) cmd s1)
       else delete_message p s1)" by (simp add: zscore_cmd_def)
    qed
    with Pair Some show ?thesis by (simp add: read_trans_def Let_def)
  qed (use Pair i1 in \<open>simp add: read_trans_def Let_def\<close>)
qed

lemma read_loop_own:
  assumes "own_inv X F s"
  shows "kept (own_inv X F) (read_loop e t bev i n s)"
  using assms
proof (induction n arbitrary: s)
  case (Suc n)
  show ?case
  proof (cases "bevs s bev")
    case (Some b)
    with own_invD(1) [OF Suc.prems] have bw: "bev_wf b" by (auto simp: bevs_wf_def)
    then have wf: "ev_source (bev_input b)" "ev_sink (bev_output b)" by (simp_all add: bev_wf_def)
    let ?next = "\<lambda>(r, a, input, output).
      let s = set_bev bev (b\<lparr>bev_input := input, bev_output := output\<rparr>) (on_thr t (\<lambda>th. th\<lparr>analyser := a\<rparr>) s)
      in if \<not> r then Inr s
         else bind_res (read_login e t bev s) (\<lambda>s. bind_res (read_trans e t i (read_heart e t i s)) (read_loop e t bev i n))"
    have "kept (own_inv X F) (bind_res (analyse_data (lib e) (analyser (thr t s)) (bev_input b) (bev_output b)) ?next)"
    proof (rule res_ok_bindI [OF sound_kept [OF analyse_data_sound [OF wf]]], goal_cases)
      case (1 x)
      obtain r a inp out where x: "x = (r, a, inp, out)" by (cases x)
      with 1 have ev: "ev_source inp" "ev_sink out" by simp_all
      let ?s = "set_bev bev (b\<lparr>bev_input := inp, bev_output := out\<rparr>) (on_thr t (\<lambda>th. th\<lparr>analyser := a\<rparr>) s)"
      have q0: "mute s (on_thr t (\<lambda>th. th\<lparr>analyser := a\<rparr>) s)" by (rule mute_on_thr [OF own_invD(1) [OF Suc.prems]]) simp_all
      have "mute s ?s"
        by (rule mute_trans [OF q0 mute_set_bev [OF mute_wf [OF q0]]]) (use Some ev in \<open>auto simp: bev_wf_def\<close>)
      then have i1: "own_inv X F ?s" by (rule own_inv_mute [OF Suc.prems])
      have "kept (own_inv X F) (bind_res (read_login e t bev ?s) (\<lambda>s. bind_res (read_trans e t i (read_heart e t i s)) (read_loop e t bev i n)))"
      proof (rule res_ok_bindI [OF kept_mute [OF i1 read_login_mute [OF own_invD(1) [OF i1]]]])
        fix s1 :: "'a comet"
        assume i2: "own_inv X F s1"
        have "own_inv X F (read_heart e t i s1)" by (rule own_inv_mute [OF i2 read_heart_mute [OF own_invD(1) [OF i2]]])
        then show "kept (own_inv X F) (bind_res (read_trans e t i (read_heart e t i s1)) (read_loop e t bev i n))"
          by (intro res_ok_bindI [OF read_trans_own] Suc.IH)
      qed
      with i1 x show "kept (own_inv X F) (?next x)" by (simp add: Let_def)
    qed
    with Some Suc.prems show ?thesis by (simp add: bev_at_def)
  qed (simp add: bev_at_def)
qed simp

lemma bufferevent_event_callback_mute:
  assumes wf: "bevs_wf s"
  shows "kept (mute s) (bufferevent_event_callback e t bev events s)"
proof -
  have "kept (mute s) (bind_res (bufferevent_free bev (on_thr t f (if c then on_thr t g s else s))) (send_offline e t i))"
    if "\<And>th. new_msg_fd (f th) = new_msg_fd th" "\<And>th. redis (f th) = redis th"
      "\<And>th. new_msg_fd (g th) = new_msg_fd th" "\<And>th. redis (g th) = redis th" for f g c i
  proof -
    have q: "mute s (if c then on_thr t g s else s)" using mute_refl [OF wf] mute_on_thr [OF wf] that by simp
    have q2: "mute s (on_thr t f (if c then on_thr t g s else s))"
      by (rule mute_trans [OF q mute_on_thr [OF mute_wf [OF q]]]) (simp_all add: that)
    show ?thesis by (rule mute_after [OF q2 free_then_mute [OF mute_wf [OF q2] send_offline_mute]])
  qed
  then show ?thesis using mute_refl [OF wf] by (simp add: bufferevent_event_callback_def Let_def)
qed

end
