(* ===== verification/Work_Thread_Own.thy ===== *)
theory Work_Thread_Own
  imports Work_Thread_Msgs
begin

text \<open>
  The callbacks of redis and of the account service keep the ownership of the messages, and with them
  every event does: \<open>dispatch_own\<close>.
\<close>

section \<open>Login\<close>

lemma kept_any:
  assumes "sound (\<lambda>_. True) r" and "\<And>x. kept Q (f x)"
  shows "kept Q (bind_res r f)"
  by (rule res_ok_bindI [OF sound_kept [OF assms(1)]]) (rule assms(2))

lemma read_at_kept: "(i < length xs \<Longrightarrow> kept Q (f (xs ! i))) \<Longrightarrow> kept Q (bind_res (read_at xs i) f)"
  by (simp add: read_at_def)

lemma drop_login_mute:
  assumes wf: "bevs_wf s"
  shows "kept (mute s) (drop_login w i s)"
proof -
  have d: "kept (mute s1) (Inr (on_thr w (\<lambda>th. th\<lparr>sub_map := (sub_map th)(i := None)\<rparr>) s1))" if "bevs_wf s1" for s1
    using mute_on_thr [OF that] by simp
  have f: "kept (mute s) (bind_res (bufferevent_free b s) (\<lambda>s. Inr (on_thr w (\<lambda>th. th\<lparr>bev_id := (bev_id th)(b := None)\<rparr>) s)))" for b
    by (rule free_then_mute [OF wf]) (simp add: mute_on_thr)
  have "kept (mute s) (bind_res (if c then bind_res (bufferevent_free b s) (\<lambda>s. Inr (on_thr w (\<lambda>th. th\<lparr>bev_id := (bev_id th)(b := None)\<rparr>) s))
      else Inr s) (\<lambda>s. Inr (on_thr w (\<lambda>th. th\<lparr>sub_map := (sub_map th)(i := None)\<rparr>) s)))" for b c
    by (rule mute_bind) (use f mute_refl [OF wf] d mute_wf in auto)
  then show ?thesis using mute_refl [OF wf] by (simp add: drop_login_def split: option.split)
qed

lemma login_success_mute:
  assumes wf: "bevs_wf s"
  shows "kept (\<lambda>(d, s'). mute s s') (login_success e w i bev s)"
proof -
  have "kept (\<lambda>(d, s'). mute s s') (bind_res (redisAsyncCommand e w (OnlineCb info) cmd (on_thr w f s)) (\<lambda>s. Inr (d, s)))"
    if "\<And>th. new_msg_fd (f th) = new_msg_fd th" "\<And>th. redis (f th) = redis th" for f info cmd and d :: bytes
  proof -
    have q: "mute s (on_thr w f s)" by (rule mute_on_thr [OF wf that])
    have "kept (mute s) (redisAsyncCommand e w (OnlineCb info) cmd (on_thr w f s))"
      by (rule mute_after [OF q redisAsyncCommand_mute [OF mute_wf [OF q]]]) simp
    then show ?thesis by (rule res_ok_bindI) simp
  qed
  then show ?thesis unfolding login_success_def
    by (intro kept_any [OF get_login_rsp_sound]) (simp add: Let_def split: prod.split)
qed

lemma login_failure_mute:
  assumes wf: "bevs_wf s"
  shows "kept (\<lambda>(d, s'). mute s s') (login_failure e w msg s)"
  unfolding login_failure_def
  by (rule kept_any [OF get_login_rsp_sound]) (use mute_on_thr [OF wf] in \<open>simp split: prod.split\<close>)

text \<open>A client is answered.\<close>

lemma reply_own:
  assumes r: "kept (\<lambda>(d, s'). own_inv X F s') r"
  shows "kept (own_inv X F) (bind_res r (\<lambda>(d, s). bind_res (write_output bev d s) (\<lambda>(_, s). Inr s)))"
proof (rule res_ok_bindI [OF r], clarify)
  fix d and s1 :: "'a comet"
  assume i: "own_inv X F s1"
  show "kept (own_inv X F) (bind_res (write_output bev d s1) (\<lambda>(_, s). Inr s))"
    by (rule kept_mute [OF i answer_mute [OF own_invD(1) [OF i]]])
qed

lemma kept_mute2:
  assumes "own_inv X F s" and "kept (\<lambda>(d, s'). mute s s') r"
  shows "kept (\<lambda>(d, s'). own_inv X F s') r"
  using assms(2) by (rule res_ok_mono) (use own_inv_mute [OF assms(1)] in auto)

lemma login_accept_own:
  assumes inv: "own_inv X F s"
  shows "kept (\<lambda>(d, s'). own_inv X F s') (bind_res (drop_login w i s) (\<lambda>s.
    bind_res (notify_del_all e skip (work_thread_num (thr w s)) i s) (\<lambda>s. login_success e w i bev s)))"
proof (rule res_ok_bindI [OF kept_mute [OF inv drop_login_mute [OF own_invD(1) [OF inv]]]], rule res_ok_bindI [OF notify_del_all_own], assumption)
  fix s1 :: "'a comet"
  assume "own_inv X F s1"
  then show "kept (\<lambda>(d, s'). own_inv X F s') (login_success e w i bev s1)"
    by (rule kept_mute2) (rule login_success_mute [OF own_invD(1) [OF \<open>own_inv X F s1\<close>]])
qed

lemma redis_login_callback_own:
  assumes inv: "own_inv X F s" and mm: "\<forall>k. mm e k"
  shows "kept (own_inv X F) (redis_login_callback e reply ld s)"
proof -
  note wf = own_invD(1) [OF inv]
  have acc: "kept (own_inv X F) (bind_res (drop_login w i s) (\<lambda>s.
      bind_res (notify_del_all e skip (work_thread_num (thr w s)) i s) (\<lambda>s.
      bind_res (login_success e w i bev s) (\<lambda>(d, s). bind_res (write_output bev d s) (\<lambda>(_, s). Inr s)))))" for w i skip bev
    using reply_own [OF login_accept_own [OF inv]] by (simp add: res_ok_bind)
  have rej: "kept (own_inv X F) (bind_res (login_failure e w msg s) (\<lambda>(d, s). bind_res (write_output bev d s) (\<lambda>(_, s). Inr s)))" for w msg bev
    by (rule reply_own [OF kept_mute2 [OF inv login_failure_mute [OF wf]]])
  have chk: "kept (own_inv X F) (bind_res (http_login_check e ld s) (\<lambda>(_, s). Inr s))"
    unfolding http_login_check_def
    by (rule res_ok_bindI [OF kept_mute2 [OF inv http_connect_mute [OF wf mm]]]) auto
  have org: "kept (\<lambda>_. True) (login_origin ld)" by (simp add: login_origin_def split: option.split)
  show ?thesis
    unfolding redis_login_callback_def
    by (rule res_ok_bindI [OF org], clarify, rule read_at_kept) (use acc rej chk inv in \<open>auto split: option.split\<close>)
qed

lemma http_text_mute:
  assumes wf: "bevs_wf s"
  shows "kept (\<lambda>(d, n, s'). mute s s') (http_text bev s)"
proof (cases "bevs s bev")
  case (Some b)
  with wf have bw: "bev_wf b" by (auto simp: bevs_wf_def)
  then have "ev_source (bev_input b)" by (simp add: bev_wf_def)
  from ev.remove [OF this] obtain inp where r: "evbuffer_remove n (bev_input b) = Inr (Some (take n (ev_bytes (bev_input b))), inp n)"
    "ev_source (inp n)" for n by metis
  have "mute s (set_bev bev (b\<lparr>bev_input := inp n\<rparr>) s)" for n
    by (rule mute_set_bev [OF wf]) (use bw r(2) Some in \<open>auto simp: bev_wf_def\<close>)
  with Some r(1) show ?thesis by (simp add: http_text_def bev_at_def Let_def)
qed (simp add: http_text_def bev_at_def)

lemma http_login_answer_own:
  assumes inv: "own_inv X F s"
  shows "kept (own_inv X F) (http_login_answer e w client i data len s)"
proof -
  have main: "kept (own_inv X F) (let s = on_thr w (\<lambda>th. th\<lparr>analyser := a\<rparr>) s in bind_res
      (if r then bind_res (drop_login w i s) (\<lambda>s.
         bind_res (notify_del_all e (\<lambda>_. False) (work_thread_num (thr w s)) i s) (\<lambda>s. login_success e w i client s))
       else login_failure e w (cstr ''wrong id or token'') s) (\<lambda>(rsp_data, s).
      bind_res (write_output client rsp_data s) (\<lambda>(_, s). Inr s)))" for r a
  proof -
    have i1: "own_inv X F (on_thr w (\<lambda>th. th\<lparr>analyser := a\<rparr>) s)"
      by (rule own_inv_mute [OF inv mute_on_thr [OF own_invD(1) [OF inv]]]) simp_all
    show ?thesis unfolding Let_def
      by (rule reply_own)
        (use login_accept_own [OF i1] kept_mute2 [OF i1 login_failure_mute [OF own_invD(1) [OF i1]]] in simp)
  qed
  then have "kept (own_inv X F) (bind_res (analyse_login_data (lib e) (analyser (thr w s)) data len) (\<lambda>(r, a).
      let s = on_thr w (\<lambda>th. th\<lparr>analyser := a\<rparr>) s in bind_res
      (if r then bind_res (drop_login w i s) (\<lambda>s.
         bind_res (notify_del_all e (\<lambda>_. False) (work_thread_num (thr w s)) i s) (\<lambda>s. login_success e w i client s))
       else login_failure e w (cstr ''wrong id or token'') s) (\<lambda>(rsp_data, s).
      bind_res (write_output client rsp_data s) (\<lambda>(_, s). Inr s))))"
    by (intro kept_any [OF analyse_login_data_sound]) (simp split: prod.split)
  with inv show ?thesis by (simp add: http_login_answer_def)
qed

lemma free_mute_own:
  assumes "own_inv X F s"
  shows "kept (own_inv X F) (bufferevent_free bev s)"
  by (rule kept_mute [OF assms bufferevent_free_mute [OF own_invD(1) [OF assms]]])

lemma login_origin_kept: "kept (\<lambda>_. True) (login_origin ld)"
  by (simp add: login_origin_def split: option.split)

lemma http_login_read_own:
  assumes inv: "own_inv X F s"
  shows "kept (own_inv X F) (http_login_read e bev ld s)"
  unfolding http_login_read_def
proof (rule res_ok_bindI [OF http_text_mute [OF own_invD(1) [OF inv]]], clarify, rule res_ok_bindI [OF login_origin_kept], clarify,
    rule read_at_kept)
  fix data len w client and s1 :: "'a comet"
  assume "mute s s1"
  then have i1: "own_inv X F s1" by (rule own_inv_mute [OF inv])
  show "kept (own_inv X F) (bind_res (http_login_answer e w client (ld_id ld) data len s1) (bufferevent_free bev))"
    by (rule res_ok_bindI [OF http_login_answer_own [OF i1]]) (rule free_mute_own)
qed

lemma send_own:
  assumes "mute s s'"
  shows "kept (\<lambda>(ok, s1). mute s s1) (write_output bev d s')"
  using write_output_mute [OF mute_wf [OF assms]] by (rule res_ok_mono) (use mute_trans [OF assms] in auto)

lemma http_login_event_own:
  assumes inv: "own_inv X F s"
  shows "kept (own_inv X F) (http_login_event e bev events ld s)"
proof -
  note wf = own_invD(1) [OF inv]
  have rej: "kept (own_inv X F) (bind_res (login_failure e w msg s) (\<lambda>(d, s). bind_res (write_output c d s) (\<lambda>(_, s). Inr s)))" for w msg c
    by (rule reply_own [OF kept_mute2 [OF inv login_failure_mute [OF wf]]])
  have fail: "kept (own_inv X F) (bind_res (if b then
         bind_res (login_failure e w msg s) (\<lambda>(d, s). bind_res (write_output c d s) (\<lambda>(_, s). Inr s)) else Inr s) (bufferevent_free bev))"
    for b w msg c
  proof (rule res_ok_bindI)
    show "kept (own_inv X F) (if b then
         bind_res (login_failure e w msg s) (\<lambda>(d, s). bind_res (write_output c d s) (\<lambda>(_, s). Inr s)) else Inr s)"
      using rej [of w msg c] inv by (cases b) simp_all
  qed (rule free_mute_own)
  have send: "kept (own_inv X F) (bind_res (write_output bev d (on_thr w (\<lambda>th. th\<lparr>analyser := a\<rparr>) s)) (\<lambda>(ok, s).
       if ok then Inr s else bufferevent_free bev s))" for d w a
    by (rule res_ok_bindI [OF kept_mute2 [OF inv send_own [OF mute_on_thr [OF wf]]]]) (auto intro: free_mute_own)
  have post: "kept (own_inv X F) (bind_res (get_login_post_data (lib e) a i tok url buf) (\<lambda>(buffer, len, a).
       bind_res (write_output bev (take len buffer) (on_thr w (\<lambda>th. th\<lparr>analyser := a\<rparr>) s)) (\<lambda>(ok, s).
       if ok then Inr s else bufferevent_free bev s)))" for a i tok url buf w
    by (rule kept_any [OF post_data_sound(1)]) (simp add: send split: prod.split)
  show ?thesis
    unfolding http_login_event_def
    by (rule res_ok_bindI [OF login_origin_kept], clarify, rule read_at_kept) (use fail post inv in auto)
qed

section \<open>Transfer\<close>

lemma trans_origin_own:
  assumes "own_inv X F s" and "p \<in> F"
  shows "kept (\<lambda>_. True) (trans_origin p s)"
proof -
  from message_at_own [OF assms] obtain td where "message_at p s = Inr td" by blast
  then show ?thesis by (simp add: trans_origin_def read_at_def split: option.split)
qed

lemma redis_trans_callback_own:
  assumes inv: "own_inv {} F s" and p: "p \<in> F" and mm: "\<forall>k. mm e k"
  shows "kept (own_inv {} (F - {p})) (redis_trans_callback e reply p s)"
proof -
  have "kept (own_inv {} (F - {p})) (bind_res (http_trans_check e p s) (\<lambda>(ok, s). if ok then Inr s else delete_message p s))"
  proof (rule res_ok_bindI [OF http_trans_check_own [OF inv mm p]], clarify)
    fix ok and s1 :: "'a comet"
    assume "own_inv {} (if ok then F - {p} else F) s1"
    then show "kept (own_inv {} (F - {p})) (if ok then Inr s1 else delete_message p s1)"
      using delete_message_own [of "{}" F s1 p] p by (cases ok) simp_all
  qed
  with forward_own [OF inv p] show ?thesis
    unfolding redis_trans_callback_def
    by (intro res_ok_bindI [OF trans_origin_own [OF inv p]]) (auto split: option.split)
qed

text \<open>The callback of a connection to the account service takes its message.\<close>

lemma own_inv_open:
  assumes inv: "own_inv {} {} s" and b: "bevs s bev = Some b" "bev_ctx b = TransCtx p"
  shows "own_inv {bev} {p} s"
proof -
  have h: "http_refs {bev} s m = http_refs {} s m - {bev}" for m by (auto simp: http_refs_def)
  have bp: "bev \<in> http_refs {} s p" using b by (auto simp: http_refs_def)
  have p0: "refs s p = 0" using own_invD(3) [OF inv, of p] bp refs_pos_0 [OF inv, of p] by auto
  show ?thesis
  proof (rule own_invI)
    show "refs s m \<le> 1" for m by (rule own_invD(2) [OF inv])
    show "http_refs {bev} s m = {}" if "refs s m = 1" for m using own_invD(3) [OF inv that] by (simp add: h)
    show "x = y" if "x \<in> http_refs {bev} s m" "y \<in> http_refs {bev} s m" for m x y
      using own_invD(4) [OF inv, of x m y] that by (simp add: h)
    show "messages s m \<noteq> None" if "refs s m = 1" for m by (rule own_invD(5) [OF inv that])
    show "messages s m \<noteq> None" if "x \<in> http_refs {bev} s m" for m x
      using own_invD(6) [OF inv, of x m] that by (simp add: h)
    show "messages s m \<noteq> None" if "m \<in> {p}" for m using that own_invD(6) [OF inv bp] by simp
    show "refs s m = 0 \<and> http_refs {bev} s m = {}" if "m \<in> {p}" for m
      using that own_invD(4) [OF inv bp] p0 by (auto simp: h)
  qed (rule own_invD(1) [OF inv])
qed

lemma own_inv_close:
  assumes inv: "own_inv {bev} F s"
  shows "kept (own_inv {} F) (bufferevent_free bev s)"
proof -
  let ?s = "s\<lparr>bevs := (bevs s)(bev := None)\<rparr>"
  have h: "http_refs {} ?s m = http_refs {bev} s m" for m by (auto simp: http_refs_def)
  have r: "refs ?s = refs s" by (simp add: refs_def fun_eq_iff)
  have "bevs_wf ?s" using own_invD(1) [OF inv] by (auto simp: bevs_wf_def)
  then have "own_inv {} F ?s" using inv by (simp add: own_inv_def h r)
  then show ?thesis by (auto simp: bufferevent_free_def bev_at_def split: option.split)
qed

lemma http_trans_read_own:
  assumes inv: "own_inv {} {} s" and b: "bevs s bev = Some b" "bev_ctx b = TransCtx p"
  shows "kept (own_inv {} {}) (http_trans_read e bev p s)"
proof -
  have op: "own_inv {bev} {p} s" by (rule own_inv_open [OF assms])
  have fin: "kept (own_inv {} {}) (let s = on_thr w (\<lambda>th. th\<lparr>analyser := a\<rparr>) s1 in bind_res
      (if r then bind_res (offer_message e p [0..<work_thread_num (thr w s)] s) (\<lambda>(ok, s). if ok then Inr s else delete_message p s)
       else delete_message p s) (bufferevent_free bev))" if "own_inv {bev} {p} s1" for r w a s1
  proof -
    let ?s = "on_thr w (\<lambda>th. th\<lparr>analyser := a\<rparr>) s1"
    have i: "own_inv {bev} {p} ?s"
      by (rule own_inv_mute [OF that mute_on_thr [OF own_invD(1) [OF that]]]) simp_all
    have "kept (own_inv {bev} {}) (if r then bind_res (offer_message e p [0..<work_thread_num (thr w ?s)] ?s)
        (\<lambda>(ok, s). if ok then Inr s else delete_message p s) else delete_message p ?s)"
      using forward_own [OF i, of p] delete_message_own [OF i, of p] by simp
    then show ?thesis unfolding Let_def by (rule res_ok_bindI) (rule own_inv_close)
  qed
  show ?thesis
    unfolding http_trans_read_def
  proof (rule res_ok_bindI [OF http_text_mute [OF own_invD(1) [OF inv]]], clarify)
    fix data len and s1 :: "'a comet"
    assume "mute s s1"
    then have i1: "own_inv {bev} {p} s1" by (rule own_inv_mute [OF op])
    show "kept (own_inv {} {}) (bind_res (trans_origin p s1) (\<lambda>(td, w).
        bind_res (analyse_relation_data (lib e) (analyser (thr w s1)) data len) (\<lambda>(r, a).
        let s = on_thr w (\<lambda>th. th\<lparr>analyser := a\<rparr>) s1 in bind_res
          (if r then bind_res (offer_message e p [0..<work_thread_num (thr w s)] s) (\<lambda>(ok, s). if ok then Inr s else delete_message p s)
           else delete_message p s) (bufferevent_free bev))))"
      by (rule res_ok_bindI [OF trans_origin_own [OF i1]], simp, clarify, rule kept_any [OF analyse_relation_data_sound], clarify)
        (rule fin [OF i1])
  qed
qed

lemma http_trans_event_own:
  assumes inv: "own_inv {} {} s" and b: "bevs s bev = Some b" "bev_ctx b = TransCtx p"
  shows "kept (own_inv {} {}) (http_trans_event e bev events p s)"
proof -
  note wf = own_invD(1) [OF inv]
  have op: "own_inv {bev} {p} s" by (rule own_inv_open [OF assms])
  have closed: "kept (own_inv {} {}) (bind_res (delete_message p s) (bufferevent_free bev))"
    using delete_message_own [OF op, of p] by (intro res_ok_bindI [where P = "own_inv {bev} {}"] own_inv_close) simp_all
  have lost: "kept (own_inv {} {}) (bind_res (bufferevent_free bev s1) (delete_message p))" if "mute s s1" for s1
    by (rule res_ok_bindI [OF own_inv_close [OF own_inv_mute [OF op that]]]) (use delete_message_own [of "{}" "{p}" _ p] in auto)
  have "kept (own_inv {} {}) (bind_res (write_output bev d (on_thr w (\<lambda>th. th\<lparr>analyser := a\<rparr>) s)) (\<lambda>(ok, s).
      if ok then Inr s else bind_res (bufferevent_free bev s) (delete_message p)))" for d w a
    by (rule res_ok_bindI [OF send_own [OF mute_on_thr [OF wf]]]) (use own_inv_mute [OF inv] lost in auto)
  then have send: "kept (own_inv {} {}) (bind_res (get_relation_post_data (lib e) a i j url buf) (\<lambda>(buffer, len, a).
      bind_res (write_output bev (take len buffer) (on_thr w (\<lambda>th. th\<lparr>analyser := a\<rparr>) s)) (\<lambda>(ok, s).
      if ok then Inr s else bind_res (bufferevent_free bev s) (delete_message p))))" for a i j url buf w
    by (intro kept_any [OF post_data_sound(2)]) (simp split: prod.split)
  show ?thesis
    unfolding http_trans_event_def
    by (rule res_ok_bindI [OF trans_origin_own [OF op]]) (use closed send inv in \<open>auto split: option.split\<close>)
qed

section \<open>Friends\<close>

lemma status_packet_mute:
  assumes wf: "bevs_wf s"
  shows "kept (\<lambda>(des, n, s'). mute s s') (status_packet e w i flag s)"
proof -
  have q: "mute s (on_thr w (\<lambda>th. th\<lparr>me_status := m\<rparr>) s)" for m by (rule mute_on_thr [OF wf]) simp_all
  have "kept (\<lambda>(des, n, s'). mute s s') (bind_res (pack_data src p des) (\<lambda>(des, n). Inr (des, n, on_thr w (\<lambda>th. th\<lparr>me_status := m\<rparr>) s)))"
    for src p des m
    by (rule kept_any [OF pack_data_sound]) (simp add: case_prod_beta q)
  then show ?thesis unfolding status_packet_def Let_def by (simp add: case_prod_beta)
qed

lemma find_online_kept: "kept (\<lambda>_. True) (find_online i js s)"
  by (induction js) (auto simp: res_ok_bind read_at_def)

text \<open>Without \<open>delete_failed\<close> the message of a friend whose pipe is full is forgotten.\<close>

lemma tell_friend_own:
  assumes inv: "own_inv X F s"
  shows "kept (\<lambda>(st, s'). own_inv X F s') (tell_friend e w i d del to_id s)"
proof -
  have main: "kept (\<lambda>(st, s'). own_inv X F s') (bind_res (new_message td s) (\<lambda>(p, s).
      bind_res (notify_new_msg e j p s) (\<lambda>(ok, s).
      bind_res (if ok \<or> \<not> del then Inr s else delete_message p s) (\<lambda>s. Inr (1 :: byte, s)))))" for j td
  proof (rule res_ok_bindI [OF new_message_own [OF inv]], clarify, rule res_ok_bindI [OF notify_new_msg_own], assumption, simp, clarify)
    fix p ok and s1 s2 :: "'a comet"
    assume p: "p \<notin> F" and i: "own_inv X (if ok then insert p F - {p} else insert p F) s2"
    have F: "insert p F - {p} = F" using p by auto
    have "kept (own_inv X F) (if ok \<or> \<not> del then Inr s2 else delete_message p s2)"
      using i delete_message_own [of X "insert p F" s2 p] own_inv_forget [of X "insert p F" s2 F] F by (cases ok) auto
    then show "kept (\<lambda>(st, s'). own_inv X F s') (bind_res (if ok \<or> \<not> del then Inr s2 else delete_message p s2) (\<lambda>s. Inr (1 :: byte, s)))"
      by (rule res_ok_bindI) simp
  qed
  show ?thesis
    unfolding tell_friend_def
    by (rule res_ok_bindI [OF find_online_kept]) (use main inv in \<open>simp split: option.split\<close>)
qed

lemma online_friends_own:
  assumes "own_inv X F s"
  shows "kept (\<lambda>(sts, s'). own_inv X F s') (online_friends e w i d rs s)"
  using assms
proof (induction rs arbitrary: s)
  case (Cons r rs)
  have i1: "own_inv X F (on_thr w (\<lambda>th. th\<lparr>online_status := OnlineStatus_add_id_cstr str (online_status th)\<rparr>) s)" for str
    by (rule own_inv_mute [OF Cons.prems mute_on_thr [OF own_invD(1) [OF Cons.prems]]]) simp_all
  have rest: "kept (\<lambda>(sts, s'). own_inv X F s') (bind_res (online_friends e w i d rs s1) (\<lambda>(sts, s). Inr (st # sts, s)))"
    if "own_inv X F s1" for st s1
    by (rule res_ok_bindI [OF Cons.IH [OF that]]) auto
  have "kept (\<lambda>(sts, s'). own_inv X F s') (bind_res (tell_friend e w i d True (word_of_int (atoll str))
         (on_thr w (\<lambda>th. th\<lparr>online_status := OnlineStatus_add_id_cstr str (online_status th)\<rparr>) s)) (\<lambda>(st, s).
       bind_res (online_friends e w i d rs s) (\<lambda>(sts, s). Inr (st # sts, s))))" for str
    by (rule res_ok_bindI [OF tell_friend_own [OF i1]]) (use rest in auto)
  then show ?case by (simp split: option.split)
qed simp

lemma offline_friends_own:
  assumes "own_inv X F s"
  shows "kept (own_inv X F) (offline_friends e w i d rs s)"
  using assms
proof (induction rs arbitrary: s)
  case (Cons r rs)
  have "kept (own_inv X F) (bind_res (tell_friend e w i d False (word_of_int (atoll str)) s) (\<lambda>(_, s). offline_friends e w i d rs s))" for str
    by (rule res_ok_bindI [OF tell_friend_own [OF Cons.prems]]) (use Cons.IH in auto)
  then show ?case by (simp split: option.split)
qed simp

lemma send_friend_status_own:
  assumes inv: "own_inv X F s"
  shows "kept (own_inv X F) (send_friend_status e w bev sts s)"
proof -
  have "kept (own_inv X F) (bind_res (write_output bev d (on_thr w (\<lambda>th. th\<lparr>online_status := m\<rparr>) s)) (\<lambda>(_, s). Inr s))" for d m
    by (rule res_ok_bindI [OF kept_mute2 [OF inv send_own [OF mute_on_thr [OF own_invD(1) [OF inv]]]]]) auto
  then have "kept (own_inv X F) (bind_res (pack_data src p des) (\<lambda>(des, n).
      bind_res (write_output bev (take n des) (on_thr w (\<lambda>th. th\<lparr>online_status := m\<rparr>) s)) (\<lambda>(_, s). Inr s)))" for src p des m
    by (intro kept_any [OF pack_data_sound]) (simp split: prod.split)
  then show ?thesis unfolding send_friend_status_def Let_def by (simp add: case_prod_beta)
qed

lemma redis_online_notify_own:
  assumes inv: "own_inv X F s"
  shows "kept (own_inv X F) (redis_online_notify e reply info s)"
proof -
  let ?w = "on_work_thread info" and ?bev = "on_bev info"
  let ?s = "on_thr ?w (\<lambda>th. th\<lparr>online_status := OnlineStatus_Clear (wire (lib e)) (online_status th)\<rparr>) s"
  have i1: "own_inv X F ?s" by (rule own_inv_mute [OF inv mute_on_thr [OF own_invD(1) [OF inv]]]) simp_all
  have "kept (own_inv X F) (bind_res (status_packet e ?w (on_id info) 1 ?s) (\<lambda>(des, des_len, s).
      bind_res (online_friends e ?w (on_id info) (take des_len des) (friend_list reply) s) (\<lambda>(str_status, s).
        send_friend_status e ?w ?bev str_status s)))"
  proof (rule res_ok_bindI [OF status_packet_mute [OF own_invD(1) [OF i1]]], clarify,
      rule res_ok_bindI [OF online_friends_own], rule own_inv_mute [OF i1], assumption, clarify)
    fix sts and s2 :: "'a comet"
    assume "own_inv X F s2"
    then show "kept (own_inv X F) (send_friend_status e ?w ?bev sts s2)" by (rule send_friend_status_own)
  qed
  with inv show ?thesis
    by (auto simp: redis_online_notify_def Let_def res_ok_bind [of _ _ "read_at _ _"] read_at_def)
qed

lemma redis_offline_notify_own:
  assumes inv: "own_inv X F s"
  shows "kept (own_inv X F) (redis_offline_notify e reply info s)"
proof -
  have "kept (own_inv X F) (bind_res (status_packet e w i 0 s) (\<lambda>(des, des_len, s).
      offline_friends e w i (take des_len des) rs s))" for w i rs
    by (rule res_ok_bindI [OF status_packet_mute [OF own_invD(1) [OF inv]]])
      (use own_inv_mute [OF inv] in \<open>auto intro!: offline_friends_own\<close>)
  with inv show ?thesis
    by (simp add: redis_offline_notify_def Let_def res_ok_bind [of _ _ "read_at _ _"] read_at_def)
qed

section \<open>The event loop\<close>

lemma bufferevent_read_callback_own:
  assumes "own_inv X F s"
  shows "kept (own_inv X F) (bufferevent_read_callback e t bev s)"
  using read_loop_own [OF assms] assms
  by (auto simp: bufferevent_read_callback_def bev_at_def simp del: read_loop.simps split: option.split)

lemma redis_answer_own:
  assumes inv: "own_inv {} {} s" and t: "t < length (threads s)" and r: "redis (thr t s) = Some (c # cs)" and mm: "\<forall>k. mm e k"
  shows "kept (own_inv {} {}) (redis_answer e (rc_cb c) reply (on_thr t (\<lambda>th. th\<lparr>redis := Some cs\<rparr>) s))"
proof (cases "\<exists>p. rc_cb c = TransCb p")
  case True
  then obtain p where p: "rc_cb c = TransCb p" by blast
  have "own_inv {} {p} (on_thr t (\<lambda>th. th\<lparr>redis := Some cs\<rparr>) s)"
    by (rule own_inv_take [OF inv t]) (simp add: held_def calls_of_def r trans_ptr_def p)
  from redis_trans_callback_own [OF this _ mm, of p] p show ?thesis by (simp add: redis_answer_def)
next
  case False
  then have "trans_ptr c = []" by (simp add: trans_ptr_def split: redis_cb.split)
  with own_invD(1) [OF inv] r have "mute s (on_thr t (\<lambda>th. th\<lparr>redis := Some cs\<rparr>) s)"
    by (auto simp: mute_def bevs_wf_def thr_on_thr http_refs_def calls_of_def)
  from own_inv_mute [OF inv this] show ?thesis
    using False redis_login_callback_own [OF _ mm] redis_online_notify_own redis_offline_notify_own
    by (cases "rc_cb c") (simp_all add: redis_answer_def)
qed

lemma dispatch_own:
  assumes inv: "own_inv {} {} s" and mm: "\<forall>k. mm e k"
  shows "kept (own_inv {} {}) (dispatch e ev s)"
proof -
  note wf = own_invD(1) [OF inv]
  show ?thesis
  proof (cases ev)
    case (ConnPipe t keys)
    with inv kept_mute [OF inv new_conn_loop_mute [OF wf mm]] show ?thesis
      by (simp add: notify_new_conn_callback_def del: new_conn_loop.simps)
  next
    case (MsgPipe t)
    with inv notify_new_msg_callback_own [OF inv] show ?thesis by simp
  next
    case (BevRead p)
    with inv bufferevent_read_callback_own [OF inv] http_login_read_own [OF inv] http_trans_read_own [OF inv] show ?thesis
      by (simp split: option.split bev_ctx.split)
  next
    case (BevEvent p events)
    with inv kept_mute [OF inv bufferevent_event_callback_mute [OF wf]] http_login_event_own [OF inv] http_trans_event_own [OF inv]
    show ?thesis by (simp split: option.split bev_ctx.split)
  next
    case (RedisReply t reply)
    with inv redis_answer_own [OF inv _ _ mm] show ?thesis by (simp split: option.split list.split)
  next
    case (RedisConnect status)
    then show ?thesis using inv own_inv_mute [OF inv mute_kills [OF wf]] by (simp add: redis_connect_callback_def)
  next
    case (RedisDisconnect status)
    then show ?thesis using own_inv_mute [OF inv mute_kills [OF wf]] by (simp add: redis_disconnect_callback_def)
  qed
qed

end
