(* ===== verification/Comet_Samples.thy ===== *)
theory Comet_Samples
  imports Work_Thread
begin

text \<open>Concrete states of the process, on which general statements are tried out.\<close>

definition sample_worker :: "bytes work_thread" where
  "sample_worker =
     \<lparr>loop_broken = False, work_num = 1, conn_num = 0, ping_time = 60, work_thread_num = 1, new_conn_fd = [], new_msg_fd = [],
      http_url = cstr ''h'', http_ip = cstr ''1'', sub_map = (\<lambda>_. None), bev_id = (\<lambda>_. None), analyser = AnalyseReq_new std_pb False,
      redis = Some [], online_status = OnlineStatus_new (wire std_pb), me_status = OnlineStatus_new (wire std_pb)\<rparr>"

definition sample_comet :: "'u work_thread list \<Rightarrow> 'u comet" where
  "sample_comet ths = \<lparr>threads = ths, bevs = (\<lambda>_. None), messages = (\<lambda>_. None), arena = [1, 2, 3, 4, 5, 6], kills = []\<rparr>"

definition sample_env :: "'u pb_lib \<Rightarrow> 'u env" where
  "sample_env pb = \<lparr>lib = pb, junk = (\<lambda>_. 0), mm = (\<lambda>_. True), now = Some 1000, pipe_room = 65536, redis_accepts = True, connects = True\<rparr>"

definition sample_bev :: "bytes \<Rightarrow> bev_ctx \<Rightarrow> bufferevent" where
  "sample_bev bs ctx = \<lparr>bev_input = (if bs = [] then evbuffer_new (\<lambda>_. True) else one_chain bs),
     bev_output = evbuffer_new (\<lambda>_. True), bev_ctx = ctx\<rparr>"

end
