(* ===== verification/Comet_Log.thy ===== *)
theory Comet_Log
  imports Analyse_Req
begin

text \<open>
  The log, \<open>src/core/log.cc\<close> and \<open>log.h\<close>: the levels, the file that is opened at the start and at every
  rotation, and the line that \<open>write_log\<close> formats into an array of 1024 bytes. What \<open>localtime\<close> and
  \<open>open\<close> return are parameters; \<open>msg\<close> is the text that the format of the caller produces.
\<close>

section \<open>Levels\<close>

datatype log_level = FATAL | ERROR | WARN | INFO | DEBUG | TRACE

primrec level_no :: "log_level \<Rightarrow> nat" where
  "level_no FATAL = 0"
| "level_no ERROR = 1"
| "level_no WARN = 2"
| "level_no INFO = 3"
| "level_no DEBUG = 4"
| "level_no TRACE = 5"

lemma level_no_inject [simp]: "level_no a = level_no b \<longleftrightarrow> a = b"
  by (cases a; cases b) simp_all

instantiation log_level :: linorder
begin

definition less_eq_log_level :: "log_level \<Rightarrow> log_level \<Rightarrow> bool" where
  "less_eq_log_level a b \<longleftrightarrow> level_no a \<le> level_no b"

definition less_log_level :: "log_level \<Rightarrow> log_level \<Rightarrow> bool" where
  "less_log_level a b \<longleftrightarrow> level_no a < level_no b"

instance
  by standard (auto simp: less_eq_log_level_def less_log_level_def)

end

definition get_log_level :: "bytes \<Rightarrow> log_level" where
  "get_log_level s =
     (if s = cstr ''fatal'' then FATAL
      else if s = cstr ''error'' then ERROR
      else if s = cstr ''warn'' then WARN
      else if s = cstr ''info'' then INFO
      else if s = cstr ''debug'' then DEBUG
      else if s = cstr ''trace'' then TRACE
      else TRACE)"

definition get_level_name :: "log_level \<Rightarrow> bytes" where
  "get_level_name l =
     (case l of
        FATAL \<Rightarrow> cstr ''[FATAL]''
      | ERROR \<Rightarrow> cstr ''[ERROR]''
      | WARN \<Rightarrow> cstr ''[WARN ]''
      | INFO \<Rightarrow> cstr ''[INFO ]''
      | DEBUG \<Rightarrow> cstr ''[DEBUG]''
      | TRACE \<Rightarrow> cstr ''[TRACE]'')"

section \<open>Files\<close>

text \<open>The members of the singleton, with the descriptors the log has open and what was written to
  them. The level is not initialised before \<open>open_log\<close>.\<close>

record SingletonLog =
  log_fd :: int
  old_fd :: int
  log_level :: "log_level option"
  open_fds :: "int list"
  written :: "(int \<times> bytes) list"

definition SingletonLog_new :: SingletonLog where
  "SingletonLog_new = \<lparr>log_fd = 0, old_fd = 0, log_level = None, open_fds = [], written = []\<rparr>"

record tm =
  tm_year :: int
  tm_mon :: int
  tm_mday :: int
  tm_hour :: int
  tm_min :: int
  tm_sec :: int

text \<open>\<open>"%0wd"\<close>.\<close>

definition pad_int :: "nat \<Rightarrow> int \<Rightarrow> bytes" where
  "pad_int w i =
     (let ds = dec_nat (nat \<bar>i\<bar>); sign = (if i < 0 then [45] else [])
      in sign @ replicate (w - length sign - length ds) 48 @ ds)"

definition log_path :: "bytes \<Rightarrow> tm \<Rightarrow> bytes" where
  "log_path folder t =
     c_string folder @ cstr ''/'' @ pad_int 4 (tm_year t + 1900) @ pad_int 2 (tm_mon t + 1) @ pad_int 2 (tm_mday t)
     @ pad_int 2 (tm_hour t) @ pad_int 2 (tm_min t) @ pad_int 2 (tm_sec t) @ cstr ''.log''"

text \<open>\<open>fs\<close> is the descriptor that \<open>open\<close> returns for a path. The path is printed into 512 bytes.\<close>

definition open_log :: "(bytes \<Rightarrow> int) \<Rightarrow> tm \<Rightarrow> bytes \<Rightarrow> bytes \<Rightarrow> SingletonLog \<Rightarrow> (bool \<times> SingletonLog) res" where
  "open_log fs t folder level g =
     (let g = g\<lparr>log_level := Some (get_log_level level)\<rparr>;
          path = log_path folder t
      in if 512 < length path + 1 then Inl BufferOverflow
         else let fd = fs path
              in if fd = -1 then Inr (False, g)
                 else let g = g\<lparr>open_fds := fd # open_fds g\<rparr>;
                          g = (if old_fd g \<noteq> 0 then g\<lparr>open_fds := removeAll (old_fd g) (open_fds g)\<rparr> else g)
                      in Inr (True, g\<lparr>old_fd := log_fd g, log_fd := fd\<rparr>))"

definition close_log :: "int \<Rightarrow> SingletonLog \<Rightarrow> bool \<times> SingletonLog" where
  "close_log res g = (if res = -1 then (False, g) else (True, g\<lparr>open_fds := removeAll (log_fd g) (open_fds g)\<rparr>))"

section \<open>Lines\<close>

definition MAX_MSG_LENGTH :: nat where
  "MAX_MSG_LENGTH = 1024"

text \<open>The beginning of a line.\<close>

definition line_header :: "tm \<Rightarrow> int \<Rightarrow> int \<Rightarrow> log_level \<Rightarrow> bytes" where
  "line_header t usec thread_id l =
     cstr ''['' @ pad_int 4 (tm_year t + 1900) @ cstr ''-'' @ pad_int 2 (tm_mon t + 1) @ cstr ''-'' @ pad_int 2 (tm_mday t)
     @ cstr '' '' @ pad_int 2 (tm_hour t) @ cstr '':'' @ pad_int 2 (tm_min t) @ cstr '':'' @ pad_int 2 (tm_sec t)
     @ cstr ''.'' @ pad_int 6 usec @ cstr ''] ['' @ dec_int thread_id @ cstr ''] '' @ get_level_name l @ cstr '':''"

text \<open>The macros \<open>log_fatal\<close> to \<open>log_trace\<close> put the place of the call before the text.\<close>

definition at_place :: "bytes \<Rightarrow> int \<Rightarrow> bytes \<Rightarrow> bytes" where
  "at_place file line text = cstr ''['' @ c_string file @ cstr ''('' @ dec_int line @ cstr '')]: '' @ text"

text \<open>\<open>thread_id\<close> is missing in a thread that has not registered its data. \<open>junk\<close> is what the array on
  the stack holds at first.\<close>

definition write_log ::
  "(nat \<Rightarrow> byte) \<Rightarrow> tm \<Rightarrow> int \<Rightarrow> int option \<Rightarrow> log_level \<Rightarrow> bytes \<Rightarrow> SingletonLog \<Rightarrow> SingletonLog res" where
  "write_log junk t usec thread_id level msg g =
     (case log_level g of
        None \<Rightarrow> Inl UninitialisedRead
      | Some limit \<Rightarrow>
          if limit < level then Inr g
          else case thread_id of
            None \<Rightarrow> Inl NullDeref
          | Some tid \<Rightarrow>
              let h = line_header t usec tid level
              in bind_res (memcpy_at 0 (h @ [0]) (map junk [0..<MAX_MSG_LENGTH])) (\<lambda>buffer.
                 bind_res (memcpy_at (length h) (take (MAX_MSG_LENGTH - length h - 1) msg @ [0]) buffer) (\<lambda>buffer.
                 let len = length (c_string buffer)
                 in bind_res (memcpy_at len [10] buffer) (\<lambda>buffer.
                    bind_res (memcpy_at (len + 1) [0] buffer) (\<lambda>buffer.
                      Inr (g\<lparr>written := written g @ [(log_fd g, take (len + 1) buffer)]\<rparr>))))))"

section \<open>What is written\<close>

lemma dec_nat_chars: "c \<in> set (dec_nat n) \<Longrightarrow> c \<noteq> 0"
proof (induction n rule: dec_nat.induct)
  case (1 n)
  have digit: "(of_nat (48 + k) :: byte) \<noteq> 0" if "k < 10" for k
  proof -
    have "unat (of_nat (48 + k) :: byte) = (48 + k) mod 2 ^ LENGTH(8)" by (simp only: unat_of_nat)
    with that have "unat (of_nat (48 + k) :: byte) \<noteq> 0" by simp
    then show ?thesis by (metis unat_0)
  qed
  from 1 show ?case using digit [of n] digit [of "n mod 10"]
    by (subst (asm) (2) dec_nat.simps) (auto split: if_splits)
qed

lemma pad_int_chars: "0 \<notin> set (pad_int w i)"
  by (auto simp: pad_int_def Let_def dest: dec_nat_chars)

lemma dec_int_chars: "0 \<notin> set (dec_int i)"
  by (auto simp: dec_int_def dest: dec_nat_chars)

lemma line_header_chars: "0 \<notin> set (line_header t usec tid l)"
  by (cases l) (simp_all add: line_header_def get_level_name_def pad_int_chars dec_int_chars cstr_def)

lemma c_string_app: "0 \<notin> set xs \<Longrightarrow> c_string (xs @ 0 # ys) = xs"
  by (simp add: c_string_def takeWhile_append2 takeWhile_tail) (metis takeWhile_eq_all_conv)

text \<open>The two formatted writes leave the header and the part of the message that fits.\<close>

lemma format_line:
  assumes h: "length h < MAX_MSG_LENGTH" "0 \<notin> set h" and m: "0 \<notin> set msg" and b: "length buffer = MAX_MSG_LENGTH"
  defines "part \<equiv> take (MAX_MSG_LENGTH - length h - 1) msg"
  shows "\<exists>rest. bind_res (memcpy_at 0 (h @ [0]) buffer) (\<lambda>buffer. memcpy_at (length h) (part @ [0]) buffer)
      = Inr (h @ part @ 0 # rest) \<and> c_string (h @ part @ 0 # rest) = h @ part
      \<and> length (h @ part @ 0 # rest) = MAX_MSG_LENGTH"
proof -
  have part: "length h + length part + 1 \<le> MAX_MSG_LENGTH" using h(1) by (simp add: part_def)
  let ?b = "h @ 0 # drop (Suc (length h)) buffer"
  have b1: "memcpy_at 0 (h @ [0]) buffer = Inr ?b" using h b by (simp add: memcpy_at_def)
  have b2: "memcpy_at (length h) (part @ [0]) ?b = Inr (h @ part @ 0 # drop (length h + length part + 1) ?b)"
    using part b h by (simp add: memcpy_at_def)
  have "c_string ((h @ part) @ 0 # drop (length h + length part + 1) ?b) = h @ part"
    by (rule c_string_app) (use h m in \<open>auto simp: part_def dest: in_set_takeD\<close>)
  moreover have "length (h @ part @ 0 # drop (length h + length part + 1) ?b) = MAX_MSG_LENGTH"
    using part b h by simp
  ultimately show ?thesis using b1 b2 by auto
qed

lemma memcpy_one: "memcpy_at (length xs) [y] (xs @ x # ys) = Inr (xs @ y # ys)"
  by (simp add: memcpy_at_def)

lemma write_log_line:
  assumes g: "log_level g = Some limit" "level \<le> limit" and m: "0 \<notin> set msg"
    and h: "length (line_header t usec tid level) < MAX_MSG_LENGTH"
  shows "write_log junk t usec (Some tid) level msg g =
    (if length (line_header t usec tid level) + length msg + 2 \<le> MAX_MSG_LENGTH
     then Inr (g\<lparr>written := written g @ [(log_fd g, line_header t usec tid level @ msg @ [10])]\<rparr>)
     else Inl BufferOverflow)"
proof -
  let ?h = "line_header t usec tid level" and ?cut = "take (MAX_MSG_LENGTH - length (line_header t usec tid level) - 1) msg"
  from format_line [OF h line_header_chars m, of "map junk [0..<MAX_MSG_LENGTH]"] obtain rest b1 where
    r: "memcpy_at 0 (?h @ [0]) (map junk [0..<MAX_MSG_LENGTH]) = Inr b1"
      "memcpy_at (length ?h) (?cut @ [0]) b1 = Inr (?h @ ?cut @ 0 # rest)"
      "c_string (?h @ ?cut @ 0 # rest) = ?h @ ?cut" "length (?h @ ?cut @ 0 # rest) = MAX_MSG_LENGTH"
    by (auto elim!: bind_res_eq_InrE)
  have nl: "memcpy_at (length (?h @ ?cut)) [10] (?h @ ?cut @ 0 # rest) = Inr (?h @ ?cut @ 10 # rest)"
    using memcpy_one [of "?h @ ?cut" 10 0 rest] by (simp only: append_assoc)
  have "\<not> limit < level" using g(2) by simp
  then have eq: "write_log junk t usec (Some tid) level msg g =
      bind_res (memcpy_at (length (?h @ ?cut) + 1) [0] (?h @ ?cut @ 10 # rest)) (\<lambda>buffer.
        Inr (g\<lparr>written := written g @ [(log_fd g, take (length (?h @ ?cut) + 1) buffer)]\<rparr>))"
    by (simp only: write_log_def g(1) option.case if_False Let_def r bind_res_Inr nl)
  show ?thesis
  proof (cases "length ?h + length msg + 2 \<le> MAX_MSG_LENGTH")
    case True
    then have cut: "?cut = msg" by simp
    with r(4) True obtain x rest' where "rest = x # rest'" by (cases rest) auto
    with True cut show ?thesis unfolding eq by (simp add: memcpy_at_def)
  next
    case False
    then have "length ?cut = MAX_MSG_LENGTH - length ?h - 1" by simp
    moreover have "length ?h + length ?cut + 1 + length rest = MAX_MSG_LENGTH" using r(4) by simp
    ultimately have "length rest = 0" using h by linarith
    then have "rest = []" by simp
    with False r(4) show ?thesis unfolding eq by (simp add: memcpy_at_def)
  qed
qed

text \<open>A level that is not wanted writes nothing.\<close>

lemma write_log_filtered: "log_level g = Some limit \<Longrightarrow> limit < level \<Longrightarrow> write_log junk t usec tid level msg g = Inr g"
  by (simp add: write_log_def)

section \<open>Rotation\<close>

text \<open>At most the current and the last file are open.\<close>

definition log_inv :: "SingletonLog \<Rightarrow> bool" where
  "log_inv g \<longleftrightarrow> set (open_fds g) \<subseteq> {log_fd g, old_fd g} - {0} \<and> distinct (open_fds g)
     \<and> (log_fd g \<noteq> 0 \<longrightarrow> log_fd g \<in> set (open_fds g)) \<and> (old_fd g \<noteq> 0 \<longrightarrow> old_fd g \<in> set (open_fds g))
     \<and> (log_fd g = 0 \<longrightarrow> old_fd g = 0) \<and> (log_fd g = old_fd g \<longrightarrow> log_fd g = 0)"

text \<open>The descriptor that \<open>open\<close> returns is not open yet, and it is not the standard input.\<close>

definition fresh_fd :: "(bytes \<Rightarrow> int) \<Rightarrow> SingletonLog \<Rightarrow> bool" where
  "fresh_fd fs g \<longleftrightarrow> (\<forall>path. fs path \<notin> set (open_fds g) \<and> fs path \<noteq> 0)"

lemma open_log_inv:
  assumes "log_inv g" and "fresh_fd fs g" and "open_log fs t folder level g = Inr (ok, g')"
  shows "log_inv g'"
proof -
  have "fs (log_path folder t) \<notin> set (open_fds g)" "fs (log_path folder t) \<noteq> 0"
    using assms(2) by (simp_all add: fresh_fd_def)
  with assms(1,3) show ?thesis unfolding open_log_def log_inv_def Let_def
    by (auto split: if_splits simp: distinct_removeAll)
qed

lemma write_log_files:
  assumes "write_log junk t usec tid level msg g = Inr g'"
  shows "log_fd g' = log_fd g \<and> old_fd g' = old_fd g \<and> open_fds g' = open_fds g \<and> log_level g' = log_level g"
  using assms unfolding write_log_def Let_def
  by (auto simp: bind_res_eq_Inr split: option.splits if_splits)

lemma write_log_inv: "log_inv g \<Longrightarrow> write_log junk t usec tid level msg g = Inr g' \<Longrightarrow> log_inv g'"
  using write_log_files [of junk t usec tid level msg g g'] by (simp add: log_inv_def)

section \<open>Length of the header\<close>

lemma dec_nat_length: "0 < k \<Longrightarrow> n < 10 ^ k \<Longrightarrow> length (dec_nat n) \<le> k"
proof (induction n arbitrary: k rule: dec_nat.induct)
  case (1 n)
  show ?case
  proof (cases "n < 10")
    case False
    with "1.prems" obtain j where k: "k = Suc j" "0 < j" by (cases k; cases "k - 1") auto
    with "1.prems"(2) have "n div 10 < 10 ^ j" by (simp add: less_mult_imp_div_less)
    with "1.IH" [OF False, of j] k False show ?thesis by (subst dec_nat.simps) simp
  qed (use "1.prems" in \<open>subst dec_nat.simps, simp\<close>)
qed

lemma dec_abs_length: "int_fits i \<Longrightarrow> length (dec_nat (nat \<bar>i\<bar>)) \<le> 10"
proof -
  assume "int_fits i"
  then have "nat \<bar>i\<bar> < 10 ^ 10" by (auto simp: int_fits_def)
  then show ?thesis by (intro dec_nat_length) simp_all
qed

lemma dec_int_length: "int_fits i \<Longrightarrow> length (dec_int i) \<le> 11"
  using dec_abs_length [of i] by (cases "i < 0") (simp_all add: dec_int_def)

lemma pad_int_length: "int_fits i \<Longrightarrow> w \<le> 11 \<Longrightarrow> length (pad_int w i) \<le> 11"
  using dec_abs_length [of i] by (auto simp: pad_int_def Let_def)

text \<open>The fields are of type \<open>int\<close>, and so are the year and the month that are printed.\<close>

definition tm_ok :: "tm \<Rightarrow> bool" where
  "tm_ok t \<longleftrightarrow> int_fits (tm_year t + 1900) \<and> int_fits (tm_mon t + 1) \<and> int_fits (tm_mday t)
     \<and> int_fits (tm_hour t) \<and> int_fits (tm_min t) \<and> int_fits (tm_sec t)"

lemma line_header_length:
  assumes "tm_ok t" and "int_fits usec" and "int_fits tid"
  shows "length (line_header t usec tid l) \<le> 110"
proof -
  have n: "length (get_level_name l) = 7" by (cases l) (simp_all add: get_level_name_def cstr_def)
  have "length (pad_int 4 (tm_year t + 1900)) \<le> 11" "length (pad_int 2 (tm_mon t + 1)) \<le> 11" "length (pad_int 2 (tm_mday t)) \<le> 11"
    "length (pad_int 2 (tm_hour t)) \<le> 11" "length (pad_int 2 (tm_min t)) \<le> 11" "length (pad_int 2 (tm_sec t)) \<le> 11"
    "length (pad_int 6 usec) \<le> 11" "length (dec_int tid) \<le> 11"
    using assms by (simp_all add: tm_ok_def pad_int_length dec_int_length)
  with n show ?thesis by (simp add: line_header_def cstr_def)
qed

section \<open>Properties\<close>

text \<open>C18: A message of a wanted level is written to the log file as one line, header first, when the
  line with its newline and its NUL fits in the array of 1024 bytes; a longer message is cut by
  \<open>vsnprintf\<close>, but the NUL behind the newline is then written one byte behind the array.\<close>

theorem write_log_fits_or_overruns:
  assumes "log_level g = Some limit" and "level \<le> limit" and "0 \<notin> set msg"
    and "tm_ok t" and "int_fits usec" and "int_fits tid"
  shows "write_log junk t usec (Some tid) level msg g =
    (if length (line_header t usec tid level) + length msg \<le> 1022
     then Inr (g\<lparr>written := written g @ [(log_fd g, line_header t usec tid level @ msg @ [10])]\<rparr>)
     else Inl BufferOverflow)"
proof -
  have "length (line_header t usec tid level) < MAX_MSG_LENGTH"
    using line_header_length [OF assms(4-6), of level] by (simp add: MAX_MSG_LENGTH_def)
  from write_log_line [OF assms(1-3) this, of junk] show ?thesis by (simp add: MAX_MSG_LENGTH_def)
qed

theorem write_log_fits_or_overruns_witness:
  "write_log (\<lambda>_. 0) \<lparr>tm_year = 115, tm_mon = 2, tm_mday = 5, tm_hour = 15, tm_min = 29, tm_sec = 0\<rparr> 7 (Some 1) WARN
     (replicate 1100 65) \<lparr>log_fd = 3, old_fd = 0, log_level = Some INFO, open_fds = [3], written = []\<rparr> = Inl BufferOverflow"
  by (subst write_log_fits_or_overruns [where limit = INFO])
    (simp_all add: tm_ok_def int_fits_def less_eq_log_level_def)

text \<open>C17: Rotating the log keeps the current file and the one before it open and closes the file before
  that, so that however often the log is rotated at most two files are open and the current one is
  among them.\<close>

theorem rotation_keeps_two_files:
  assumes "log_inv g" and "fresh_fd fs g" and "open_log fs t folder level g = Inr (ok, g')"
  shows "log_inv g' \<and> length (open_fds g') \<le> 2
    \<and> (ok \<longrightarrow> log_fd g' \<in> set (open_fds g') \<and> old_fd g' = log_fd g \<and> (old_fd g \<noteq> 0 \<longrightarrow> old_fd g \<notin> set (open_fds g')))"
proof -
  have inv: "log_inv g'" by (rule open_log_inv [OF assms])
  have fd: "fs (log_path folder t) \<notin> set (open_fds g)" "fs (log_path folder t) \<noteq> 0" using assms(2) by (simp_all add: fresh_fd_def)
  have "set (open_fds g') \<subseteq> {log_fd g', old_fd g'}" "distinct (open_fds g')" using inv by (auto simp: log_inv_def)
  then have "length (open_fds g') \<le> card {log_fd g', old_fd g'}" by (metis card_mono distinct_card finite.emptyI finite_insert)
  also have "\<dots> \<le> 2" by (simp add: card_insert_if)
  finally have "length (open_fds g') \<le> 2" .
  with inv fd assms(1,3) show ?thesis
    by (auto simp: open_log_def Let_def log_inv_def split: if_splits)
qed

theorem rotation_keeps_two_files_witness:
  "\<exists>g'. open_log (\<lambda>_. 5) \<lparr>tm_year = 115, tm_mon = 2, tm_mday = 5, tm_hour = 15, tm_min = 29, tm_sec = 0\<rparr> [] (cstr ''warn'')
     \<lparr>log_fd = 4, old_fd = 3, log_level = Some INFO, open_fds = [4, 3], written = []\<rparr> = Inr (True, g') \<and> length (open_fds g') \<le> 2"
proof -
  let ?t = "\<lparr>tm_year = 115, tm_mon = 2, tm_mday = 5, tm_hour = 15, tm_min = 29, tm_sec = 0\<rparr>"
  let ?g = "\<lparr>log_fd = 4, old_fd = 3, log_level = Some INFO, open_fds = [4, 3], written = []\<rparr>"
  have "length (log_path [] ?t) \<le> 511" by (simp add: log_path_def pad_int_def c_string_def cstr_def dec_nat.simps)
  then obtain g' where g': "open_log (\<lambda>_. 5) ?t [] (cstr ''warn'') ?g = Inr (True, g')" by (auto simp: open_log_def Let_def)
  moreover have "log_inv ?g" "fresh_fd (\<lambda>_. 5) ?g" by (simp_all add: log_inv_def fresh_fd_def)
  ultimately show ?thesis using rotation_keeps_two_files [of ?g "\<lambda>_. 5" ?t "[]" "cstr ''warn''" True g'] by blast
qed

end
