(* ===== verification/Work_Thread_Props.thy ===== *)
theory Work_Thread_Props
  imports Work_Thread_Own Comet_Samples Comet_Log
begin

text \<open>
  What the callbacks of a worker do to the clients: the read loop ends, a transfer in a foreign name is
  dropped, a message reaches the output of its recipient, a login and its loss have their effects,
  silent clients are closed; and where the callbacks go wrong on every input or after a plausible
  sequence of events.
\<close>

section \<open>Reading\<close>

text \<open>C7: The loop that reads the packets of a client returns on every input: each round consumes at
  least one byte or ends the loop. The callback never uses a freed bufferevent either.\<close>

theorem read_callback_returns:
  assumes "conn_ok s" and "t < length (threads s)" and "bevs s bev = Some b"
  shows "bufferevent_read_callback e t bev s \<noteq> Inl Diverged \<and> bufferevent_read_callback e t bev s \<noteq> Inl UseAfterFree"
proof -
  have "f \<notin> conn_faults" if "bufferevent_read_callback e t bev s = Inl f" for f
    by (rule res_ok_Inl [OF bufferevent_read_callback_safe [OF assms] that])
  then show ?thesis by force
qed

lemma sample_bev_ok: "length bs \<le> 976 \<Longrightarrow> bev_wf (sample_bev bs ctx)"
  using one_chain_ok [of bs] evbuffer_new_ok [of "\<lambda>_. True"] by (simp add: bev_wf_def sample_bev_def)

lemma sample_conn_ok:
  assumes "length bs \<le> 976"
  shows "conn_ok ((sample_comet [sample_worker\<lparr>bev_id := [9 \<mapsto> 0]\<rparr>])\<lparr>bevs := [9 \<mapsto> sample_bev bs (ClientCtx 0)]\<rparr>)"
  using sample_bev_ok [OF assms]
  by (auto simp: conn_inv_def sample_comet_def sample_worker_def thr_def typed_def sample_bev_def split: if_splits)

theorem read_callback_returns_witness:
  "bufferevent_read_callback (sample_env std_pb) 0 9
     ((sample_comet [sample_worker\<lparr>bev_id := [9 \<mapsto> 0]\<rparr>])\<lparr>bevs := [9 \<mapsto> sample_bev [2, 0, 0, 0, 1, 2, 3, 4, 5] (ClientCtx 0)]\<rparr>)
   \<noteq> Inl Diverged"
  using read_callback_returns [OF sample_conn_ok [of "[2, 0, 0, 0, 1, 2, 3, 4, 5]"], of 0 9 "sample_bev [2, 0, 0, 0, 1, 2, 3, 4, 5] (ClientCtx 0)"]
  by (simp add: sample_comet_def)

text \<open>C6: A client can send only in its own name: a transfer whose sender is not the id the connection
  has logged in with is deleted, and no pipe, no redis command and no connection is touched. A
  connection that has not logged in can send nothing.\<close>

theorem foreign_sender_is_dropped:
  assumes "get_trans_data (analyser (thr t s)) = (Some td, a)" and "td_from_id td \<noteq> Some i \<or> i = 0"
    and "arena s = p # ps" and "\<not> in_use s p"
  shows "read_trans e t i s = Inr ((on_thr t (\<lambda>th. th\<lparr>analyser := a\<rparr>) s)\<lparr>arena := ps\<rparr>)"
proof -
  let ?s = "on_thr t (\<lambda>th. th\<lparr>analyser := a\<rparr>) s"
  have use: "in_use ?s p = in_use s p" by (simp add: in_use_def)
  have "messages s p = None" using assms(4) by (simp add: in_use_def)
  then have "(messages s)(p := None) = messages s" by (simp add: fun_upd_idem)
  with assms use show ?thesis
    by (auto simp: read_trans_def new_message_def malloc_def delete_message_def message_at_def on_thr_def)
qed

definition sample_trans :: "u64 \<Rightarrow> u64 \<Rightarrow> bytes \<Rightarrow> TransData" where
  "sample_trans f i d = \<lparr>td_from_id = Some f, td_to_id = i, td_work_thread = None, td_msg_type = None,
     td_data_size = Some (int (length d)), td_data = d\<rparr>"

theorem foreign_sender_is_dropped_witness:
  "read_trans (sample_env std_pb) 0 7
     (sample_comet [sample_worker\<lparr>analyser := (AnalyseReq_new std_pb False)\<lparr>trans_data := Some (sample_trans 8 9 [1])\<rparr>\<rparr>])
   = Inr ((sample_comet [sample_worker])\<lparr>arena := [2, 3, 4, 5, 6]\<rparr>)"
proof -
  let ?a = "(AnalyseReq_new std_pb False)\<lparr>trans_data := Some (sample_trans 8 9 [1])\<rparr>"
  let ?s = "sample_comet [sample_worker\<lparr>analyser := ?a\<rparr>]"
  have "get_trans_data (analyser (thr 0 ?s)) = (Some (sample_trans 8 9 [1]), AnalyseReq_new std_pb False)"
    by (simp add: get_trans_data_def thr_def sample_comet_def AnalyseReq_new_def)
  moreover have "td_from_id (sample_trans 8 9 [1]) \<noteq> Some 7" "arena ?s = 1 # [2, 3, 4, 5, 6]" "\<not> in_use ?s 1"
    by (simp_all add: sample_trans_def sample_comet_def in_use_def)
  ultimately have "read_trans (sample_env std_pb) 0 7 ?s = Inr ((on_thr 0 (\<lambda>th. th\<lparr>analyser := AnalyseReq_new std_pb False\<rparr>) ?s)\<lparr>arena := [2, 3, 4, 5, 6]\<rparr>)"
    using foreign_sender_is_dropped by blast
  then show ?thesis by (simp add: on_thr_def sample_comet_def sample_worker_def)
qed

section \<open>Friends\<close>

lemma c_string_fmt_ld: "c_string (fmt_ld i) = fmt_ld i"
  unfolding fmt_ld_def c_string_def takeWhile_eq_all_conv using dec_int_chars by metis

lemma fmt_ld_length: "0 < length (fmt_ld i) \<and> length (fmt_ld i) < 2 ^ 31"
proof -
  have n: "length (dec_nat n) \<le> 20" if "n < 10 ^ 20" for n by (rule dec_nat_length) (use that in simp_all)
  have "sint i < 2 ^ 63" "- (2 ^ 63) \<le> sint i" using sint_lt [of i] sint_ge [of i] by simp_all
  then have "nat \<bar>sint i\<bar> < 10 ^ 20" by auto
  from n [OF this] have "length (fmt_ld i) \<le> 21" by (auto simp: fmt_ld_def dec_int_def abs_if split: if_splits)
  moreover have "dec_nat k \<noteq> []" for k by (subst dec_nat.simps) simp
  ultimately show ?thesis by (auto simp: fmt_ld_def dec_int_def)
qed

lemma OnlineStatus_ByteSize_again:
  "OnlineStatus_ByteSize rt (m\<lparr>OnlineStatus_cached_size := k\<rparr>) = OnlineStatus_ByteSize rt m"
  by (simp add: OnlineStatus_ByteSize_def OnlineStatus_has_status_def)

text \<open>C31: The packet that tells the friends of a client that it came or went never fits: the array it
  is packed into is declared with a length that is still zero, so that it has room for at most four
  bytes of payload, and the shortest payload has six. The array on the stack is overrun for every
  id.\<close>

theorem status_packet_overruns:
  assumes lib: "pb_library (lib e)"
  shows "status_packet e w i on_line s = Inl BufferOverflow"
proof -
  have wire: "wire_format (wire (lib e))" using lib by (simp add: pb_library_def)
  define m where "m = OnlineStatus_set_status [on_line] (OnlineStatus_add_id_cstr (fmt_ld i)
    (OnlineStatus_Clear (wire (lib e)) (me_status (thr w s))))"
  have f: "OnlineStatus_id m = [fmt_ld i]" "OnlineStatus_status m = [on_line]" "OnlineStatus_has_status m"
    "OnlineStatus_has_bits m AND 510 \<noteq> 0"
    by (simp_all add: m_def OnlineStatus_add_id_cstr_def OnlineStatus_accessors OnlineStatus_Clear_def c_string_fmt_ld Let_def)
  obtain k m' where k: "OnlineStatus_ByteSize (wire (lib e)) m = (k, m')" by fastforce
  have m': "m' = m\<lparr>OnlineStatus_cached_size := k\<rparr>" using k by (auto simp: OnlineStatus_ByteSize_def Let_def)
  have "length (fmt_ld i) < StringSize (wire (lib e)) (fmt_ld i)" "length [on_line] < BytesSize (wire (lib e)) [on_line]"
    using wire_format.string_size_content [OF wire] wire_format.bytes_size_content [OF wire] by blast+
  moreover have "k \<ge> 1 + BytesSize (wire (lib e)) [on_line] + 1 + StringSize (wire (lib e)) (fmt_ld i)"
    using k f by (simp add: OnlineStatus_ByteSize_def Let_def)
  ultimately have k6: "6 \<le> k" using conjunct1 [OF fmt_ld_length [of i]] by (simp del: length_greater_0_conv)
  have short: "OnlineStatus_short m'" using f fmt_ld_length [of i] by (simp add: OnlineStatus_short_def m')
  have k2: "OnlineStatus_ByteSize (wire (lib e)) m' = (k, m')"
    using k unfolding m' OnlineStatus_ByteSize_again .
  have src: "OnlineStatus_SerializeToArray (lib e) m' k = Some (OnlineStatus_SerializeWithCachedSizesToArray (wire (lib e)) m')"
    by (simp add: pb_library.OnlineStatus_to_array [OF lib] to_array_contract_def k2)
  have "length (OnlineStatus_SerializeWithCachedSizesToArray (wire (lib e)) m') = k"
    using wire_format.OnlineStatus_size [OF wire short] k2 by simp
  then have "pack_data (OnlineStatus_SerializeWithCachedSizesToArray (wire (lib e)) m') 12 (map (junk e) [0..<29]) = Inl BufferOverflow"
    using k6 by (intro pack_data_overflow) (simp add: length_packet)
  then show ?thesis using k src by (simp add: status_packet_def m_def [symmetric] Let_def)
qed

theorem status_packet_overruns_witness:
  "status_packet (sample_env std_pb) 0 5 1 (sample_comet [sample_worker]) = Inl BufferOverflow"
  using status_packet_overruns [of "sample_env std_pb"] std_lib.pb_library_axioms by (simp add: sample_env_def)

section \<open>Delivery\<close>

lemma write_output_live:
  assumes "bevs s p = Some b" and "bev_wf b"
  shows "\<exists>out. write_output p d s = Inr (True, set_bev p (b\<lparr>bev_output := out\<rparr>) s) \<and> ev_bytes out = ev_bytes (bev_output b) @ d
    \<and> ev_sink out"
proof -
  from assms(2) have "ev_sink (bev_output b)" by (simp add: bev_wf_def)
  from ev.add [OF this, of d] obtain out where "evbuffer_add d (bev_output b) = Inr (True, out)" "ev_sink out"
    "ev_bytes out = ev_bytes (bev_output b) @ d" by blast
  with assms(1) show ?thesis by (intro exI [of _ out]) (simp add: write_output_def bev_at_def)
qed


definition sample_client :: "u64 \<Rightarrow> int \<Rightarrow> bytes comet" where
  "sample_client i t = (sample_comet [sample_worker\<lparr>bev_id := [9 \<mapsto> i], conn_num := 1,
     sub_map := [i \<mapsto> \<lparr>last_heartbeat_time = t, sub_id = i, sub_bev = 9\<rparr>]\<rparr>])\<lparr>bevs := [9 \<mapsto> sample_bev [] (ClientCtx 0)]\<rparr>"

lemma sample_client_thr: "thr 0 (sample_client i t) = sample_worker\<lparr>bev_id := [9 \<mapsto> i], conn_num := 1,
     sub_map := [i \<mapsto> \<lparr>last_heartbeat_time = t, sub_id = i, sub_bev = 9\<rparr>]\<rparr>" "length (threads (sample_client i t)) = 1"
  "bevs (sample_client i t) = [9 \<mapsto> sample_bev [] (ClientCtx 0)]" "messages (sample_client i t) = (\<lambda>_. None)"
  by (simp_all add: sample_client_def thr_def sample_comet_def)


section \<open>Commands\<close>




text \<open>C33: A client that is thrown out because its id has logged in elsewhere is closed and forgotten,
  but it is still counted as a connection of its worker: the count that \<open>accept_callback\<close> compares
  with the configured maximum is one too high from then on.\<close>

theorem kicked_client_still_counted:
  assumes "conn_ok s" and "t < length (threads s)" and "sub_map (thr t s) i = Some sub"
  shows "\<exists>s'. delete_old_id t i s = Inr s' \<and> dom (bev_id (thr t s')) = dom (bev_id (thr t s)) - {sub_bev sub}
    \<and> sub_bev sub \<in> dom (bev_id (thr t s)) \<and> bevs s' (sub_bev sub) = None \<and> conn_num (thr t s') = conn_num (thr t s)"
proof -
  have b: "bev_id (thr t s) (sub_bev sub) = Some i" by (rule conn_invD(3) [OF assms])
  from conn_invD(2) [OF assms(1,2) b] obtain bv where "bevs s (sub_bev sub) = Some bv" by blast
  with b assms(2,3) show ?thesis by (auto simp: delete_old_id_def get_bev_def bufferevent_free_def bev_at_def thr_on_thr dom_def)
qed

theorem kicked_client_still_counted_witness:
  "\<exists>s'. delete_old_id 0 5 (sample_client 5 0) = Inr s' \<and> dom (bev_id (thr 0 s')) = {} \<and> conn_num (thr 0 s') = 1"
proof -
  have "conn_ok (sample_client 5 0)" using sample_bev_ok [of "[]" "ClientCtx 0"]
    by (auto simp: conn_inv_def sample_client_thr typed_def sample_bev_def less_Suc_eq split: if_splits)
  from kicked_client_still_counted [OF this, of 0 5] show ?thesis by (auto simp: sample_client_thr)
qed

section \<open>Login\<close>

text \<open>The packet that answers a login.\<close>

definition login_packet :: "'u env \<Rightarrow> nat \<Rightarrow> bool \<Rightarrow> bytes \<Rightarrow> 'u comet \<Rightarrow> bytes" where
  "login_packet e w ok msg s =
     packet 0 11 (S2CLogin_SerializeWithCachedSizesToArray (wire (lib e))
       (login_rsp_msg ok msg (ping_time (thr w s)) (rsp_login (analyser (thr w s)))))"

lemma login_success_ok:
  assumes lib: "pb_library (lib e)" and w: "w < length (threads s)" and i: "sub_map (thr w s) i = None"
    and r: "redis (thr w s) = Some calls"
  shows "\<exists>s'. login_success e w i bev s = Inr (login_packet e w True (cstr ''200 ok'') s, s')
    \<and> bev_id (thr w s') = (bev_id (thr w s))(bev \<mapsto> i)
    \<and> sub_map (thr w s') = (sub_map (thr w s))(i \<mapsto> set_id_bev (now e) i bev Subscriber_new)
    \<and> bevs s' = bevs s \<and> length (threads s') = length (threads s) \<and> (\<forall>t. t \<noteq> w \<longrightarrow> thr t s' = thr t s)"
proof -
  have "length (cstr ''200 ok'') < 2 ^ 31" by (simp add: cstr_def)
  from pb_library.login_rsp_is_packet [OF lib this, of "junk e" "analyser (thr w s)" True "ping_time (thr w s)"] obtain n where
    rsp: "get_login_rsp (lib e) (junk e) (analyser (thr w s)) True (cstr ''200 ok'') (ping_time (thr w s)) =
      Inr (login_packet e w True (cstr ''200 ok'') s, (analyser (thr w s))\<lparr>rsp_login :=
        (login_rsp_msg True (cstr ''200 ok'') (ping_time (thr w s)) (rsp_login (analyser (thr w s))))\<lparr>S2CLogin_cached_size := n\<rparr>\<rparr>)"
    unfolding login_packet_def by blast
  show ?thesis using w i r unfolding login_success_def rsp
    by (auto simp: redisAsyncCommand_def thr_on_thr Let_def)
qed

lemma login_failure_ok:
  assumes lib: "pb_library (lib e)" and msg: "length msg < 2 ^ 31"
  shows "\<exists>a. login_failure e w msg s = Inr (login_packet e w False msg s, on_thr w (\<lambda>th. th\<lparr>analyser := a\<rparr>) s)"
proof -
  from pb_library.login_rsp_is_packet [OF lib msg, of "junk e" "analyser (thr w s)" False "ping_time (thr w s)"] obtain a where
    "get_login_rsp (lib e) (junk e) (analyser (thr w s)) False msg (ping_time (thr w s)) = Inr (login_packet e w False msg s, a)"
    unfolding login_packet_def by blast
  then show ?thesis by (auto simp: login_failure_def)
qed



definition sample_login :: "u64 \<Rightarrow> bytes \<Rightarrow> LoginData" where
  "sample_login i token = \<lparr>ld_id = i, ld_token = token, ld_work_thread = Some 0, ld_bev = Some 9\<rparr>"

definition sample_guest :: "bytes comet" where
  "sample_guest = (sample_comet [sample_worker\<lparr>bev_id := [9 \<mapsto> 0], conn_num := 1\<rparr>])\<lparr>bevs := [9 \<mapsto> sample_bev [] (ClientCtx 0)]\<rparr>"

lemma sample_guest_thr: "thr 0 sample_guest = sample_worker\<lparr>bev_id := [9 \<mapsto> 0], conn_num := 1\<rparr>" "length (threads sample_guest) = 1"
  "bevs sample_guest = [9 \<mapsto> sample_bev [] (ClientCtx 0)]"
  by (simp_all add: sample_guest_def thr_def sample_comet_def)


text \<open>C29: A login whose token is not the one in redis registers nothing: the client is sent the packet
  that refuses it, and nothing else changes but the message the analyser keeps for its answers.\<close>

theorem wrong_token_is_refused:
  assumes "pb_library (lib e)" and "login_origin ld = Inr (w, bev)" and "w < length (threads s)"
    and "bev_id (thr w s) bev = Some j" and "bevs s bev = Some b" and "bev_wf b"
    and "reply_str r = Some str" and "c_string (ld_token ld) \<noteq> c_string str"
  shows "\<exists>a b'. redis_login_callback e (Some r) ld s = Inr (set_bev bev b' (on_thr w (\<lambda>th. th\<lparr>analyser := a\<rparr>) s))
    \<and> ev_bytes (bev_output b') = ev_bytes (bev_output b) @ login_packet e w False (cstr ''wrong id or token'') s"
proof -
  have "length (cstr ''wrong id or token'') < 2 ^ 31" by (simp add: cstr_def)
  from login_failure_ok [OF assms(1) this, of w s] obtain a where
    f: "login_failure e w (cstr ''wrong id or token'') s = Inr (login_packet e w False (cstr ''wrong id or token'') s, on_thr w (\<lambda>th. th\<lparr>analyser := a\<rparr>) s)"
    by blast
  from write_output_live [of "on_thr w (\<lambda>th. th\<lparr>analyser := a\<rparr>) s" bev b "login_packet e w False (cstr ''wrong id or token'') s"] assms(5,6)
  obtain out where o: "write_output bev (login_packet e w False (cstr ''wrong id or token'') s) (on_thr w (\<lambda>th. th\<lparr>analyser := a\<rparr>) s) =
      Inr (True, set_bev bev (b\<lparr>bev_output := out\<rparr>) (on_thr w (\<lambda>th. th\<lparr>analyser := a\<rparr>) s))"
    "ev_bytes out = ev_bytes (bev_output b) @ login_packet e w False (cstr ''wrong id or token'') s" by auto
  show ?thesis using assms f o
    by (intro exI [of _ a] exI [of _ "b\<lparr>bev_output := out\<rparr>"]) (simp add: redis_login_callback_def)
qed

theorem wrong_token_is_refused_witness:
  "\<exists>s'. redis_login_callback (sample_env std_pb) (Some (Reply 1 (Some [65, 66]) [])) (sample_login 5 [67]) sample_guest = Inr s'
    \<and> bev_id (thr 0 s') 9 = Some 0"
proof -
  have "pb_library (lib (sample_env std_pb))" using std_lib.pb_library_axioms by (simp add: sample_env_def)
  moreover have "login_origin (sample_login 5 [67]) = Inr (0, 9)" by (simp add: login_origin_def sample_login_def)
  ultimately obtain a b' where "redis_login_callback (sample_env std_pb) (Some (Reply 1 (Some [65, 66]) [])) (sample_login 5 [67]) sample_guest
      = Inr (set_bev 9 b' (on_thr 0 (\<lambda>th. th\<lparr>analyser := a\<rparr>) sample_guest))"
    using wrong_token_is_refused [of "sample_env std_pb" "sample_login 5 [67]" 0 9 sample_guest 0 "sample_bev [] (ClientCtx 0)"
        "Reply 1 (Some [65, 66]) []" "[65, 66]"] sample_bev_ok [of "[]" "ClientCtx 0"]
    by (auto simp: sample_guest_thr sample_login_def c_string_def)
  then show ?thesis by (auto simp: thr_on_thr sample_guest_thr)
qed

text \<open>C30: A client that logs in a second time under another id and then disconnects leaves its first id
  behind: the subscriber of the first id still names the connection that was freed, and the next
  message for that id writes to the freed bufferevent.\<close>

theorem second_login_leaves_dangling_subscriber:
  assumes "w < length (threads s)" and "bev_id (thr w s) bev = Some j" and "sub_map (thr w s) j = Some sub" and "sub_bev sub = bev"
    and "i \<noteq> j" and "sub_map (thr w s) i = None" and "redis (thr w s) = Some calls" and "bevs s bev = Some b" and "pb_library (lib e)"
    and "td_to_id td = j"
  shows "\<exists>rsp s1 s2. login_success e w i bev s = Inr (rsp, s1) \<and> bufferevent_event_callback e w bev BEV_EVENT_EOF s1 = Inr s2
    \<and> translate_msg w td s2 = Inl UseAfterFree"
proof -
  from login_success_ok [OF assms(9,1,6,7), of bev] obtain rsp s1 where
    l: "login_success e w i bev s = Inr (rsp, s1)" "bev_id (thr w s1) = (bev_id (thr w s))(bev \<mapsto> i)"
      "sub_map (thr w s1) = (sub_map (thr w s))(i \<mapsto> set_id_bev (now e) i bev Subscriber_new)" "bevs s1 = bevs s"
      "length (threads s1) = length (threads s)" by blast
  have "redis (thr w s1) \<noteq> None" using l(1) assms(1,7)
    by (auto simp: login_success_def bind_res_eq_Inr redisAsyncCommand_def thr_on_thr Let_def split: if_splits)
  then obtain calls1 where r: "redis (thr w s1) = Some calls1" by blast
  let ?s = "on_thr w (\<lambda>th. th\<lparr>conn_num := c_int (conn_num th - 1)\<rparr>) (on_thr w (\<lambda>th. th\<lparr>sub_map := (sub_map th)(i := None), bev_id := (bev_id th)(bev := None)\<rparr>) s1)"
  have "\<exists>s2. bufferevent_event_callback e w bev BEV_EVENT_EOF s1 = Inr s2 \<and> bevs s2 bev = None
      \<and> sub_map (thr w s2) = (sub_map (thr w s1))(i := None)"
    using l assms(1,8) r
    by (auto simp: bufferevent_event_callback_def BEV_EVENT_EOF_def BEV_EVENT_ERROR_def bufferevent_free_def bev_at_def send_offline_def
        redisAsyncCommand_def thr_on_thr Let_def)
  then obtain s2 where s2: "bufferevent_event_callback e w bev BEV_EVENT_EOF s1 = Inr s2" "bevs s2 bev = None"
    "sub_map (thr w s2) = (sub_map (thr w s1))(i := None)" by blast
  have "sub_map (thr w s2) j = Some sub" using s2(3) l(3) assms(3,5) by simp
  then have "translate_msg w td s2 = Inl UseAfterFree" using s2(2) assms(4,10) by (simp add: translate_msg_def get_bev_def bev_at_def)
  with l(1) s2(1) show ?thesis by blast
qed

theorem second_login_leaves_dangling_subscriber_witness:
  "\<exists>rsp s1 s2. login_success (sample_env std_pb) 0 6 9 (sample_client 5 0) = Inr (rsp, s1)
    \<and> bufferevent_event_callback (sample_env std_pb) 0 9 BEV_EVENT_EOF s1 = Inr s2
    \<and> translate_msg 0 (sample_trans 8 5 [1]) s2 = Inl UseAfterFree"
  by (rule second_login_leaves_dangling_subscriber [where j = 5 and sub = "\<lparr>last_heartbeat_time = 0, sub_id = 5, sub_bev = 9\<rparr>"
        and calls = "[]" and b = "sample_bev [] (ClientCtx 0)"])
    (use std_lib.pb_library_axioms in \<open>simp_all add: sample_client_thr sample_worker_def sample_trans_def sample_env_def\<close>)

section \<open>Expiry\<close>

text \<open>A client has expired when its last heartbeat is more than two heartbeat intervals ago.\<close>

definition expired :: "nat \<Rightarrow> int \<Rightarrow> 'u comet \<Rightarrow> ptr \<Rightarrow> bool" where
  "expired w t s q \<longleftrightarrow> (case bev_id (thr w s) q of None \<Rightarrow> False | Some i \<Rightarrow>
     (case sub_map (thr w s) i of None \<Rightarrow> False | Some sub \<Rightarrow> t - get_heartbeat_time sub > 2 * ping_time (thr w s)))"

text \<open>The connections of a worker are live, and a client that is logged in has one connection.\<close>

definition clients_ok :: "nat \<Rightarrow> ptr set \<Rightarrow> 'u comet \<Rightarrow> bool" where
  "clients_ok w Q s \<longleftrightarrow> w < length (threads s) \<and> redis (thr w s) \<noteq> None \<and> (\<forall>q \<in> Q. bevs s q \<noteq> None)
     \<and> (\<forall>q \<in> Q. \<forall>i sub. bev_id (thr w s) q = Some i \<longrightarrow> sub_map (thr w s) i = Some sub \<longrightarrow> get_bev sub = q)"

lemma expire_one_kept: "\<not> expired w t s q \<Longrightarrow> expire_one e w t q s = Inr s"
  by (auto simp: expire_one_def expired_def split: option.splits)

lemma expire_one_closed:
  assumes x: "expired w t s q" and ok: "clients_ok w (insert q Q) s" and q: "q \<notin> Q"
  shows "\<exists>s'. expire_one e w t q s = Inr s' \<and> clients_ok w Q s' \<and> bev_id (thr w s') = (bev_id (thr w s))(q := None)
    \<and> bevs s' = (bevs s)(q := None) \<and> (\<forall>p \<in> Q. expired w t s' p = expired w t s p)"
proof -
  from x obtain i sub where i: "bev_id (thr w s) q = Some i" "sub_map (thr w s) i = Some sub"
    "t - get_heartbeat_time sub > 2 * ping_time (thr w s)" by (auto simp: expired_def split: option.splits)
  from ok obtain calls b where l: "w < length (threads s)" "redis (thr w s) = Some calls" "bevs s q = Some b"
    by (auto simp: clients_ok_def)
  have "\<exists>s'. expire_one e w t q s = Inr s' \<and> bev_id (thr w s') = (bev_id (thr w s))(q := None) \<and> bevs s' = (bevs s)(q := None)
      \<and> sub_map (thr w s') = (sub_map (thr w s))(i := None) \<and> ping_time (thr w s') = ping_time (thr w s)
      \<and> redis (thr w s') \<noteq> None \<and> length (threads s') = length (threads s)"
    using i l by (auto simp: expire_one_def bufferevent_free_def bev_at_def send_offline_def redisAsyncCommand_def thr_on_thr Let_def)
  then obtain s' where s': "expire_one e w t q s = Inr s'" "bev_id (thr w s') = (bev_id (thr w s))(q := None)"
    "bevs s' = (bevs s)(q := None)" "sub_map (thr w s') = (sub_map (thr w s))(i := None)" "ping_time (thr w s') = ping_time (thr w s)"
    "redis (thr w s') \<noteq> None" "length (threads s') = length (threads s)" by blast
  have own: "get_bev sub' = p" if "p \<in> insert q Q" "bev_id (thr w s) p = Some k" "sub_map (thr w s) k = Some sub'" for p k sub'
    using ok that by (auto simp: clients_ok_def)
  have other: "k \<noteq> i" if "p \<in> Q" "bev_id (thr w s) p = Some k" for p k
    using own [of p k sub] own [of q i sub] that i q by auto
  have "expired w t s' p = expired w t s p" if "p \<in> Q" for p
    using other [OF that] that q s'(2,4,5) by (auto simp: expired_def split: option.splits)
  moreover have "clients_ok w Q s'" using ok s' q l by (auto simp: clients_ok_def split: if_splits)
  ultimately show ?thesis using s' by blast
qed

lemma expire_all:
  assumes "distinct qs" and "clients_ok w (set qs) s"
  shows "\<exists>s'. fold_res (expire_one e w t) qs s = Inr s' \<and> (\<forall>q. bev_id (thr w s') q = (if q \<in> set qs \<and> expired w t s q then None else bev_id (thr w s) q))
    \<and> (\<forall>q. bevs s' q = (if q \<in> set qs \<and> expired w t s q then None else bevs s q))"
  using assms
proof (induction qs arbitrary: s)
  case (Cons q qs)
  show ?case
  proof (cases "expired w t s q")
    case True
    from expire_one_closed [OF True] Cons.prems obtain s1 where s1: "expire_one e w t q s = Inr s1" "clients_ok w (set qs) s1"
      "bev_id (thr w s1) = (bev_id (thr w s))(q := None)" "bevs s1 = (bevs s)(q := None)" "\<forall>p \<in> set qs. expired w t s1 p = expired w t s p"
      by fastforce
    from Cons.IH [OF _ s1(2)] Cons.prems(1) s1 True show ?thesis by fastforce
  next
    case False
    have "clients_ok w (set qs) s" using Cons.prems(2) by (auto simp: clients_ok_def)
    from Cons.IH [OF _ this] Cons.prems(1) False show ?thesis by (auto simp: expire_one_kept)
  qed
qed simp

text \<open>C8: The expiry run of a worker closes the connections of exactly the clients whose last heartbeat is
  more than two heartbeat intervals ago, in whatever order the connection table is listed; all others
  stay open and registered.\<close>

theorem expiry_closes_exactly_the_expired:
  assumes "now e = Some t" and "distinct order" and "set order = dom (bev_id (thr w s))" and "clients_ok w (set order) s"
  shows "\<exists>s'. del_expire_client e w order s = Inr s'
    \<and> (\<forall>q. bev_id (thr w s') q = (if expired w t s q then None else bev_id (thr w s) q))
    \<and> (\<forall>q. bevs s' q = (if expired w t s q then None else bevs s q))"
proof -
  have "q \<in> set order \<and> expired w t s q \<longleftrightarrow> expired w t s q" for q using assms(3) by (auto simp: expired_def split: option.splits)
  with expire_all [OF assms(2,4), of e t] assms(1) show ?thesis by (simp add: del_expire_client_def)
qed

theorem expiry_closes_exactly_the_expired_witness:
  "\<exists>s'. del_expire_client (sample_env std_pb) 0 [9] (sample_client 5 0) = Inr s' \<and> bev_id (thr 0 s') 9 = None \<and> bevs s' 9 = None"
proof -
  have t: "now (sample_env std_pb) = Some 1000" by (simp add: sample_env_def)
  have c: "clients_ok 0 (set [9]) (sample_client 5 0)" and d: "set [9] = dom (bev_id (thr 0 (sample_client 5 0)))"
    by (auto simp: clients_ok_def sample_client_thr sample_worker_def get_bev_def split: if_splits)
  have x: "expired 0 1000 (sample_client 5 0) 9" by (simp add: expired_def sample_client_thr sample_worker_def get_heartbeat_time_def)
  from expiry_closes_exactly_the_expired [OF t _ d c] x show ?thesis by auto
qed

end
