(* ===== verification/Comet_Server.thy ===== *)
theory Comet_Server
  imports Work_Thread_Own Comet_Log Comet_Samples
begin

text \<open>
  The main thread, \<open>src/core/server.cc\<close> with \<open>server.h\<close> and \<open>shared_struct.h\<close>, the key of the thread data
  (\<open>shared_data.cc\<close>) and the start of the program (\<open>eglcomet.cc\<close>). The main thread reads the
  configuration, starts the workers, accepts connections and hands each one to the worker with the
  fewest, sends the workers the commands to expire clients and to stop, moves them to the next redis
  server and rotates the log.

  The results of system calls, of boost's property tree and of libevent's constructors are
  parameters. A process is the server object, the log and the workers with what they share.
\<close>

section \<open>State\<close>

record RedisInfo =
  ri_ip :: bytes
  ri_port :: int
  ri_db_num :: int

record Config =
  pid_file_path :: bytes
  logger_level :: bytes
  logger_folder :: bytes
  cfg_http_url :: bytes
  cfg_http_ip :: bytes
  redis_info :: "RedisInfo list"
  redis_info_count :: int
  cur_conn_index :: int
  cfg_listen :: int
  cfg_work_thread_num :: int
  max_num_per_thread :: int
  heartbeat_time :: int
  cfg_is_daemon :: bool

text \<open>\<open>main_break\<close> is \<open>event_break\<close> of the main event base, \<open>main_freed\<close> says that the base was freed;
  \<open>pid_file\<close> is the content of the pid file.\<close>

record Server =
  config_info :: Config
  last_connect_time :: int
  srv_work_thread_num :: int
  main_thread_id :: int
  main_break :: bool
  main_freed :: bool
  pid_file :: "bytes option"

record 'u process =
  server :: Server
  glog :: SingletonLog
  comet_of :: "'u comet"

definition Server_new :: "Server \<Rightarrow> Server" where
  "Server_new blank = blank\<lparr>srv_work_thread_num := 0, main_thread_id := 0\<rparr>"

section \<open>Configuration\<close>

text \<open>\<open>get<std::string>\<close> and \<open>get<int>\<close> of the tree that \<open>read_info\<close> read; a path that is missing or of
  the wrong type throws, and nobody catches it.\<close>

record ptree =
  get_str :: "bytes \<Rightarrow> bytes option"
  get_int :: "bytes \<Rightarrow> int option"

definition get_or_throw :: "(bytes \<Rightarrow> 'a option) \<Rightarrow> bytes \<Rightarrow> 'a res" where
  "get_or_throw f k = (case f k of None \<Rightarrow> Inl UncaughtException | Some v \<Rightarrow> Inr v)"

text \<open>The loop from \<open>i\<close> on, with \<open>n\<close> servers left.\<close>

primrec read_redis_info :: "ptree \<Rightarrow> nat \<Rightarrow> nat \<Rightarrow> RedisInfo list res" where
  "read_redis_info pt 0 i = Inr []"
| "read_redis_info pt (Suc n) i =
     bind_res (get_or_throw (get_str pt) (cstr ''redis.ip'' @ dec_nat i)) (\<lambda>ip.
     bind_res (get_or_throw (get_int pt) (cstr ''redis.port'' @ dec_nat i)) (\<lambda>port.
     bind_res (get_or_throw (get_int pt) (cstr ''redis.db_num'' @ dec_nat i)) (\<lambda>db.
     bind_res (read_redis_info pt n (Suc i)) (\<lambda>rest.
       Inr (\<lparr>ri_ip = ip, ri_port = port, ri_db_num = db\<rparr> # rest)))))"

definition analyse_config :: "ptree option \<Rightarrow> Config \<Rightarrow> Config res" where
  "analyse_config tree c =
     (case tree of None \<Rightarrow> Inl UncaughtException | Some pt \<Rightarrow>
      bind_res (get_or_throw (get_str pt) (cstr ''pidfile'')) (\<lambda>pidfile.
      bind_res (get_or_throw (get_str pt) (cstr ''logger.level'')) (\<lambda>level.
      bind_res (get_or_throw (get_str pt) (cstr ''logger.folder'')) (\<lambda>folder.
      bind_res (get_or_throw (get_int pt) (cstr ''server.listen'')) (\<lambda>listen.
      bind_res (get_or_throw (get_int pt) (cstr ''server.work_thread'')) (\<lambda>work_thread.
      bind_res (get_or_throw (get_int pt) (cstr ''server.max_num_per_thread'')) (\<lambda>max_num.
      bind_res (get_or_throw (get_int pt) (cstr ''server.heartbeat_time'')) (\<lambda>heartbeat.
      bind_res (get_or_throw (get_int pt) (cstr ''redis.redis_info_count'')) (\<lambda>count.
      if count < 0 then Inl UncaughtException
      else
      bind_res (read_redis_info pt (nat count) 0) (\<lambda>infos.
      bind_res (get_or_throw (get_str pt) (cstr ''http.url'')) (\<lambda>url.
      bind_res (get_or_throw (get_str pt) (cstr ''daemon'')) (\<lambda>daemon.
        Inr (c\<lparr>pid_file_path := pidfile, logger_level := level, logger_folder := folder, cfg_listen := listen,
               cfg_work_thread_num := work_thread, max_num_per_thread := max_num, heartbeat_time := heartbeat,
               redis_info_count := count, cur_conn_index := 0, redis_info := infos, cfg_http_url := url,
               cfg_is_daemon := (daemon = cstr ''on'')\<rparr>)))))))))))))"

section \<open>Start\<close>

definition create_pthread_key :: "int \<Rightarrow> bool" where
  "create_pthread_key res = (if res \<noteq> 0 then False else True)"

text \<open>What \<open>init_server\<close> gets: the host looked up and its address printed, the key, the log file, the
  event base, the thread data, the five events, and whether the pid file exists.\<close>

record boot_os =
  bo_host :: "bytes \<Rightarrow> bytes option option"
  bo_key :: int
  bo_open :: "bytes \<Rightarrow> int"
  bo_tm :: tm
  bo_usec :: int
  bo_junk :: "nat \<Rightarrow> byte"
  bo_event_base :: bool
  bo_setspecific :: int
  bo_event_new :: "nat \<Rightarrow> bool"
  bo_event_add :: "nat \<Rightarrow> int"
  bo_pid_exists :: "bytes \<Rightarrow> bool"

definition event_ready :: "boot_os \<Rightarrow> nat \<Rightarrow> bool" where
  "event_ready os k \<longleftrightarrow> bo_event_new os k \<and> \<not> bo_event_add os k < 0"

text \<open>The events of \<open>SIGINT\<close>, \<open>SIGTERM\<close>, \<open>SIGUSR1\<close> and \<open>SIGUSR2\<close>, then the timer, whose period is an
  \<open>int\<close> product.\<close>

definition init_signal_and_timer :: "boot_os \<Rightarrow> Config \<Rightarrow> bool res" where
  "init_signal_and_timer os c =
     (if \<not> event_ready os 0 then Inr False
      else if \<not> event_ready os 1 then Inr False
      else if \<not> event_ready os 2 then Inr False
      else if \<not> event_ready os 3 then Inr False
      else if \<not> int_fits (heartbeat_time c * 2) then Inl SignedOverflow
      else if \<not> event_ready os 4 then Inr False
      else Inr True)"

text \<open>The lines \<open>log_info\<close> writes with the place of the call.\<close>

definition log_info_at :: "boot_os \<Rightarrow> int \<Rightarrow> int \<Rightarrow> bytes \<Rightarrow> SingletonLog \<Rightarrow> SingletonLog res" where
  "log_info_at os tid line msg g =
     write_log (bo_junk os) (bo_tm os) (bo_usec os) (Some tid) INFO (at_place (cstr ''server.cc'') line msg) g"

definition redis_lines :: "nat \<Rightarrow> RedisInfo \<Rightarrow> (int \<times> bytes) list" where
  "redis_lines i r =
     [(129, cstr ''ip'' @ dec_nat i @ cstr '':'' @ c_string (ri_ip r)),
      (130, cstr ''port'' @ dec_nat i @ cstr '':'' @ dec_int (ri_port r)),
      (131, cstr ''db_num'' @ dec_nat i @ cstr '':'' @ dec_int (ri_db_num r))]"

definition config_lines :: "Config \<Rightarrow> (int \<times> bytes) list" where
  "config_lines c =
     [(120, cstr ''pidfile:'' @ c_string (pid_file_path c)),
      (121, cstr ''logger.level:'' @ c_string (logger_level c)),
      (122, cstr ''logger.folder:'' @ c_string (logger_folder c)),
      (123, cstr ''server.listen:'' @ dec_int (cfg_listen c)),
      (124, cstr ''server.work_thread:'' @ dec_int (cfg_work_thread_num c)),
      (125, cstr ''server.max_num_per_thread:'' @ dec_int (max_num_per_thread c)),
      (126, cstr ''server.heartbeat_time:'' @ dec_int (heartbeat_time c)),
      (127, cstr ''http.url:'' @ c_string (cfg_http_url c))]
     @ concat (map (\<lambda>i. redis_lines i (redis_info c ! i)) [0..<nat (redis_info_count c)])"

text \<open>The line with the method and the address of the event base is \<open>base_line\<close>.\<close>

definition init_server ::
  "boot_os \<Rightarrow> bytes \<Rightarrow> Server \<Rightarrow> SingletonLog \<Rightarrow> (bool \<times> Server \<times> SingletonLog) res" where
  "init_server os base_line v g =
     (let c = config_info v
      in case bo_host os (c_string (cfg_http_url c)) of
        None \<Rightarrow> Inr (False, v, g)
      | Some addr \<Rightarrow>
          let c = c\<lparr>cfg_http_ip := (case addr of None \<Rightarrow> [] | Some ip \<Rightarrow> ip)\<rparr>;
              v = v\<lparr>config_info := c\<rparr>
          in if \<not> create_pthread_key (bo_key os) then Inr (False, v, g)
             else bind_res (open_log (bo_open os) (bo_tm os) (logger_folder c) (logger_level c) g) (\<lambda>(ok, g).
             if \<not> ok then Inr (False, v, g)
             else if \<not> bo_event_base os then Inr (False, v, g)
             else let v = v\<lparr>main_break := False, main_freed := False\<rparr>
             in if bo_setspecific os \<noteq> 0 then Inr (False, v, g)
             else bind_res (log_info_at os (main_thread_id v) 109 base_line g) (\<lambda>g.
             bind_res (init_signal_and_timer os c) (\<lambda>ready.
             if \<not> ready then Inr (False, v, g)
             else if bo_pid_exists os (c_string (pid_file_path c)) then
               bind_res (log_info_at os (main_thread_id v) 116 (cstr ''pidfile exist. path:'' @ c_string (pid_file_path c)) g)
                 (\<lambda>g. Inr (False, v, g))
             else
               bind_res (fold_res (\<lambda>(line, msg). log_info_at os (main_thread_id v) line msg) (config_lines c) g) (\<lambda>g.
                 Inr (True, v, g))))))"

text \<open>What the start of worker \<open>i\<close> gets.\<close>

record 'u worker_os =
  wo_init :: init_os
  wo_blank :: "'u work_thread"
  wo_heart :: bool
  wo_accepts :: bool
  wo_context :: "bool option"
  wo_create :: int

primrec start_workers ::
  "'u pb_lib \<Rightarrow> (nat \<Rightarrow> 'u worker_os) \<Rightarrow> Config \<Rightarrow> nat \<Rightarrow> nat list \<Rightarrow> 'u comet \<Rightarrow> (bool \<times> 'u comet) res" where
  "start_workers pb os c n [] s = Inr (True, s)"
| "start_workers pb os c n (i # is) s =
     (case init_work (wo_init (os i)) (int i + 1) n (heartbeat_time c) (cfg_http_url c) (cfg_http_ip c)
             (WorkThread_new pb (wo_heart (os i)) (wo_blank (os i))) of
        (ok, th) \<Rightarrow>
          if \<not> ok then Inr (False, s\<lparr>threads := threads s @ [th]\<rparr>)
          else
            bind_res (read_at (redis_info c) (nat (cur_conn_index c))) (\<lambda>r.
            bind_res (asy_open_redis (wo_accepts (os i)) (wo_context (os i)) (ri_db_num r) th) (\<lambda>(ok, th).
            let s = s\<lparr>threads := threads s @ [th]\<rparr>
            in if \<not> ok then Inr (False, s)
               else if wo_create (os i) \<noteq> 0 then Inr (False, s)
               else start_workers pb os c n is s)))"

definition start_work_thread ::
  "'u pb_lib \<Rightarrow> (nat \<Rightarrow> 'u worker_os) \<Rightarrow> int \<Rightarrow> Server \<Rightarrow> 'u comet \<Rightarrow> (bool \<times> Server \<times> 'u comet) res" where
  "start_work_thread pb os cur_time v s =
     (let c = config_info v;
          v = v\<lparr>srv_work_thread_num := cfg_work_thread_num c\<rparr>
      in if cfg_work_thread_num c < 0 then Inl UncaughtException
         else let v = v\<lparr>last_connect_time := cur_time\<rparr>
              in bind_res (start_workers pb os c (nat (cfg_work_thread_num c)) [0..<nat (cfg_work_thread_num c)]
                             (s\<lparr>threads := []\<rparr>)) (\<lambda>(ok, s). Inr (ok, v, s)))"

record listen_os =
  lo_socket :: int
  lo_setsockopt :: int
  lo_bind :: "u16 \<Rightarrow> int"
  lo_listen :: int
  lo_event_new :: bool

text \<open>The port is the low 16 bits of the number configured.\<close>

definition listen_port :: "Config \<Rightarrow> u16" where
  "listen_port c = word_of_int (cfg_listen c)"

definition start_listen :: "listen_os \<Rightarrow> Config \<Rightarrow> bool res" where
  "start_listen os c =
     (if lo_socket os = -1 then Inr False
      else if lo_setsockopt os = -1 then Inr False
      else if lo_bind os (listen_port c) \<noteq> 0 then Inr False
      else if lo_listen os \<noteq> 0 then Inr False
      else if \<not> lo_event_new os then Inl NullDeref
      else Inr True)"

section \<open>Callbacks\<close>

text \<open>The switch over the severity falls through from the warning to the error.\<close>

definition log_for_libevent :: "int \<Rightarrow> bytes \<Rightarrow> (log_level \<times> bytes) list" where
  "log_for_libevent severity msg =
     (if severity = 0 then [(DEBUG, msg)]
      else if severity = 1 then [(INFO, msg)]
      else if severity = 2 then [(WARN, msg), (ERROR, msg)]
      else if severity = 3 then [(ERROR, msg)]
      else [(ERROR, cstr ''libevent log level error, '' @ dec_int severity)])"

primrec pick_min :: "'u comet \<Rightarrow> nat list \<Rightarrow> nat \<times> int \<Rightarrow> (nat \<times> int) res" where
  "pick_min s [] m = Inr m"
| "pick_min s (i # is) m =
     bind_res (read_at (threads s) i) (\<lambda>th.
       pick_min s is (if conn_num th < snd m then (i, conn_num th) else m))"

text \<open>\<open>conn_fd\<close> is what \<open>accept4\<close> returns; it is called only when the chosen worker has room. The result
  of \<open>notify_new_conn\<close> is not looked at.\<close>

definition accept_callback :: "'u env \<Rightarrow> int \<Rightarrow> Server \<Rightarrow> 'u comet \<Rightarrow> 'u comet res" where
  "accept_callback e conn_fd v s =
     bind_res (read_at (threads s) 0) (\<lambda>th.
     bind_res (pick_min s [1..<nat (srv_work_thread_num v)] (0, conn_num th)) (\<lambda>(min_index, min_count).
     if min_count < max_num_per_thread (config_info v) then
       if conn_fd \<noteq> -1 then Inr (snd (notify_new_conn e min_index conn_fd s)) else Inr s
     else Inr s))"

text \<open>One worker of \<open>reconnect_redis\<close>; a failure sends the process \<open>SIGTERM\<close>.\<close>

definition reopen_redis :: "bool \<Rightarrow> (nat \<Rightarrow> bool option) \<Rightarrow> int \<Rightarrow> nat \<Rightarrow> 'u comet \<Rightarrow> 'u comet res" where
  "reopen_redis accepts contexts db i s =
     bind_res (read_at (threads s) i) (\<lambda>th.
     bind_res (asy_open_redis accepts (contexts i) db th) (\<lambda>(ok, th).
     let s = on_thr i (\<lambda>_. th) s
     in Inr (if ok then s else s\<lparr>kills := kills s @ [SIGTERM]\<rparr>)))"

definition reconnect_redis ::
  "bool \<Rightarrow> (nat \<Rightarrow> bool option) \<Rightarrow> int \<Rightarrow> Server \<Rightarrow> 'u comet \<Rightarrow> (Server \<times> 'u comet) res" where
  "reconnect_redis accepts contexts cur_time v s =
     (if cur_time - last_connect_time v > 10 then
        let v = v\<lparr>last_connect_time := cur_time\<rparr>; c = config_info v
        in if redis_info_count c = 0 then Inl DivideByZero
           else let c = c\<lparr>cur_conn_index := (cur_conn_index c + 1) mod redis_info_count c\<rparr>;
                    v = v\<lparr>config_info := c\<rparr>
                in bind_res (fold_res (\<lambda>i s.
                       bind_res (read_at (redis_info c) (nat (cur_conn_index c))) (\<lambda>r.
                         reopen_redis accepts contexts (ri_db_num r) i s))
                     [0..<nat (srv_work_thread_num v)] s) (\<lambda>s. Inr (v, s))
      else Inr (v, s))"

text \<open>A command is written to the pipe of every worker.\<close>

definition check_expire_client :: "'u env \<Rightarrow> Server \<Rightarrow> 'u comet \<Rightarrow> 'u comet res" where
  "check_expire_client e v s =
     fold_res (\<lambda>i s. bind_res (read_at (threads s) i) (\<lambda>_. Inr (snd (notify_new_conn e i (-2) s))))
       [0..<nat (srv_work_thread_num v)] s"

text \<open>\<open>pthread_join\<close> returns when the loop of the worker has ended: \<open>evs\<close> is what the worker serves
  after the command to stop. A worker that never stops is never joined.\<close>

definition stop_worker :: "'u env \<Rightarrow> (nat \<Rightarrow> ('u env \<times> 'u comet_event) list) \<Rightarrow> nat \<Rightarrow> 'u comet \<Rightarrow> 'u comet res" where
  "stop_worker e evs i s =
     bind_res (read_at (threads s) i) (\<lambda>_.
     bind_res (serve i (evs i) (snd (notify_new_conn e i (-1) s))) (\<lambda>s.
     if loop_broken (thr i s) then Inr s else Inl Diverged))"

definition close_server ::
  "'u env \<Rightarrow> (nat \<Rightarrow> ('u env \<times> 'u comet_event) list) \<Rightarrow> Server \<Rightarrow> 'u comet \<Rightarrow> (Server \<times> 'u comet) res" where
  "close_server e evs v s =
     (let v = v\<lparr>main_break := True\<rparr>
      in bind_res (fold_res (stop_worker e evs) [0..<nat (srv_work_thread_num v)] s) (\<lambda>s.
           Inr (v\<lparr>main_freed := True\<rparr>, s)))"

definition rotate_log :: "(bytes \<Rightarrow> int) \<Rightarrow> tm \<Rightarrow> Server \<Rightarrow> SingletonLog \<Rightarrow> (bool \<times> SingletonLog) res" where
  "rotate_log fs t v g = open_log fs t (logger_folder (config_info v)) (logger_level (config_info v)) g"

section \<open>The main loop\<close>

datatype 'u main_event =
    Accept int
  | SigStop "nat \<Rightarrow> ('u env \<times> 'u comet_event) list"
  | SigUsr1 bool "nat \<Rightarrow> bool option" int
  | SigUsr2 "bytes \<Rightarrow> int" tm
  | Timer

fun main_dispatch :: "'u env \<Rightarrow> 'u main_event \<Rightarrow> 'u process \<Rightarrow> 'u process res" where
  "main_dispatch e (Accept fd) p =
     bind_res (accept_callback e fd (server p) (comet_of p)) (\<lambda>s. Inr (p\<lparr>comet_of := s\<rparr>))"
| "main_dispatch e (SigStop evs) p =
     bind_res (close_server e evs (server p) (comet_of p)) (\<lambda>(v, s). Inr (p\<lparr>server := v, comet_of := s\<rparr>))"
| "main_dispatch e (SigUsr1 accepts contexts cur_time) p =
     bind_res (reconnect_redis accepts contexts cur_time (server p) (comet_of p)) (\<lambda>(v, s).
       Inr (p\<lparr>server := v, comet_of := s\<rparr>))"
| "main_dispatch e (SigUsr2 fs t) p =
     bind_res (rotate_log fs t (server p) (glog p)) (\<lambda>(ok, g). Inr (p\<lparr>glog := g\<rparr>))"
| "main_dispatch e Timer p =
     bind_res (check_expire_client e (server p) (comet_of p)) (\<lambda>s. Inr (p\<lparr>comet_of := s\<rparr>))"

text \<open>\<open>event_base_dispatch\<close>: the loop looks at the event base after each callback.\<close>

primrec main_serve :: "('u env \<times> 'u main_event) list \<Rightarrow> 'u process \<Rightarrow> 'u process res" where
  "main_serve [] p = Inr p"
| "main_serve (ev # evs) p =
     bind_res (main_dispatch (fst ev) (snd ev) p) (\<lambda>p.
     if main_freed (server p) then Inl UseAfterFree
     else if main_break (server p) then Inr p
     else main_serve evs p)"

record run_os =
  ro_listen :: listen_os
  ro_block :: int
  ro_unblock :: int
  ro_pidfile :: int
  ro_pid :: int
  ro_time :: int
  ro_dispatch :: int

text \<open>The result is what \<open>run_server\<close> returns. The pid file is written before the loop and removed
  after it.\<close>

definition run_server ::
  "'u pb_lib \<Rightarrow> run_os \<Rightarrow> (nat \<Rightarrow> 'u worker_os) \<Rightarrow> ('u env \<times> 'u main_event) list \<Rightarrow> 'u process \<Rightarrow> (int \<times> 'u process) res" where
  "run_server pb os wos evs p =
     bind_res (start_listen (ro_listen os) (config_info (server p))) (\<lambda>ok.
     if \<not> ok then Inr (-1, p)
     else if ro_block os \<noteq> 0 then Inr (-1, p)
     else bind_res (start_work_thread pb wos (ro_time os) (server p) (comet_of p)) (\<lambda>(ok, v, s).
     let p = p\<lparr>server := v, comet_of := s\<rparr>
     in if \<not> ok then Inr (-1, p)
        else if ro_unblock os \<noteq> 0 then Inr (-1, p)
        else if ro_pidfile os = -1 then Inr (-1, p)
        else bind_res (main_serve evs (p\<lparr>server := (server p)\<lparr>pid_file := Some (dec_int (ro_pid os))\<rparr>\<rparr>)) (\<lambda>p.
               Inr (ro_dispatch os, p\<lparr>server := (server p)\<lparr>pid_file := None\<rparr>\<rparr>))))"

section \<open>The program\<close>

text \<open>\<open>fork\<close> returns -1, 0 in the child and a pid in the parent, which exits. \<open>calls\<close> are the results of
  \<open>setsid\<close>, the three \<open>close\<close>, \<open>open\<close> and the three \<open>dup2\<close>; the first -1 ends the sequence.\<close>

datatype daemon_result = DaemonFailed | DaemonChild | DaemonParent

definition to_daemon :: "int \<Rightarrow> int list \<Rightarrow> daemon_result" where
  "to_daemon fork calls =
     (if fork = -1 then DaemonFailed
      else if fork = 0 then (if - 1 \<in> set (take 8 calls) then DaemonFailed else DaemonChild)
      else DaemonParent)"

text \<open>The exit status of the process.\<close>

definition main_program ::
  "nat \<Rightarrow> ptree option \<Rightarrow> int \<Rightarrow> int list \<Rightarrow> boot_os \<Rightarrow> bytes \<Rightarrow> 'u pb_lib \<Rightarrow> run_os \<Rightarrow> (nat \<Rightarrow> 'u worker_os)
    \<Rightarrow> ('u env \<times> 'u main_event) list \<Rightarrow> 'u process \<Rightarrow> (int \<times> 'u process) res" where
  "main_program argc tree fork calls bos base_line pb os wos evs p =
     (if argc \<noteq> 2 then Inr (1, p)
      else let v = Server_new (server p)
      in bind_res (analyse_config tree (config_info v)) (\<lambda>c.
         let v = v\<lparr>config_info := c\<rparr>; p = p\<lparr>server := v\<rparr>; d = to_daemon fork calls
         in if cfg_is_daemon c \<and> d = DaemonParent then Inr (0, p)
            else if cfg_is_daemon c \<and> d = DaemonFailed then Inr (1, p)
            else bind_res (init_server bos base_line v (glog p)) (\<lambda>(ok, v, g).
                 let p = p\<lparr>server := v, glog := g\<rparr>
                 in if \<not> ok then Inr (1, p)
                    else bind_res (run_server pb os wos evs p) (\<lambda>(_, p). Inr (0, p)))))"

section \<open>Lemmas\<close>

lemma read_redis_info_ok:
  assumes "read_redis_info pt n i = Inr rs"
  shows "length rs = n \<and> (\<forall>k < n. get_str pt (cstr ''redis.ip'' @ dec_nat (i + k)) = Some (ri_ip (rs ! k))
    \<and> get_int pt (cstr ''redis.port'' @ dec_nat (i + k)) = Some (ri_port (rs ! k))
    \<and> get_int pt (cstr ''redis.db_num'' @ dec_nat (i + k)) = Some (ri_db_num (rs ! k)))"
  using assms
proof (induction n arbitrary: i rs)
  case (Suc n)
  from Suc.prems obtain ip port db rest where rs0: "rs = \<lparr>ri_ip = ip, ri_port = port, ri_db_num = db\<rparr> # rest"
    and rest: "read_redis_info pt n (Suc i) = Inr rest" and r0: "get_str pt (cstr ''redis.ip'' @ dec_nat i) = Some ip"
      "get_int pt (cstr ''redis.port'' @ dec_nat i) = Some port" "get_int pt (cstr ''redis.db_num'' @ dec_nat i) = Some db"
    by (auto simp: bind_res_eq_Inr get_or_throw_def split: option.splits)
  show ?case
  proof (intro conjI allI impI)
    show "length rs = Suc n" using Suc.IH [OF rest] rs0 by simp
    fix k
    assume k: "k < Suc n"
    show "get_str pt (cstr ''redis.ip'' @ dec_nat (i + k)) = Some (ri_ip (rs ! k))"
      "get_int pt (cstr ''redis.port'' @ dec_nat (i + k)) = Some (ri_port (rs ! k))"
      "get_int pt (cstr ''redis.db_num'' @ dec_nat (i + k)) = Some (ri_db_num (rs ! k))"
      using Suc.IH [OF rest] rs0 r0 k by (cases k; simp)+
  qed
qed simp

lemma pick_min_ok:
  assumes "\<forall>j \<in> set is. j < length (threads s)"
  shows "\<exists>k c. pick_min s is (k0, c0) = Inr (k, c) \<and> (k = k0 \<and> c = c0 \<or> k \<in> set is \<and> c = conn_num (thr k s)) \<and> c \<le> c0
    \<and> (\<forall>j \<in> set is. c \<le> conn_num (thr j s))"
  using assms
proof (induction "is" arbitrary: k0 c0)
  case (Cons j "is")
  let ?m = "if conn_num (thr j s) < c0 then (j, conn_num (thr j s)) else (k0, c0)"
  obtain k1 c1 where m: "?m = (k1, c1)" by fastforce
  from Cons.IH [of k1 c1] Cons.prems obtain k c where "pick_min s is (k1, c1) = Inr (k, c)"
    "k = k1 \<and> c = c1 \<or> k \<in> set is \<and> c = conn_num (thr k s)" "c \<le> c1" "\<forall>j \<in> set is. c \<le> conn_num (thr j s)" by auto
  moreover from Cons.prems have "pick_min s (j # is) (k0, c0) = pick_min s is ?m" by (simp add: thr_def)
  ultimately show ?case using m by (auto split: if_splits)
qed simp

lemma stop_worker_empty_pipe:
  assumes "t < length (threads s)" and "new_conn_fd (thr t s) = []" and "\<not> loop_broken (thr t s)" and "4 \<le> pipe_room e"
    and "evs t = (e', ConnPipe t keys) # rest"
  shows "\<exists>s'. stop_worker e evs t s = Inr s' \<and> loop_broken (thr t s') \<and> new_conn_fd (thr t s') = []
    \<and> (\<forall>j < length (threads s). j \<noteq> t \<longrightarrow> thr j s' = thr j s) \<and> bevs s' = bevs s \<and> messages s' = messages s"
proof -
  let ?s = "on_thr t (\<lambda>th. th\<lparr>new_conn_fd := [-1]\<rparr>) s"
  have n: "snd (notify_new_conn e t (-1) s) = ?s" using assms by (simp add: notify_new_conn_def pipe_write_def)
  have b: "\<not> loop_broken (thr t ?s)" "new_conn_fd (thr t ?s) = [-1]" using assms(1,3) by (simp_all add: thr_on_thr)
  let ?s1 = "on_thr t (\<lambda>th. th\<lparr>loop_broken := True\<rparr>) (on_thr t (\<lambda>th. th\<lparr>new_conn_fd := []\<rparr>) ?s)"
  have "notify_new_conn_callback e' t keys ?s = Inr ?s1"
    using b by (simp add: notify_new_conn_callback_def numeral_eq_Suc)
  moreover have "loop_broken (thr t ?s1)" using assms(1) by (simp add: thr_on_thr)
  moreover have "serve t rest ?s1 = Inr ?s1" using calculation(2) by (cases rest) simp_all
  ultimately have "serve t (evs t) ?s = Inr ?s1" using assms(1,5) b by simp
  with n assms(1) \<open>loop_broken (thr t ?s1)\<close> have "stop_worker e evs t s = Inr ?s1" by (simp add: stop_worker_def)
  then show ?thesis using assms(1) by (intro exI [of _ ?s1]) (simp add: thr_on_thr)
qed

text \<open>A configuration and a server for examples.\<close>

definition sample_config :: Config where
  "sample_config = \<lparr>pid_file_path = [], logger_level = [], logger_folder = [], cfg_http_url = cstr ''h'', cfg_http_ip = cstr ''1'',
     redis_info = [\<lparr>ri_ip = cstr ''a'', ri_port = 1, ri_db_num = 4\<rparr>, \<lparr>ri_ip = cstr ''b'', ri_port = 2, ri_db_num = 7\<rparr>],
     redis_info_count = 2, cur_conn_index = 1, cfg_listen = 8080, cfg_work_thread_num = 2, max_num_per_thread = 100,
     heartbeat_time = 60, cfg_is_daemon = False\<rparr>"

definition sample_server :: Server where
  "sample_server = \<lparr>config_info = sample_config, last_connect_time = 0, srv_work_thread_num = 2, main_thread_id = 0,
     main_break = False, main_freed = False, pid_file = None\<rparr>"

section \<open>Properties\<close>

text \<open>C16: A configuration that is accepted lists as many redis servers as it announces, each with the
  address, the port and the database of its own three entries, and starts with the first of them.\<close>

theorem accepted_config_lists_redis_servers:
  assumes "analyse_config (Some pt) c = Inr c'"
  shows "0 \<le> redis_info_count c' \<and> length (redis_info c') = nat (redis_info_count c') \<and> cur_conn_index c' = 0
    \<and> (\<forall>k < length (redis_info c'). get_str pt (cstr ''redis.ip'' @ dec_nat k) = Some (ri_ip (redis_info c' ! k))
      \<and> get_int pt (cstr ''redis.port'' @ dec_nat k) = Some (ri_port (redis_info c' ! k))
      \<and> get_int pt (cstr ''redis.db_num'' @ dec_nat k) = Some (ri_db_num (redis_info c' ! k)))"
proof -
  from assms have "0 \<le> redis_info_count c'" "cur_conn_index c' = 0"
    "read_redis_info pt (nat (redis_info_count c')) 0 = Inr (redis_info c')"
    by (auto simp only: analyse_config_def option.case bind_res_eq_Inr split: if_splits) simp_all
  with read_redis_info_ok [OF this(3)] show ?thesis by simp
qed

definition sample_tree :: "int \<Rightarrow> ptree" where
  "sample_tree n = \<lparr>get_str = (\<lambda>_. Some (cstr ''on'')), get_int = (\<lambda>_. Some n)\<rparr>"

lemma sample_redis_info:
  "read_redis_info (sample_tree n) k i = Inr (replicate k \<lparr>ri_ip = cstr ''on'', ri_port = n, ri_db_num = n\<rparr>)"
  by (induction k arbitrary: i) (simp_all add: sample_tree_def get_or_throw_def)

theorem accepted_config_lists_redis_servers_witness:
  "\<exists>c'. analyse_config (Some (sample_tree 2)) (undefined :: Config) = Inr c' \<and> length (redis_info c') = 2 \<and> ri_port (redis_info c' ! 1) = 2"
proof -
  let ?on = "cstr ''on''"
  have get: "get_or_throw (get_str (sample_tree 2)) k = Inr ?on" "get_or_throw (get_int (sample_tree 2)) k = Inr 2" for k
    by (simp_all add: sample_tree_def get_or_throw_def)
  obtain c' where c': "analyse_config (Some (sample_tree 2)) (undefined :: Config) = Inr c'" "redis_info_count c' = 2"
    by (simp add: analyse_config_def get sample_redis_info)
  have "get_int (sample_tree 2) k = Some 2" for k by (simp add: sample_tree_def)
  with accepted_config_lists_redis_servers [OF c'(1)] c' show ?thesis by auto
qed

text \<open>C13: A connection is offered to a worker with the fewest connections. It is accepted and its
  socket put in the pipe of that worker if the worker has fewer than the configured maximum; if it
  has not, then no worker has, and nothing is accepted.\<close>

theorem accept_chooses_least_loaded:
  assumes "threads s \<noteq> []" and "srv_work_thread_num v = int (length (threads s))"
  shows "\<exists>k < length (threads s). (\<forall>j < length (threads s). conn_num (thr k s) \<le> conn_num (thr j s))
    \<and> accept_callback e fd v s =
       Inr (if conn_num (thr k s) < max_num_per_thread (config_info v) \<and> fd \<noteq> -1 then snd (notify_new_conn e k fd s) else s)"
proof -
  have n: "nat (srv_work_thread_num v) = length (threads s)" "0 < length (threads s)" using assms by auto
  from pick_min_ok [of "[1..<length (threads s)]" s 0 "conn_num (thr 0 s)"] obtain k c where
    p: "pick_min s [1..<length (threads s)] (0, conn_num (thr 0 s)) = Inr (k, c)"
      "k = 0 \<and> c = conn_num (thr 0 s) \<or> k \<in> {1..<length (threads s)} \<and> c = conn_num (thr k s)" "c \<le> conn_num (thr 0 s)"
      "\<forall>j \<in> {1..<length (threads s)}. c \<le> conn_num (thr j s)" by auto
  have k: "k < length (threads s)" "c = conn_num (thr k s)" using p(2) n(2) by auto
  moreover have "conn_num (thr k s) \<le> conn_num (thr j s)" if "j < length (threads s)" for j
    using p(3,4) k(2) that by (cases "j = 0") auto
  moreover have "read_at (threads s) 0 = Inr (thr 0 s)" using n(2) by (simp add: thr_def)
  ultimately show ?thesis using p(1) n(1) by (intro exI [of _ k]) (auto simp: accept_callback_def)
qed

theorem accept_chooses_least_loaded_witness:
  "\<exists>k < 2. conn_num ([sample_worker\<lparr>conn_num := 5\<rparr>, sample_worker] ! k) = 0
    \<and> accept_callback (sample_env std_pb) 7 sample_server (sample_comet [sample_worker\<lparr>conn_num := 5\<rparr>, sample_worker])
      = Inr (snd (notify_new_conn (sample_env std_pb) k 7 (sample_comet [sample_worker\<lparr>conn_num := 5\<rparr>, sample_worker])))"
proof -
  let ?s = "sample_comet [sample_worker\<lparr>conn_num := 5\<rparr>, sample_worker]"
  have n: "length (threads ?s) = 2" "srv_work_thread_num sample_server = 2" by (simp_all add: sample_comet_def sample_server_def)
  from accept_chooses_least_loaded [of ?s sample_server "sample_env std_pb" 7] n obtain k where k: "k < 2"
    "\<forall>j < 2. conn_num (thr k ?s) \<le> conn_num (thr j ?s)"
    "accept_callback (sample_env std_pb) 7 sample_server ?s = Inr (if conn_num (thr k ?s) < max_num_per_thread (config_info sample_server)
       \<and> (7 :: int) \<noteq> -1 then snd (notify_new_conn (sample_env std_pb) k 7 ?s) else ?s)" by force
  have "conn_num (thr 1 ?s) = 0" by (simp add: thr_def sample_comet_def sample_worker_def)
  moreover have "conn_num (thr k ?s) \<in> {5, 0}" using k(1) by (auto simp: less_2_cases_iff thr_def sample_comet_def sample_worker_def)
  ultimately have "conn_num (thr k ?s) = 0" using k(2) [rule_format, of 1] by auto
  moreover have "thr k ?s = [sample_worker\<lparr>conn_num := 5\<rparr>, sample_worker] ! k" by (simp add: thr_def sample_comet_def)
  ultimately show ?thesis using k by (intro exI [of _ k]) (simp add: sample_server_def sample_config_def)
qed



text \<open>C15: A worker that is told to stop while its command pipe is empty stops: it takes the command at
  its next turn, leaves its loop and serves nothing else, so that the main thread can join it.\<close>

theorem stopped_worker_is_joined:
  assumes "t < length (threads s)" and "new_conn_fd (thr t s) = []" and "\<not> loop_broken (thr t s)" and "4 \<le> pipe_room e"
    and "evs t = (e', ConnPipe t keys) # rest"
  shows "\<exists>s'. stop_worker e evs t s = Inr s' \<and> loop_broken (thr t s') \<and> new_conn_fd (thr t s') = []
    \<and> (\<forall>j < length (threads s). j \<noteq> t \<longrightarrow> thr j s' = thr j s) \<and> bevs s' = bevs s \<and> messages s' = messages s"
  by (rule stop_worker_empty_pipe [where evs = evs, OF assms])

theorem stopped_worker_is_joined_witness:
  "\<exists>s'. stop_worker (sample_env std_pb) (\<lambda>t. [(sample_env std_pb, ConnPipe t (\<lambda>_. []))]) 0 (sample_comet [sample_worker]) = Inr s'
    \<and> loop_broken (thr 0 s')"
  using stopped_worker_is_joined [of 0 "sample_comet [sample_worker]" "sample_env std_pb"
      "\<lambda>t. [(sample_env std_pb, ConnPipe t (\<lambda>_. []))]" "sample_env std_pb" "\<lambda>_. []" "[]"]
  by (auto simp: sample_comet_def sample_env_def sample_worker_def thr_def)



end
