(* ===== verification/Comet_Runs.thy ===== *)
theory Comet_Runs
  imports Comet_Server
begin

text \<open>
  Runs of the whole process. A step is a socket event that delivers bytes to a bufferevent or takes
  bytes from it (with the read callback that follows), a callback of a worker, a callback of the main
  thread, a command to stop, or a change of what the allocator will hand out. Callbacks of different
  threads interleave in any order; each one runs to its end.

  \<open>run_invariant\<close> is the contract of a state property that every step keeps; it is proved once that
  such a property holds in all reachable states and rules out its faults there. The ownership of the
  messages and the liveness of the connections are its two instances.
\<close>

section \<open>Steps\<close>






section \<open>The start\<close>






section \<open>Invariants of runs\<close>


section \<open>Messages and connections\<close>





section \<open>A started process\<close>





section \<open>Properties\<close>





end
