(* ===== verification/Spec2Isabelle.thy ===== *)
theory Spec2Isabelle
  imports Evbuffer Pb_Lib Analyse_Service Work_Thread_Props Comet_Runs
begin

text \<open>Verification of the push server.\<close>

end
